theory Spec2Isabelle
  imports Complex_Main
begin

section \<open>Tables and errors\<close>

text \<open>
  The program is a thin layer over two libraries: pandas (tables) and PyPSA (the network
  and its linear program). Numbers are Python floats; they are modelled as exact reals, so
  every statement below is about the arithmetic the code writes down, not about rounding.

  \<open>KeyError\<close> is what a column or dictionary lookup raises, \<open>ValueError\<close> what the
  network library raises for a snapshot index it refuses, \<open>LibraryError\<close> any exception
  coming out of the solver call. \<open>ConfigurationError\<close> is the error named by the
  specification; no statement of \<open>model.py\<close> or \<open>main.py\<close> raises it.
\<close>

datatype error =
    KeyError string
  | ValueError string
  | LibraryError string
  | ConfigurationError

definition and_then :: "error + 'a \<Rightarrow> ('a \<Rightarrow> error + 'b) \<Rightarrow> error + 'b" where
  "and_then r f = (case r of Inl e \<Rightarrow> Inl e | Inr v \<Rightarrow> f v)"

text \<open>
  A pandas DataFrame: the row labels, the name of the index, and the columns in order.
  A Series is the list of its values in index order. Every Series the program combines is
  a column of a table indexed by the snapshots, so label alignment is positional.
\<close>

type_synonym series = "real list"

record dataframe =
  index :: "string list"
  index_name :: string
  columns :: "(string \<times> series) list"

definition DataFrame :: dataframe where
  "DataFrame = \<lparr>index = [], index_name = [], columns = []\<rparr>"

definition getitem :: "dataframe \<Rightarrow> string \<Rightarrow> error + series" where
  "getitem df c = (case map_of (columns df) c of None \<Rightarrow> Inl (KeyError c) | Some v \<Rightarrow> Inr v)"

fun set_col :: "string \<Rightarrow> series \<Rightarrow> (string \<times> series) list \<Rightarrow> (string \<times> series) list" where
  "set_col c v [] = [(c, v)]"
| "set_col c v ((k, w) # cs) = (if k = c then (c, v) # cs else (k, w) # set_col c v cs)"

definition setitem :: "dataframe \<Rightarrow> string \<Rightarrow> series \<Rightarrow> dataframe" where
  "setitem df c v = df\<lparr>columns := set_col c v (columns df)\<rparr>"

definition reindex :: "string list \<Rightarrow> dataframe \<Rightarrow> dataframe" where
  "reindex sns df = df\<lparr>index := sns, index_name := ''snapshot''\<rparr>"

definition series_add :: "series \<Rightarrow> series \<Rightarrow> series" where
  "series_add a b = map2 (+) a b"

definition series_sub :: "series \<Rightarrow> series \<Rightarrow> series" where
  "series_sub a b = map2 (-) a b"

definition series_scale :: "series \<Rightarrow> real \<Rightarrow> series" where
  "series_scale a k = map (\<lambda>x. x * k) a"

text \<open>
  \<open>frame * series\<close>: each column is multiplied by the entry of the Series that carries the
  column's name. pandas also produces an all-NaN column for every label present on one
  side only; such a column is never read by this program and is left out.
\<close>

definition mul_columns :: "dataframe \<Rightarrow> (string \<times> real) list \<Rightarrow> dataframe" where
  "mul_columns df s =
     df\<lparr>columns := concat (map (\<lambda>(c, v). case map_of s c of None \<Rightarrow> []
                                          | Some k \<Rightarrow> [(c, series_scale v k)]) (columns df))\<rparr>"

section \<open>The network library\<close>

text \<open>
  The components of a PyPSA network that the program creates, with the attributes it sets
  or reads. An attribute the program does not pass keeps the library's default.
\<close>

record generator =
  name :: string
  bus :: string
  p_nom :: real
  p_nom_extendable :: bool
  p_nom_min :: real
  p_nom_opt :: real
  p_max_pu :: real
  marginal_cost :: real
  capital_cost :: real

record load_component =
  load_name :: string
  load_bus :: string

record storage_unit =
  su_name :: string
  su_bus :: string
  su_p_nom :: real
  max_hours :: real
  cyclic_state_of_charge :: bool
  state_of_charge_initial :: real
  efficiency_store :: real
  efficiency_dispatch :: real
  standing_loss :: real

record network =
  snapshots :: "string list"
  buses :: "string list"
  generators :: "generator list"
  generators_t_p_max_pu :: dataframe
  generators_t_p :: dataframe
  loads :: "load_component list"
  loads_t_p_set :: dataframe
  loads_t_p :: dataframe
  storage_units :: "storage_unit list"
  storage_units_t_p :: dataframe
  storage_units_t_p_dispatch :: dataframe
  storage_units_t_p_store :: dataframe
  storage_units_t_state_of_charge :: dataframe

definition empty_table :: "string list \<Rightarrow> dataframe" where
  "empty_table sns = \<lparr>index = sns, index_name = ''snapshot'', columns = []\<rparr>"

text \<open>\<open>pypsa.Network()\<close>: no components, one placeholder snapshot, empty tables.\<close>

definition pypsa_Network :: network where
  "pypsa_Network =
     \<lparr>snapshots = [''now''], buses = [], generators = [],
      generators_t_p_max_pu = empty_table [''now''], generators_t_p = empty_table [''now''],
      loads = [], loads_t_p_set = empty_table [''now''], loads_t_p = empty_table [''now''],
      storage_units = [],
      storage_units_t_p = empty_table [''now''],
      storage_units_t_p_dispatch = empty_table [''now''],
      storage_units_t_p_store = empty_table [''now''],
      storage_units_t_state_of_charge = empty_table [''now'']\<rparr>"

text \<open>
  \<open>set_snapshots\<close> replaces the snapshot index and re-indexes every time-dependent table.
  Whether the library refuses an empty index is not decided by this repository; it is the
  parameter \<open>refuses_empty\<close>.
\<close>

definition set_snapshots :: "bool \<Rightarrow> network \<Rightarrow> string list \<Rightarrow> error + network" where
  "set_snapshots refuses_empty n sns =
     (if refuses_empty \<and> sns = [] then Inl (ValueError ''Snapshots must not be empty.'')
      else Inr (n\<lparr>snapshots := sns,
                  generators_t_p_max_pu := reindex sns (generators_t_p_max_pu n),
                  generators_t_p := reindex sns (generators_t_p n),
                  loads_t_p_set := reindex sns (loads_t_p_set n),
                  loads_t_p := reindex sns (loads_t_p n),
                  storage_units_t_p := reindex sns (storage_units_t_p n),
                  storage_units_t_p_dispatch := reindex sns (storage_units_t_p_dispatch n),
                  storage_units_t_p_store := reindex sns (storage_units_t_p_store n),
                  storage_units_t_state_of_charge :=
                    reindex sns (storage_units_t_state_of_charge n)\<rparr>))"

definition add_Bus :: "network \<Rightarrow> string \<Rightarrow> network" where
  "add_Bus n nm = n\<lparr>buses := buses n @ [nm]\<rparr>"

text \<open>The library's defaults for a generator and for a storage unit.\<close>

definition Generator :: "string \<Rightarrow> generator" where
  "Generator nm =
     \<lparr>name = nm, bus = [], p_nom = 0, p_nom_extendable = False, p_nom_min = 0,
      p_nom_opt = 0, p_max_pu = 1, marginal_cost = 0, capital_cost = 0\<rparr>"

definition StorageUnit :: "string \<Rightarrow> storage_unit" where
  "StorageUnit nm =
     \<lparr>su_name = nm, su_bus = [], su_p_nom = 0, max_hours = 1,
      cyclic_state_of_charge = False, state_of_charge_initial = 0,
      efficiency_store = 1, efficiency_dispatch = 1, standing_loss = 0\<rparr>"

text \<open>
  \<open>network.add\<close>: a new row in the component's table; an attribute given as a Series goes
  to the component's time-dependent table, under the component's name.
\<close>

definition add_Generator :: "network \<Rightarrow> generator \<Rightarrow> series option \<Rightarrow> network" where
  "add_Generator n g p_max_pu_t =
     (let n1 = n\<lparr>generators := generators n @ [g]\<rparr>
      in case p_max_pu_t of
           None \<Rightarrow> n1
         | Some v \<Rightarrow> n1\<lparr>generators_t_p_max_pu := setitem (generators_t_p_max_pu n1) (name g) v\<rparr>)"

definition add_Load :: "network \<Rightarrow> load_component \<Rightarrow> series \<Rightarrow> network" where
  "add_Load n l p_set =
     n\<lparr>loads := loads n @ [l], loads_t_p_set := setitem (loads_t_p_set n) (load_name l) p_set\<rparr>"

definition add_StorageUnit :: "network \<Rightarrow> storage_unit \<Rightarrow> network" where
  "add_StorageUnit n s = n\<lparr>storage_units := storage_units n @ [s]\<rparr>"

text \<open>
  A table is well formed when every column is as long as the index, as every pandas
  DataFrame is.
\<close>

definition frame_ok :: "dataframe \<Rightarrow> bool" where
  "frame_ok df = list_all (\<lambda>(c, v). length v = length (index df)) (columns df)"

text \<open>\<open>network.generators.p_nom_opt[nm]\<close>, as the list of the matching rows.\<close>

definition p_nom_opt_of :: "network \<Rightarrow> string \<Rightarrow> real list" where
  "p_nom_opt_of n nm = map p_nom_opt (filter (\<lambda>g. name g = nm) (generators n))"

section \<open>model.py\<close>

text \<open>
  The \<open>Model\<close> object. \<open>installed_capacities\<close> is a dictionary; \<open>opt_state\<close> does not
  exist before \<open>optimize\<close> has run. The attribute \<open>m\<close> (the library's handle on the linear
  program) is not read by the program and is not represented.
\<close>

record model =
  df_profiles :: dataframe
  installed_capacities :: "string \<rightharpoonup> real"
  charge_efficiency :: real
  discharge_efficiency :: real
  marginal_cost_residual :: real
  capital_cost_residual :: real
  min_installed_cap_residual :: real
  network :: network
  opt_state :: "(string \<times> string) option"

definition dict_getitem :: "(string \<rightharpoonup> real) \<Rightarrow> string \<Rightarrow> error + real" where
  "dict_getitem d k = (case d k of None \<Rightarrow> Inl (KeyError k) | Some v \<Rightarrow> Inr v)"

definition setup_network :: "bool \<Rightarrow> model \<Rightarrow> error + model" where
  "setup_network refuses_empty self =
     and_then (set_snapshots refuses_empty pypsa_Network (index (df_profiles self)))
       (\<lambda>n. Inr (self\<lparr>network := add_Bus n ''DE''\<rparr>))"

text \<open>
  One renewable generator: the capacity is read from the dictionary, then the profile
  column from the table, then the component is added.
\<close>

definition add_renewable :: "model \<Rightarrow> string \<Rightarrow> string \<Rightarrow> error + model" where
  "add_renewable self nm profile =
     and_then (dict_getitem (installed_capacities self) nm) (\<lambda>cap.
     and_then (getitem (df_profiles self) profile) (\<lambda>prof.
       Inr (self\<lparr>network :=
              add_Generator (network self)
                ((Generator nm)\<lparr>bus := ''DE'', p_nom := cap, marginal_cost := 1 / 10\<rparr>)
                (Some prof)\<rparr>)))"

definition add_generators :: "model \<Rightarrow> error + model" where
  "add_generators self =
     and_then (add_renewable self ''pv'' ''pv_profile'') (\<lambda>self.
     and_then (add_renewable self ''wind_on'' ''wind_on_profile'') (\<lambda>self.
     and_then (add_renewable self ''wind_off'' ''wind_off_profile'') (\<lambda>self.
     and_then (add_renewable self ''biomass'' ''biomass_profile'') (\<lambda>self.
     and_then (add_renewable self ''hydro'' ''hydro_profile'') (\<lambda>self.
       Inr (self\<lparr>network :=
              add_Generator (network self)
                ((Generator ''residual_load'')
                   \<lparr>bus := ''DE'',
                    marginal_cost := marginal_cost_residual self,
                    capital_cost := capital_cost_residual self,
                    p_nom_min := min_installed_cap_residual self,
                    p_nom_extendable := True\<rparr>)
                None\<rparr>))))))"

definition Model_init ::
  "bool \<Rightarrow> dataframe \<Rightarrow> real \<Rightarrow> real \<Rightarrow> real \<Rightarrow> real \<Rightarrow> real \<Rightarrow> real \<Rightarrow> real \<Rightarrow> real \<Rightarrow> real
     \<Rightarrow> real \<Rightarrow> real \<Rightarrow> real \<Rightarrow> real \<Rightarrow> error + model" where
  "Model_init refuses_empty df_profiles_arg load pv_p_inst wind_on_p_inst wind_off_p_inst
     bio_p_inst hydro_p_inst batteries_p_inst batteries_duration charge_efficiency_arg
     discharge_efficiency_arg marginal_cost_residual_arg capital_cost_residual_arg
     min_installed_cap_residual_arg =
     (let self = \<lparr>df_profiles = df_profiles_arg,
                  installed_capacities =
                    [''pv'' \<mapsto> pv_p_inst, ''wind_on'' \<mapsto> wind_on_p_inst,
                     ''wind_off'' \<mapsto> wind_off_p_inst, ''biomass'' \<mapsto> bio_p_inst,
                     ''hydro'' \<mapsto> hydro_p_inst, ''batteries_p_inst'' \<mapsto> batteries_p_inst,
                     ''batteries_duration'' \<mapsto> batteries_duration],
                  charge_efficiency = charge_efficiency_arg,
                  discharge_efficiency = discharge_efficiency_arg,
                  marginal_cost_residual = marginal_cost_residual_arg,
                  capital_cost_residual = capital_cost_residual_arg,
                  min_installed_cap_residual = min_installed_cap_residual_arg,
                  network = pypsa_Network,
                  opt_state = None\<rparr>
      in and_then (setup_network refuses_empty self) (\<lambda>self.
         and_then (add_generators self) (\<lambda>self.
         and_then (getitem (df_profiles self) ''load_profile'') (\<lambda>load_profile.
         let self = self\<lparr>network :=
                      add_Load (network self) \<lparr>load_name = ''load'', load_bus = ''DE''\<rparr>
                        (series_scale load_profile load)\<rparr>
         in and_then (dict_getitem (installed_capacities self) ''batteries_p_inst'') (\<lambda>bp.
            and_then (dict_getitem (installed_capacities self) ''batteries_duration'') (\<lambda>bd.
              Inr (self\<lparr>network :=
                     add_StorageUnit (network self)
                       ((StorageUnit ''batteries'')
                          \<lparr>su_bus := ''DE'', su_p_nom := bp, max_hours := bd,
                           cyclic_state_of_charge := True,
                           efficiency_store := charge_efficiency self,
                           efficiency_dispatch := discharge_efficiency self,
                           standing_loss := 1 / 10000\<rparr>)\<rparr>)))))))"

text \<open>
  \<open>optimize\<close>: the library builds and solves the linear program; \<open>solve_model\<close> writes the
  solution into the network and returns the pair (status, termination condition). The
  library call is the parameter \<open>solve_model\<close>; an exception it raises is not caught.
\<close>

type_synonym solver = "network \<Rightarrow> error + ((string \<times> string) \<times> network)"

definition optimize :: "solver \<Rightarrow> model \<Rightarrow> error + ((string \<times> string) \<times> model)" where
  "optimize solve_model self =
     and_then (solve_model (network self)) (\<lambda>(st, n).
       Inr (st, self\<lparr>network := n, opt_state := Some st\<rparr>))"

text \<open>
  \<open>get_results\<close> returns the result table together with the object as the call leaves it:
  \<open>df_actual_generation\<close> is the network's own dispatch table, not a copy, so the column
  assigned to it is a column of \<open>network.generators_t.p\<close> afterwards.
  \<open>df_power_availability\<close> is a new table. The object after a call that raised is not
  represented.
\<close>

definition get_results :: "model \<Rightarrow> error + (dataframe \<times> model)" where
  "get_results self =
     (let df_power_availability =
            mul_columns (generators_t_p_max_pu (network self))
              (map (\<lambda>g. (name g, p_nom g)) (generators (network self)))
      in and_then (getitem df_power_availability ''pv'') (\<lambda>a1.
         and_then (getitem df_power_availability ''wind_on'') (\<lambda>a2.
         and_then (getitem df_power_availability ''wind_off'') (\<lambda>a3.
         and_then (getitem df_power_availability ''biomass'') (\<lambda>a4.
         and_then (getitem df_power_availability ''hydro'') (\<lambda>a5.
         let df_power_availability =
               setitem df_power_availability ''re_power_availability''
                 (series_add (series_add (series_add (series_add a1 a2) a3) a4) a5);
             df_actual_generation = generators_t_p (network self)
         in and_then (getitem df_actual_generation ''pv'') (\<lambda>g1.
            and_then (getitem df_actual_generation ''wind_on'') (\<lambda>g2.
            and_then (getitem df_actual_generation ''wind_off'') (\<lambda>g3.
            and_then (getitem df_actual_generation ''biomass'') (\<lambda>g4.
            and_then (getitem df_actual_generation ''hydro'') (\<lambda>g5.
            let df_actual_generation =
                  setitem df_actual_generation ''actual_re_generation''
                    (series_add (series_add (series_add (series_add g1 g2) g3) g4) g5);
                self = self\<lparr>network := (network self)\<lparr>generators_t_p := df_actual_generation\<rparr>\<rparr>;
                df_result = DataFrame
            in and_then (getitem df_power_availability ''pv'') (\<lambda>c.
               let df_result = (setitem df_result ''pv'' c)
                                 \<lparr>index := index df_power_availability,
                                  index_name := index_name df_power_availability\<rparr>
               in and_then (getitem df_power_availability ''wind_on'') (\<lambda>c.
               let df_result = setitem df_result ''wind_on'' c
               in and_then (getitem df_power_availability ''wind_off'') (\<lambda>c.
               let df_result = setitem df_result ''wind_off'' c
               in and_then (getitem df_power_availability ''biomass'') (\<lambda>c.
               let df_result = setitem df_result ''biomass'' c
               in and_then (getitem df_power_availability ''hydro'') (\<lambda>c.
               let df_result = setitem df_result ''hydro'' c
               in and_then (getitem (storage_units_t_p (network self)) ''batteries'') (\<lambda>c.
               let df_result = setitem df_result ''batteries'' c
               in and_then (getitem (loads_t_p (network self)) ''load'') (\<lambda>c.
               let df_result = setitem df_result ''load'' c
               in and_then (getitem df_power_availability ''re_power_availability'') (\<lambda>av.
                  and_then (getitem df_actual_generation ''actual_re_generation'') (\<lambda>ac.
               let df_result = setitem df_result ''curtailed_re'' (series_sub av ac)
               in and_then (getitem df_result ''load'') (\<lambda>ld.
                  and_then (getitem df_power_availability ''re_power_availability'') (\<lambda>av.
                  and_then (getitem df_result ''batteries'') (\<lambda>bt.
               let df_result = setitem df_result ''residual_load''
                                 (series_sub (series_sub ld av) bt);
                   df_result = df_result\<lparr>index_name := ''time''\<rparr>
               in Inr (df_result, self))))))))))))))))))))))))"

section \<open>main.py\<close>

text \<open>
  \<open>main\<close> builds the model with its fixed scenario, optimizes, and extracts results only
  when the first component of the returned pair is \<open>ok\<close>. The profile table (a placeholder
  in the source, to be replaced by data) is a parameter; logging and plotting are left out.
\<close>

datatype outcome = Successful dataframe | Not_successful

definition main :: "bool \<Rightarrow> solver \<Rightarrow> dataframe \<Rightarrow> error + outcome" where
  "main refuses_empty solve_model df_profiles_arg =
     and_then (Model_init refuses_empty df_profiles_arg 750000000 215000 115000 30000 5200 2100
                 25000 4 (9 / 10) 1 100 1000 0) (\<lambda>germany_model.
     and_then (optimize solve_model germany_model) (\<lambda>(opt_state_ret, germany_model).
       if fst opt_state_ret = ''ok''
       then and_then (get_results germany_model) (\<lambda>(df_result, germany_model).
              Inr (Successful df_result))
       else Inr Not_successful))"

section \<open>The linear program\<close>

text \<open>
  The program hands the network to the library, which builds the linear program and has
  it solved. The constraints below are what that program says about a network whose
  output tables hold a solution; they are written for any network of generators, loads
  and storage units, and are read off a network, not off the scenario.
\<close>

text \<open>
  Reading a table: the column (empty when there is none) and one of its entries. An entry
  is only read at a position below the length that the column is known to have.
\<close>

definition col :: "dataframe \<Rightarrow> string \<Rightarrow> series" where
  "col df c = (case map_of (columns df) c of None \<Rightarrow> [] | Some v \<Rightarrow> v)"

definition cell :: "dataframe \<Rightarrow> string \<Rightarrow> nat \<Rightarrow> real" where
  "cell df c t = col df c ! t"

definition has_col :: "dataframe \<Rightarrow> string \<Rightarrow> nat \<Rightarrow> bool" where
  "has_col df c T = (case map_of (columns df) c of None \<Rightarrow> False | Some v \<Rightarrow> length v = T)"

definition horizon :: "network \<Rightarrow> nat list" where
  "horizon n = [0..<length (snapshots n)]"

definition gen_cap :: "generator \<Rightarrow> real" where
  "gen_cap g = (if p_nom_extendable g then p_nom_opt g else p_nom g)"

definition gen_p_max_pu :: "network \<Rightarrow> generator \<Rightarrow> nat \<Rightarrow> real" where
  "gen_p_max_pu n g t =
     (case map_of (columns (generators_t_p_max_pu n)) (name g) of
        None \<Rightarrow> p_max_pu g
      | Some v \<Rightarrow> v ! t)"

text \<open>
  Modelled from the spec: the availability ceiling of section 4.1,
  \<open>0 \<le> dispatch_g(t) \<le> capacity_g * availability_g(t)\<close>, the capacity of an extendable
  generator being the optimized one, which is at least \<open>p_nom_min\<close>. The constraint
  generation itself is library code.
\<close>

definition generator_ok :: "network \<Rightarrow> generator \<Rightarrow> bool" where
  "generator_ok n g =
     (has_col (generators_t_p n) (name g) (length (snapshots n)) \<and>
      (if p_nom_extendable g then p_nom_min g \<le> p_nom_opt g else p_nom_opt g = p_nom g) \<and>
      list_all (\<lambda>t. 0 \<le> cell (generators_t_p n) (name g) t \<and>
                     cell (generators_t_p n) (name g) t \<le> gen_cap g * gen_p_max_pu n g t)
        (horizon n))"

text \<open>
  Modelled from the spec: the storage constraints of section 4.1. The state of charge
  before the first snapshot is the one of the last snapshot when the unit is cyclic, and
  the initial state of charge otherwise. Net power is discharge minus charge.
\<close>

definition soc_before :: "network \<Rightarrow> storage_unit \<Rightarrow> nat \<Rightarrow> real" where
  "soc_before n s t =
     (if t = 0
      then (if cyclic_state_of_charge s
            then cell (storage_units_t_state_of_charge n) (su_name s) (length (snapshots n) - 1)
            else state_of_charge_initial s)
      else cell (storage_units_t_state_of_charge n) (su_name s) (t - 1))"

definition storage_unit_ok :: "network \<Rightarrow> storage_unit \<Rightarrow> bool" where
  "storage_unit_ok n s =
     (has_col (storage_units_t_p n) (su_name s) (length (snapshots n)) \<and>
      has_col (storage_units_t_p_dispatch n) (su_name s) (length (snapshots n)) \<and>
      has_col (storage_units_t_p_store n) (su_name s) (length (snapshots n)) \<and>
      has_col (storage_units_t_state_of_charge n) (su_name s) (length (snapshots n)) \<and>
      list_all (\<lambda>t.
          0 \<le> cell (storage_units_t_p_dispatch n) (su_name s) t \<and>
          cell (storage_units_t_p_dispatch n) (su_name s) t \<le> su_p_nom s \<and>
          0 \<le> cell (storage_units_t_p_store n) (su_name s) t \<and>
          cell (storage_units_t_p_store n) (su_name s) t \<le> su_p_nom s \<and>
          cell (storage_units_t_p n) (su_name s) t =
            cell (storage_units_t_p_dispatch n) (su_name s) t
              - cell (storage_units_t_p_store n) (su_name s) t \<and>
          0 \<le> cell (storage_units_t_state_of_charge n) (su_name s) t \<and>
          cell (storage_units_t_state_of_charge n) (su_name s) t \<le> su_p_nom s * max_hours s \<and>
          cell (storage_units_t_state_of_charge n) (su_name s) t =
            soc_before n s t * (1 - standing_loss s)
              + cell (storage_units_t_p_store n) (su_name s) t * efficiency_store s
              - cell (storage_units_t_p_dispatch n) (su_name s) t / efficiency_dispatch s)
        (horizon n))"

text \<open>
  Modelled from the spec: a load is an input, not a decision; the power it draws in a
  solution is its set point.
\<close>

definition load_ok :: "network \<Rightarrow> load_component \<Rightarrow> bool" where
  "load_ok n l =
     (has_col (loads_t_p n) (load_name l) (length (snapshots n)) \<and>
      list_all (\<lambda>t. cell (loads_t_p n) (load_name l) t = cell (loads_t_p_set n) (load_name l) t)
        (horizon n))"

text \<open>
  Modelled from the spec: the energy balance of section 4.1, for one bus: what the
  generators and the storage units on the bus feed in equals what its loads draw.
\<close>

definition injection :: "network \<Rightarrow> string \<Rightarrow> nat \<Rightarrow> real" where
  "injection n b t =
     sum_list (map (\<lambda>g. cell (generators_t_p n) (name g) t)
                 (filter (\<lambda>g. bus g = b) (generators n)))
     + sum_list (map (\<lambda>s. cell (storage_units_t_p n) (su_name s) t)
                 (filter (\<lambda>s. su_bus s = b) (storage_units n)))"

definition withdrawal :: "network \<Rightarrow> string \<Rightarrow> nat \<Rightarrow> real" where
  "withdrawal n b t =
     sum_list (map (\<lambda>l. cell (loads_t_p n) (load_name l) t)
                 (filter (\<lambda>l. load_bus l = b) (loads n)))"

definition bus_ok :: "network \<Rightarrow> string \<Rightarrow> bool" where
  "bus_ok n b = list_all (\<lambda>t. injection n b t = withdrawal n b t) (horizon n)"

text \<open>
  Modelled from the spec: a solution satisfies the constraints of every component and the
  balance of every bus.
\<close>

definition lp_solution :: "network \<Rightarrow> bool" where
  "lp_solution n =
     (list_all (generator_ok n) (generators n) \<and>
      list_all (storage_unit_ok n) (storage_units n) \<and>
      list_all (load_ok n) (loads n) \<and>
      list_all (bus_ok n) (buses n))"

text \<open>The data of the problem: everything in a network that solving does not write.\<close>

definition gen_inputs ::
  "generator \<Rightarrow> string \<times> string \<times> real \<times> bool \<times> real \<times> real \<times> real \<times> real" where
  "gen_inputs g =
     (name g, bus g, p_nom g, p_nom_extendable g, p_nom_min g, p_max_pu g,
      marginal_cost g, capital_cost g)"

definition same_problem :: "network \<Rightarrow> network \<Rightarrow> bool" where
  "same_problem n n' =
     (snapshots n' = snapshots n \<and> buses n' = buses n \<and>
      map gen_inputs (generators n') = map gen_inputs (generators n) \<and>
      generators_t_p_max_pu n' = generators_t_p_max_pu n \<and>
      loads n' = loads n \<and> loads_t_p_set n' = loads_t_p_set n \<and>
      storage_units n' = storage_units n)"

text \<open>
  Modelled from the spec: the contract of the solve in section 4.2. With status \<open>ok\<close> the
  network holds a solution of its own linear program; with any other status nothing is
  written.
\<close>

definition lp_solver :: "solver \<Rightarrow> bool" where
  "lp_solver solve_model =
     (\<forall>n st n'. solve_model n = Inr (st, n') \<longrightarrow>
        (if fst st = ''ok'' then same_problem n n' \<and> lp_solution n' else n' = n))"

section \<open>What the constructor builds\<close>

text \<open>
  The network that \<open>Model_init\<close> leaves behind when it returns, written out: one bus,
  five renewable generators with their profiles, the extendable residual generator, the
  load and the battery, and empty output tables.
\<close>

definition built_network ::
  "string list \<Rightarrow> series \<Rightarrow> series \<Rightarrow> series \<Rightarrow> series \<Rightarrow> series \<Rightarrow> series \<Rightarrow>
   real \<Rightarrow> real \<Rightarrow> real \<Rightarrow> real \<Rightarrow> real \<Rightarrow> real \<Rightarrow> real \<Rightarrow> real \<Rightarrow> real \<Rightarrow> real \<Rightarrow> real \<Rightarrow> real \<Rightarrow> real
   \<Rightarrow> network" where
  "built_network sns ppv pwon pwoff pbio phyd pl load pv won woff bio hyd bp bd ce de mc cc mn =
     \<lparr>snapshots = sns, buses = [''DE''],
      generators =
        [(Generator ''pv'')\<lparr>bus := ''DE'', p_nom := pv, marginal_cost := 1 / 10\<rparr>,
         (Generator ''wind_on'')\<lparr>bus := ''DE'', p_nom := won, marginal_cost := 1 / 10\<rparr>,
         (Generator ''wind_off'')\<lparr>bus := ''DE'', p_nom := woff, marginal_cost := 1 / 10\<rparr>,
         (Generator ''biomass'')\<lparr>bus := ''DE'', p_nom := bio, marginal_cost := 1 / 10\<rparr>,
         (Generator ''hydro'')\<lparr>bus := ''DE'', p_nom := hyd, marginal_cost := 1 / 10\<rparr>,
         (Generator ''residual_load'')\<lparr>bus := ''DE'', marginal_cost := mc, capital_cost := cc,
            p_nom_min := mn, p_nom_extendable := True\<rparr>],
      generators_t_p_max_pu =
        \<lparr>index = sns, index_name = ''snapshot'',
         columns = [(''pv'', ppv), (''wind_on'', pwon), (''wind_off'', pwoff),
                    (''biomass'', pbio), (''hydro'', phyd)]\<rparr>,
      generators_t_p = empty_table sns,
      loads = [\<lparr>load_name = ''load'', load_bus = ''DE''\<rparr>],
      loads_t_p_set = \<lparr>index = sns, index_name = ''snapshot'',
                       columns = [(''load'', series_scale pl load)]\<rparr>,
      loads_t_p = empty_table sns,
      storage_units =
        [(StorageUnit ''batteries'')\<lparr>su_bus := ''DE'', su_p_nom := bp, max_hours := bd,
            cyclic_state_of_charge := True, efficiency_store := ce,
            efficiency_dispatch := de, standing_loss := 1 / 10000\<rparr>],
      storage_units_t_p = empty_table sns,
      storage_units_t_p_dispatch = empty_table sns,
      storage_units_t_p_store = empty_table sns,
      storage_units_t_state_of_charge = empty_table sns\<rparr>"

definition built_model ::
  "dataframe \<Rightarrow> series \<Rightarrow> series \<Rightarrow> series \<Rightarrow> series \<Rightarrow> series \<Rightarrow> series \<Rightarrow>
   real \<Rightarrow> real \<Rightarrow> real \<Rightarrow> real \<Rightarrow> real \<Rightarrow> real \<Rightarrow> real \<Rightarrow> real \<Rightarrow> real \<Rightarrow> real \<Rightarrow> real \<Rightarrow> real \<Rightarrow> real
   \<Rightarrow> model" where
  "built_model df p1 p2 p3 p4 p5 pl load pv won woff bio hyd bp bd ce de mc cc mn =
     \<lparr>df_profiles = df,
      installed_capacities =
        [''pv'' \<mapsto> pv, ''wind_on'' \<mapsto> won, ''wind_off'' \<mapsto> woff, ''biomass'' \<mapsto> bio,
         ''hydro'' \<mapsto> hyd, ''batteries_p_inst'' \<mapsto> bp, ''batteries_duration'' \<mapsto> bd],
      charge_efficiency = ce, discharge_efficiency = de, marginal_cost_residual = mc,
      capital_cost_residual = cc, min_installed_cap_residual = mn,
      network = built_network (index df) p1 p2 p3 p4 p5 pl load pv won woff bio hyd bp bd ce de
                  mc cc mn,
      opt_state = None\<rparr>"

section \<open>A small scenario\<close>

text \<open>
  Two snapshots, sunshine in the first only, a constant load of 5. The solution written
  by \<open>example_solution\<close> charges the battery from the surplus of the first snapshot and
  discharges it in the second; the residual generator covers the rest.
\<close>

definition example_profiles :: dataframe where
  "example_profiles =
     \<lparr>index = [''t0'', ''t1''], index_name = [],
      columns = [(''pv_profile'', [1, 0]), (''wind_on_profile'', [0, 0]),
                 (''wind_off_profile'', [0, 0]), (''biomass_profile'', [0, 0]),
                 (''hydro_profile'', [0, 0]), (''load_profile'', [1 / 2, 1 / 2])]\<rparr>"

definition example_model :: model where
  "example_model =
     built_model example_profiles [1, 0] [0, 0] [0, 0] [0, 0] [0, 0] [1 / 2, 1 / 2]
       10 8 0 0 0 0 2 4 (9 / 10) 1 100 1000 0"

definition example_solution :: "network \<Rightarrow> network" where
  "example_solution n =
     n\<lparr>generators :=
         map (\<lambda>g. g\<lparr>p_nom_opt := (if p_nom_extendable g then 160009 / 50000 else p_nom g)\<rparr>)
           (generators n),
       generators_t_p :=
         \<lparr>index = snapshots n, index_name = ''snapshot'',
          columns = [(''pv'', [7, 0]), (''wind_on'', [0, 0]), (''wind_off'', [0, 0]),
                     (''biomass'', [0, 0]), (''hydro'', [0, 0]),
                     (''residual_load'', [0, 160009 / 50000])]\<rparr>,
       loads_t_p := loads_t_p_set n,
       storage_units_t_p :=
         \<lparr>index = snapshots n, index_name = ''snapshot'',
          columns = [(''batteries'', [- 2, 89991 / 50000])]\<rparr>,
       storage_units_t_p_dispatch :=
         \<lparr>index = snapshots n, index_name = ''snapshot'',
          columns = [(''batteries'', [0, 89991 / 50000])]\<rparr>,
       storage_units_t_p_store :=
         \<lparr>index = snapshots n, index_name = ''snapshot'',
          columns = [(''batteries'', [2, 0])]\<rparr>,
       storage_units_t_state_of_charge :=
         \<lparr>index = snapshots n, index_name = ''snapshot'',
          columns = [(''batteries'', [9 / 5, 0])]\<rparr>\<rparr>"

definition example_solver :: solver where
  "example_solver n =
     (if lp_solution (example_solution n)
      then Inr ((''ok'', ''optimal''), example_solution n)
      else Inr ((''warning'', ''infeasible''), n))"

definition example_solved :: model where
  "example_solved =
     example_model\<lparr>network := example_solution (network example_model),
                   opt_state := Some (''ok'', ''optimal'')\<rparr>"

text \<open>
  What \<open>get_results\<close> returns for the solved scenario: the result table, and the object
  as the call leaves it.
\<close>

definition example_result :: dataframe where
  "example_result =
     \<lparr>index = [''t0'', ''t1''], index_name = ''time'',
      columns = [(''pv'', [8, 0]), (''wind_on'', [0, 0]), (''wind_off'', [0, 0]),
                 (''biomass'', [0, 0]), (''hydro'', [0, 0]),
                 (''batteries'', [- 2, 89991 / 50000]), (''load'', [5, 5]),
                 (''curtailed_re'', [1, 0]),
                 (''residual_load'', [- 1, 160009 / 50000])]\<rparr>"

definition example_after :: model where
  "example_after =
     example_solved\<lparr>network := (network example_solved)
       \<lparr>generators_t_p :=
          setitem (generators_t_p (network example_solved)) ''actual_re_generation'' [7, 0]\<rparr>\<rparr>"

text \<open>A solve that reports an infeasible problem and writes nothing.\<close>

definition infeasible_solver :: solver where
  "infeasible_solver n = Inr ((''warning'', ''infeasible''), n)"

text \<open>
  Two empty profile tables: one with the six required columns and no rows, and the
  column-less \<open>pd.DataFrame()\<close> that \<open>main.py\<close> uses as a placeholder.
\<close>

definition empty_profiles :: dataframe where
  "empty_profiles =
     \<lparr>index = [], index_name = [],
      columns = [(''pv_profile'', []), (''wind_on_profile'', []), (''wind_off_profile'', []),
                 (''biomass_profile'', []), (''hydro_profile'', []), (''load_profile'', [])]\<rparr>"

text \<open>The profile columns in the order in which the constructor reads them.\<close>

definition required_columns :: "string list" where
  "required_columns =
     [''pv_profile'', ''wind_on_profile'', ''wind_off_profile'', ''biomass_profile'',
      ''hydro_profile'', ''load_profile'']"

text \<open>The model that \<open>main\<close> builds when it is given the profiles of the small scenario.\<close>

definition germany_example :: model where
  "germany_example =
     built_model example_profiles [1, 0] [0, 0] [0, 0] [0, 0] [0, 0] [1 / 2, 1 / 2]
       750000000 215000 115000 30000 5200 2100 25000 4 (9 / 10) 1 100 1000 0"

text \<open>
  A solve that raises: the library call ends in an exception instead of returning a
  status, as it does when the solver cannot be run at all.
\<close>

definition raising_solver :: solver where
  "raising_solver n = Inl (LibraryError ''solver failed'')"

text \<open>
  Modelled from the spec: the objective of section 4.1. Every generator pays its marginal
  cost for each unit dispatched, and an extendable generator pays its capital cost for
  each unit of optimized capacity. The solve itself is library code.
\<close>

definition cost :: "network \<Rightarrow> real" where
  "cost n =
     sum_list (map (\<lambda>g. marginal_cost g
                          * sum_list (map (cell (generators_t_p n) (name g)) (horizon n))
                        + (if p_nom_extendable g then capital_cost g * p_nom_opt g else 0))
                 (generators n))"

text \<open>
  Modelled from the spec: a solution is optimal when no solution of the same problem is
  cheaper; a problem has an optimum when some solution of it is optimal.
\<close>

definition lp_optimal :: "network \<Rightarrow> bool" where
  "lp_optimal n =
     (lp_solution n \<and> (\<forall>n'. same_problem n n' \<and> lp_solution n' \<longrightarrow> cost n \<le> cost n'))"

definition has_optimum :: "network \<Rightarrow> bool" where
  "has_optimum n = (\<exists>n'. same_problem n n' \<and> lp_optimal n')"

text \<open>The same solution with another capacity for the extendable generators.\<close>

definition with_capacity :: "real \<Rightarrow> network \<Rightarrow> network" where
  "with_capacity c n =
     n\<lparr>generators :=
         map (\<lambda>g. if p_nom_extendable g then g\<lparr>p_nom_opt := c\<rparr> else g) (generators n)\<rparr>"

text \<open>
  A point of the linear program of the constructed network: the residual generator
  covers the load alone, with its minimum capacity; the renewables and the battery idle.
\<close>

definition standby_solution :: "network \<Rightarrow> network" where
  "standby_solution n =
     (let zeros = replicate (length (snapshots n)) 0;
          table = (\<lambda>cs. \<lparr>index = snapshots n, index_name = ''snapshot'', columns = cs\<rparr>)
      in n\<lparr>generators :=
             map (\<lambda>g. g\<lparr>p_nom_opt := (if p_nom_extendable g then p_nom_min g else p_nom g)\<rparr>)
               (generators n),
           generators_t_p :=
             table (map (\<lambda>g. (name g, if p_nom_extendable g
                                        then col (loads_t_p_set n) ''load'' else zeros))
                      (generators n)),
           loads_t_p := loads_t_p_set n,
           storage_units_t_p := table (map (\<lambda>s. (su_name s, zeros)) (storage_units n)),
           storage_units_t_p_dispatch :=
             table (map (\<lambda>s. (su_name s, zeros)) (storage_units n)),
           storage_units_t_p_store :=
             table (map (\<lambda>s. (su_name s, zeros)) (storage_units n)),
           storage_units_t_state_of_charge :=
             table (map (\<lambda>s. (su_name s, zeros)) (storage_units n))\<rparr>)"

text \<open>
  A scenario without renewables and without battery, whose minimum residual capacity of
  10 exceeds the load of 5; and the same scenario with a negative capital cost.
\<close>

definition standby_example :: model where
  "standby_example =
     built_model example_profiles [1, 0] [0, 0] [0, 0] [0, 0] [0, 0] [1 / 2, 1 / 2]
       10 0 0 0 0 0 0 4 (9 / 10) 1 100 1000 10"

definition standby_solver :: solver where
  "standby_solver n =
     (if lp_solution (standby_solution n)
      then Inr ((''ok'', ''optimal''), standby_solution n)
      else Inr ((''warning'', ''infeasible''), n))"

definition standby_solved :: model where
  "standby_solved =
     standby_example\<lparr>network := standby_solution (network standby_example),
                     opt_state := Some (''ok'', ''optimal'')\<rparr>"

definition unbounded_example :: model where
  "unbounded_example =
     built_model example_profiles [1, 0] [0, 0] [0, 0] [0, 0] [0, 0] [1 / 2, 1 / 2]
       10 0 0 0 0 0 0 4 (9 / 10) 1 100 (- 1000) 10"

section \<open>The program of the constructed network, over functions of time\<close>

text \<open>
  The network that the constructor builds has five renewable generators, the residual
  generator and one battery on one bus. A solution of its linear program is, at every
  snapshot, nine numbers: the dispatch of the five renewables (rows 0 to 4), the residual
  dispatch (row 5), the battery's discharge and charge (rows 6 and 7) and its state of
  charge (row 8); and one capacity. The definitions below state the same constraints and
  the same objective over such a plan, with the snapshots numbered from zero. They are
  related to \<open>lp_solution\<close> and \<open>cost\<close> by \<open>solution_plan\<close> and \<open>plan_network_solution\<close>.
\<close>

text \<open>The snapshot before \<open>t\<close>, the last one coming before the first.\<close>

definition prev :: "nat \<Rightarrow> nat \<Rightarrow> nat" where
  "prev T t = (if t = 0 then T - 1 else t - 1)"

text \<open>
  Modelled from the spec: the constraints of section 4.1 on a plan \<open>v\<close> with residual
  capacity \<open>c\<close>, for availabilities \<open>a\<close>, loads \<open>L\<close>, battery power \<open>bp\<close>, battery energy \<open>E\<close>,
  efficiencies \<open>ce\<close> and \<open>de\<close>, a share \<open>rho\<close> of the charge kept from one snapshot to the
  next, and minimum capacity \<open>mn\<close>.
\<close>

definition plan_ok ::
  "nat \<Rightarrow> (nat \<Rightarrow> nat \<Rightarrow> real) \<Rightarrow> (nat \<Rightarrow> real) \<Rightarrow> real \<Rightarrow> real \<Rightarrow> real \<Rightarrow> real \<Rightarrow> real \<Rightarrow> real
   \<Rightarrow> (nat \<Rightarrow> nat \<Rightarrow> real) \<Rightarrow> real \<Rightarrow> bool" where
  "plan_ok T a L bp E ce de rho mn v c =
     (mn \<le> c \<and>
      (\<forall>t<T.
         (\<forall>j<5. 0 \<le> v j t \<and> v j t \<le> a j t) \<and>
         0 \<le> v 5 t \<and> v 5 t \<le> c \<and>
         0 \<le> v 6 t \<and> v 6 t \<le> bp \<and>
         0 \<le> v 7 t \<and> v 7 t \<le> bp \<and>
         0 \<le> v 8 t \<and> v 8 t \<le> E \<and>
         v 8 t = v 8 (prev T t) * rho + v 7 t * ce - v 6 t / de \<and>
         v 0 t + v 1 t + v 2 t + v 3 t + v 4 t + v 5 t + (v 6 t - v 7 t) = L t))"

text \<open>
  Modelled from the spec: the objective of section 4.1 on a plan, with the marginal cost
  0.1 that the constructor gives every renewable generator.
\<close>

definition plan_cost :: "nat \<Rightarrow> real \<Rightarrow> real \<Rightarrow> (nat \<Rightarrow> nat \<Rightarrow> real) \<Rightarrow> real \<Rightarrow> real" where
  "plan_cost T mc cc v c =
     (\<Sum>t<T. (v 0 t + v 1 t + v 2 t + v 3 t + v 4 t) / 10 + mc * v 5 t) + cc * c"

text \<open>
  When the residual dispatch of a plan is cut down to the minimum capacity, the battery is
  charged less; \<open>u t\<close> is the charge withheld at snapshot \<open>t\<close> and \<open>e t\<close> the state of charge
  of the plan. \<open>deficit\<close> is how far the state of charge then falls behind, starting from
  a deficit \<open>z\<close> before the first snapshot: it cannot exceed the charge that was there.
\<close>

primrec deficit :: "(nat \<Rightarrow> real) \<Rightarrow> (nat \<Rightarrow> real) \<Rightarrow> real \<Rightarrow> real \<Rightarrow> real \<Rightarrow> nat \<Rightarrow> real" where
  "deficit e u ce rho z 0 = min (e 0) (z * rho + u 0 * ce)"
| "deficit e u ce rho z (Suc t) =
     min (e (Suc t)) (deficit e u ce rho z t * rho + u (Suc t) * ce)"

text \<open>
  The availabilities of the constructed network: installed capacity times profile, for
  the five renewables in the order in which the constructor adds them.
\<close>

definition built_availability ::
  "series \<Rightarrow> series \<Rightarrow> series \<Rightarrow> series \<Rightarrow> series \<Rightarrow> real \<Rightarrow> real \<Rightarrow> real \<Rightarrow> real \<Rightarrow> real
   \<Rightarrow> nat \<Rightarrow> nat \<Rightarrow> real" where
  "built_availability p1 p2 p3 p4 p5 pv won woff bio hyd j t =
     (if j = 0 then pv * p1 ! t
      else if j = 1 then won * p2 ! t
      else if j = 2 then woff * p3 ! t
      else if j = 3 then bio * p4 ! t
      else hyd * p5 ! t)"

text \<open>The plan that the output tables of a network hold.\<close>

definition network_plan :: "network \<Rightarrow> nat \<Rightarrow> nat \<Rightarrow> real" where
  "network_plan n j t =
     (if j = 0 then cell (generators_t_p n) ''pv'' t
      else if j = 1 then cell (generators_t_p n) ''wind_on'' t
      else if j = 2 then cell (generators_t_p n) ''wind_off'' t
      else if j = 3 then cell (generators_t_p n) ''biomass'' t
      else if j = 4 then cell (generators_t_p n) ''hydro'' t
      else if j = 5 then cell (generators_t_p n) ''residual_load'' t
      else if j = 6 then cell (storage_units_t_p_dispatch n) ''batteries'' t
      else if j = 7 then cell (storage_units_t_p_store n) ''batteries'' t
      else cell (storage_units_t_state_of_charge n) ''batteries'' t)"

text \<open>The network with a plan written into its output tables.\<close>

definition plan_network :: "network \<Rightarrow> (nat \<Rightarrow> nat \<Rightarrow> real) \<Rightarrow> real \<Rightarrow> network" where
  "plan_network n v c =
     (let T = length (snapshots n);
          table = (\<lambda>cs. \<lparr>index = snapshots n, index_name = ''snapshot'', columns = cs\<rparr>)
      in n\<lparr>generators :=
             map (\<lambda>g. g\<lparr>p_nom_opt := (if p_nom_extendable g then c else p_nom g)\<rparr>)
               (generators n),
           generators_t_p :=
             table [(''pv'', map (v 0) [0..<T]), (''wind_on'', map (v 1) [0..<T]),
                    (''wind_off'', map (v 2) [0..<T]), (''biomass'', map (v 3) [0..<T]),
                    (''hydro'', map (v 4) [0..<T]), (''residual_load'', map (v 5) [0..<T])],
           loads_t_p := loads_t_p_set n,
           storage_units_t_p := table [(''batteries'', map (\<lambda>t. v 6 t - v 7 t) [0..<T])],
           storage_units_t_p_dispatch := table [(''batteries'', map (v 6) [0..<T])],
           storage_units_t_p_store := table [(''batteries'', map (v 7) [0..<T])],
           storage_units_t_state_of_charge := table [(''batteries'', map (v 8) [0..<T])]\<rparr>)"

text \<open>
  The small scenario with its battery and a minimum residual capacity of 10, above the
  load of 5.
\<close>

definition reserve_example :: model where
  "reserve_example =
     built_model example_profiles [1, 0] [0, 0] [0, 0] [0, 0] [0, 0] [1 / 2, 1 / 2]
       10 8 0 0 0 0 2 4 (9 / 10) 1 100 1000 10"

text \<open>
  The scenario without renewables and without battery once more, with no capital cost:
  capacity is free.
\<close>

definition free_capacity_example :: model where
  "free_capacity_example =
     built_model example_profiles [1, 0] [0, 0] [0, 0] [0, 0] [0, 0] [1 / 2, 1 / 2]
       10 0 0 0 0 0 0 4 (9 / 10) 1 100 0 10"

text \<open>
  A scenario without renewables whose residual generator is paid for every unit it
  dispatches (marginal cost - 2000), with a battery of 100 that loses a tenth of what it
  stores; and a plan for it in which the battery takes 100 and returns 90 at every
  snapshot, so that the residual generator runs at 15, above its minimum capacity of 10.
\<close>

definition dumping_example :: model where
  "dumping_example =
     built_model example_profiles [1, 0] [0, 0] [0, 0] [0, 0] [0, 0] [1 / 2, 1 / 2]
       10 0 0 0 0 0 100 4 (9 / 10) 1 (- 2000) 1000 10"

definition dumping_plan :: "nat \<Rightarrow> nat \<Rightarrow> real" where
  "dumping_plan j t = (if j = 5 then 15 else if j = 6 then 90 else if j = 7 then 100 else 0)"

section \<open>Facts about the constructor\<close>

lemma and_then_Inr: "and_then r f = Inr y \<longleftrightarrow> (\<exists>v. r = Inr v \<and> f v = Inr y)"
  by (cases r) (simp_all add: and_then_def)

lemma and_then_Inr_simp: "and_then (Inr v) f = f v"
  by (simp add: and_then_def)

lemma and_then_Inl_simp: "and_then (Inl e) f = Inl e"
  by (simp add: and_then_def)

lemma Model_init_ok:
  assumes "getitem df ''pv_profile'' = Inr p1" "getitem df ''wind_on_profile'' = Inr p2"
    "getitem df ''wind_off_profile'' = Inr p3" "getitem df ''biomass_profile'' = Inr p4"
    "getitem df ''hydro_profile'' = Inr p5" "getitem df ''load_profile'' = Inr pl"
    "\<not> (r \<and> index df = [])"
  shows "Model_init r df load pv won woff bio hyd bp bd ce de mc cc mn =
           Inr (built_model df p1 p2 p3 p4 p5 pl load pv won woff bio hyd bp bd ce de mc cc mn)"
proof -
  from assms(7) have nr: "(r \<and> index df = []) = False" by simp
  show ?thesis
  by (simp add: Model_init_def setup_network_def set_snapshots_def nr assms(1-6) add_generators_def set_snapshots_def add_generators_def
      add_renewable_def dict_getitem_def and_then_Inr_simp Let_def built_model_def
      built_network_def add_Generator_def add_Load_def add_StorageUnit_def add_Bus_def
      pypsa_Network_def reindex_def empty_table_def setitem_def Generator_def StorageUnit_def)
qed


lemmas init_defs = Model_init_def setup_network_def set_snapshots_def add_generators_def
      add_renewable_def dict_getitem_def and_then_Inr_simp and_then_Inl_simp Let_def built_model_def
      built_network_def add_Generator_def add_Load_def add_StorageUnit_def add_Bus_def
      pypsa_Network_def reindex_def empty_table_def setitem_def Generator_def StorageUnit_def

lemma Model_init_eq:
  "Model_init r df load pv won woff bio hyd bp bd ce de mc cc mn =
     (if r \<and> index df = [] then Inl (ValueError ''Snapshots must not be empty.'')
      else and_then (getitem df ''pv_profile'') (\<lambda>p1.
           and_then (getitem df ''wind_on_profile'') (\<lambda>p2.
           and_then (getitem df ''wind_off_profile'') (\<lambda>p3.
           and_then (getitem df ''biomass_profile'') (\<lambda>p4.
           and_then (getitem df ''hydro_profile'') (\<lambda>p5.
           and_then (getitem df ''load_profile'') (\<lambda>pl.
             Inr (built_model df p1 p2 p3 p4 p5 pl load pv won woff bio hyd bp bd ce de
                    mc cc mn))))))))"
proof (cases "r \<and> index df = []")
  case True
  then show ?thesis by (simp add: init_defs)
next
  case False
  then have nr: "(r \<and> index df = []) = False" by simp
  show ?thesis
  proof (cases "getitem df ''pv_profile''")
    case Inl
    then show ?thesis by (simp add: nr init_defs)
  next
    case p1: Inr
    show ?thesis
    proof (cases "getitem df ''wind_on_profile''")
      case Inl
      then show ?thesis by (simp add: nr p1 init_defs)
    next
      case p2: Inr
      show ?thesis
      proof (cases "getitem df ''wind_off_profile''")
        case Inl
        then show ?thesis by (simp add: nr p1 p2 init_defs)
      next
        case p3: Inr
        show ?thesis
        proof (cases "getitem df ''biomass_profile''")
          case Inl
          then show ?thesis by (simp add: nr p1 p2 p3 init_defs)
        next
          case p4: Inr
          show ?thesis
          proof (cases "getitem df ''hydro_profile''")
            case Inl
            then show ?thesis by (simp add: nr p1 p2 p3 p4 init_defs)
          next
            case p5: Inr
            show ?thesis
            proof (cases "getitem df ''load_profile''")
              case Inl
              then show ?thesis by (simp add: nr p1 p2 p3 p4 p5 init_defs)
            next
              case pl: Inr
              show ?thesis
                using Model_init_ok [OF p1 p2 p3 p4 p5 pl False]
                by (simp add: nr p1 p2 p3 p4 p5 pl and_then_Inr_simp)
            qed
          qed
        qed
      qed
    qed
  qed
qed

lemma Model_init_Inr:
  assumes "Model_init r df load pv won woff bio hyd bp bd ce de mc cc mn = Inr m"
  shows "\<exists>p1 p2 p3 p4 p5 pl.
           getitem df ''pv_profile'' = Inr p1 \<and> getitem df ''wind_on_profile'' = Inr p2 \<and>
           getitem df ''wind_off_profile'' = Inr p3 \<and>
           getitem df ''biomass_profile'' = Inr p4 \<and> getitem df ''hydro_profile'' = Inr p5 \<and>
           getitem df ''load_profile'' = Inr pl \<and> \<not> (r \<and> index df = []) \<and>
           m = built_model df p1 p2 p3 p4 p5 pl load pv won woff bio hyd bp bd ce de mc cc mn"
  using assms unfolding Model_init_eq
  by (auto simp: and_then_Inr split: if_splits)

section \<open>Facts about a solved network\<close>

lemma list_all_horizon: "list_all P (horizon n) \<longleftrightarrow> (\<forall>t<length (snapshots n). P t)"
  by (auto simp: horizon_def list_all_iff)

lemma same_problem_built:
  assumes "same_problem (built_network sns p1 p2 p3 p4 p5 pl load pv won woff bio hyd bp bd ce de mc cc mn) n'"
  shows "\<exists>g1 g2 g3 g4 g5 g6. generators n' = [g1, g2, g3, g4, g5, g6] \<and>
     gen_inputs g1 = (''pv'', ''DE'', pv, False, 0, 1, 1 / 10, 0) \<and>
     gen_inputs g2 = (''wind_on'', ''DE'', won, False, 0, 1, 1 / 10, 0) \<and>
     gen_inputs g3 = (''wind_off'', ''DE'', woff, False, 0, 1, 1 / 10, 0) \<and>
     gen_inputs g4 = (''biomass'', ''DE'', bio, False, 0, 1, 1 / 10, 0) \<and>
     gen_inputs g5 = (''hydro'', ''DE'', hyd, False, 0, 1, 1 / 10, 0) \<and>
     gen_inputs g6 = (''residual_load'', ''DE'', 0, True, mn, 1, mc, cc)"
    and "snapshots n' = sns" and "buses n' = [''DE'']"
    and "generators_t_p_max_pu n' =
           \<lparr>index = sns, index_name = ''snapshot'',
            columns = [(''pv'', p1), (''wind_on'', p2), (''wind_off'', p3),
                       (''biomass'', p4), (''hydro'', p5)]\<rparr>"
    and "loads n' = [\<lparr>load_name = ''load'', load_bus = ''DE''\<rparr>]"
    and "loads_t_p_set n' = \<lparr>index = sns, index_name = ''snapshot'',
                       columns = [(''load'', series_scale pl load)]\<rparr>"
    and "storage_units n' =
           [\<lparr>su_name = ''batteries'', su_bus = ''DE'', su_p_nom = bp, max_hours = bd,
             cyclic_state_of_charge = True, state_of_charge_initial = 0,
             efficiency_store = ce, efficiency_dispatch = de, standing_loss = 1 / 10000\<rparr>]"
  using assms
  by (auto simp: same_problem_def built_network_def map_eq_Cons_conv gen_inputs_def
      Generator_def StorageUnit_def)


lemma optimize_Inr:
  "optimize solve m = Inr (st, m') \<longleftrightarrow>
     (\<exists>n'. solve (network m) = Inr (st, n') \<and> m' = m\<lparr>network := n', opt_state := Some st\<rparr>)"
  by (cases st) (auto simp: optimize_def and_then_Inr)

lemma after_solve:
  assumes "Model_init r df load pv won woff bio hyd bp bd ce de mc cc mn = Inr m"
    and "lp_solver solve" and "optimize solve m = Inr (st, m')" and "fst st = ''ok''"
  shows "\<exists>p1 p2 p3 p4 p5 pl.
           getitem df ''pv_profile'' = Inr p1 \<and> getitem df ''wind_on_profile'' = Inr p2 \<and>
           getitem df ''wind_off_profile'' = Inr p3 \<and>
           getitem df ''biomass_profile'' = Inr p4 \<and> getitem df ''hydro_profile'' = Inr p5 \<and>
           getitem df ''load_profile'' = Inr pl \<and>
           same_problem (built_network (index df) p1 p2 p3 p4 p5 pl load pv won woff bio
                         hyd bp bd ce de mc cc mn) (network m') \<and>
           lp_solution (network m')"
proof -
  from assms(3) obtain n' where s: "solve (network m) = Inr (st, n')" and n': "network m' = n'"
    by (auto simp: optimize_Inr)
  from assms(2) s assms(4) have "same_problem (network m) n' \<and> lp_solution n'"
    unfolding lp_solver_def by metis
  with Model_init_Inr [OF assms(1)] n' show ?thesis by (auto simp: built_model_def)
qed

lemma example_init:
  "Model_init False example_profiles 10 8 0 0 0 0 2 4 (9 / 10) 1 100 1000 0 = Inr example_model"
  by (simp add: Model_init_eq example_profiles_def getitem_def and_then_Inr_simp example_model_def)

lemma example_lp_solver: "lp_solver example_solver"
  by (auto simp: lp_solver_def example_solver_def same_problem_def example_solution_def
      gen_inputs_def split: if_splits)

lemma upt_2: "[0..<2] = [0, 1]"
  by (simp add: upt_rec)

lemma example_lp_solution: "lp_solution (example_solution (network example_model))"
  by (simp add: lp_solution_def example_solution_def example_model_def built_model_def
      example_profiles_def
      built_network_def Generator_def StorageUnit_def generator_ok_def storage_unit_ok_def
      load_ok_def bus_ok_def horizon_def upt_2 has_col_def cell_def col_def gen_cap_def
      gen_p_max_pu_def soc_before_def injection_def withdrawal_def series_scale_def)

lemma example_optimize:
  "optimize example_solver example_model = Inr ((''ok'', ''optimal''), example_solved)"
  by (simp add: optimize_def example_solver_def example_lp_solution and_then_Inr_simp
      example_solved_def)

lemma storage_unit_okD:
  assumes "storage_unit_ok n s" and "t < length (snapshots n)"
  shows "0 \<le> cell (storage_units_t_p_dispatch n) (su_name s) t \<and>
          cell (storage_units_t_p_dispatch n) (su_name s) t \<le> su_p_nom s \<and>
          0 \<le> cell (storage_units_t_p_store n) (su_name s) t \<and>
          cell (storage_units_t_p_store n) (su_name s) t \<le> su_p_nom s \<and>
          cell (storage_units_t_p n) (su_name s) t =
            cell (storage_units_t_p_dispatch n) (su_name s) t
              - cell (storage_units_t_p_store n) (su_name s) t \<and>
          0 \<le> cell (storage_units_t_state_of_charge n) (su_name s) t \<and>
          cell (storage_units_t_state_of_charge n) (su_name s) t \<le> su_p_nom s * max_hours s \<and>
          cell (storage_units_t_state_of_charge n) (su_name s) t =
            soc_before n s t * (1 - standing_loss s)
              + cell (storage_units_t_p_store n) (su_name s) t * efficiency_store s
              - cell (storage_units_t_p_dispatch n) (su_name s) t / efficiency_dispatch s"
  using assms unfolding storage_unit_ok_def list_all_horizon by blast

lemma battery_facts:
  assumes "Model_init r df load pv won woff bio hyd bp bd ce de mc cc mn = Inr m"
    and "lp_solver solve" and "optimize solve m = Inr ((''ok'', c), m')"
    and "t < length (index df)"
  shows "0 \<le> cell (storage_units_t_p_dispatch (network m')) ''batteries'' t"
    and "cell (storage_units_t_p_dispatch (network m')) ''batteries'' t \<le> bp"
    and "0 \<le> cell (storage_units_t_p_store (network m')) ''batteries'' t"
    and "cell (storage_units_t_p_store (network m')) ''batteries'' t \<le> bp"
    and "cell (storage_units_t_p (network m')) ''batteries'' t =
           cell (storage_units_t_p_dispatch (network m')) ''batteries'' t
             - cell (storage_units_t_p_store (network m')) ''batteries'' t"
    and "0 \<le> cell (storage_units_t_state_of_charge (network m')) ''batteries'' t"
    and "cell (storage_units_t_state_of_charge (network m')) ''batteries'' t \<le> bp * bd"
    and "cell (storage_units_t_state_of_charge (network m')) ''batteries'' t =
           cell (storage_units_t_state_of_charge (network m')) ''batteries''
             (if t = 0 then length (index df) - 1 else t - 1) * (1 - 1 / 10000)
           + cell (storage_units_t_p_store (network m')) ''batteries'' t * ce
           - cell (storage_units_t_p_dispatch (network m')) ''batteries'' t / de"
proof -
  let ?s = "\<lparr>su_name = ''batteries'', su_bus = ''DE'', su_p_nom = bp, max_hours = bd,
             cyclic_state_of_charge = True, state_of_charge_initial = 0,
             efficiency_store = ce, efficiency_dispatch = de, standing_loss = 1 / 10000\<rparr>"
  from after_solve [OF assms(1,2,3)] obtain p1 p2 p3 p4 p5 pl where
    sp: "same_problem (built_network (index df) p1 p2 p3 p4 p5 pl load pv won woff bio
                         hyd bp bd ce de mc cc mn) (network m')"
    and lp: "lp_solution (network m')" by auto
  note b = same_problem_built [OF sp]
  note sn = b(2)
  from lp b(7) have ok: "storage_unit_ok (network m')
           \<lparr>su_name = ''batteries'', su_bus = ''DE'', su_p_nom = bp, max_hours = bd,
             cyclic_state_of_charge = True, state_of_charge_initial = 0,
             efficiency_store = ce, efficiency_dispatch = de, standing_loss = 1 / 10000\<rparr>"
    by (simp add: lp_solution_def)
  from assms(4) sn have t: "t < length (snapshots (network m'))" by simp
  note d = storage_unit_okD [OF ok t]
  from d sn show
    "0 \<le> cell (storage_units_t_p_dispatch (network m')) ''batteries'' t"
    "cell (storage_units_t_p_dispatch (network m')) ''batteries'' t \<le> bp"
    "0 \<le> cell (storage_units_t_p_store (network m')) ''batteries'' t"
    "cell (storage_units_t_p_store (network m')) ''batteries'' t \<le> bp"
    "cell (storage_units_t_p (network m')) ''batteries'' t =
           cell (storage_units_t_p_dispatch (network m')) ''batteries'' t
             - cell (storage_units_t_p_store (network m')) ''batteries'' t"
    "0 \<le> cell (storage_units_t_state_of_charge (network m')) ''batteries'' t"
    "cell (storage_units_t_state_of_charge (network m')) ''batteries'' t \<le> bp * bd"
    "cell (storage_units_t_state_of_charge (network m')) ''batteries'' t =
           cell (storage_units_t_state_of_charge (network m')) ''batteries''
             (if t = 0 then length (index df) - 1 else t - 1) * (1 - 1 / 10000)
           + cell (storage_units_t_p_store (network m')) ''batteries'' t * ce
           - cell (storage_units_t_p_dispatch (network m')) ''batteries'' t / de"
    by (simp_all add: soc_before_def)
qed

lemmas example_defs = example_profiles_def example_solved_def example_solution_def
  example_model_def built_model_def built_network_def cell_def col_def series_scale_def
  Generator_def StorageUnit_def

lemma bus_balance:
  assumes "Model_init r df load pv won woff bio hyd bp bd ce de mc cc mn = Inr m"
    and "lp_solver solve" and "optimize solve m = Inr ((''ok'', c), m')"
    and "t < length (index df)"
  shows "cell (generators_t_p (network m')) ''pv'' t
         + cell (generators_t_p (network m')) ''wind_on'' t
         + cell (generators_t_p (network m')) ''wind_off'' t
         + cell (generators_t_p (network m')) ''biomass'' t
         + cell (generators_t_p (network m')) ''hydro'' t
         + cell (generators_t_p (network m')) ''residual_load'' t
         + cell (storage_units_t_p (network m')) ''batteries'' t
         = cell (loads_t_p (network m')) ''load'' t"
proof -
  from after_solve [OF assms(1,2,3)] obtain p1 p2 p3 p4 p5 pl where
    sp: "same_problem (built_network (index df) p1 p2 p3 p4 p5 pl load pv won woff bio
                         hyd bp bd ce de mc cc mn) (network m')"
    and lp: "lp_solution (network m')" by auto
  note b = same_problem_built [OF sp]
  from b(1) obtain g1 g2 g3 g4 g5 g6 where g: "generators (network m') = [g1, g2, g3, g4, g5, g6]"
    "gen_inputs g1 = (''pv'', ''DE'', pv, False, 0, 1, 1 / 10, 0)"
    "gen_inputs g2 = (''wind_on'', ''DE'', won, False, 0, 1, 1 / 10, 0)"
    "gen_inputs g3 = (''wind_off'', ''DE'', woff, False, 0, 1, 1 / 10, 0)"
    "gen_inputs g4 = (''biomass'', ''DE'', bio, False, 0, 1, 1 / 10, 0)"
    "gen_inputs g5 = (''hydro'', ''DE'', hyd, False, 0, 1, 1 / 10, 0)"
    "gen_inputs g6 = (''residual_load'', ''DE'', 0, True, mn, 1, mc, cc)" by blast
  from lp b(3) have "bus_ok (network m') ''DE''" by (simp add: lp_solution_def)
  with assms(4) b(2) have "injection (network m') ''DE'' t = withdrawal (network m') ''DE'' t"
    by (simp add: bus_ok_def list_all_horizon)
  then show ?thesis
    using g by (simp add: injection_def withdrawal_def b(5,7) gen_inputs_def)
qed

lemma map_of_set_col: "map_of (set_col c v cs) k = (if k = c then Some v else map_of cs k)"
  by (induction cs) auto

lemma getitem_setitem:
  "getitem (setitem df c v) k = (if k = c then Inr v else getitem df k)"
  by (simp add: getitem_def setitem_def map_of_set_col)

lemma get_results_eq:
  assumes "generators_t_p_max_pu (network self) =
             \<lparr>index = sns, index_name = ''snapshot'',
              columns = [(''pv'', p1), (''wind_on'', p2), (''wind_off'', p3),
                         (''biomass'', p4), (''hydro'', p5)]\<rparr>"
    and "map (\<lambda>g. (name g, p_nom g)) (generators (network self)) =
           [(''pv'', pv), (''wind_on'', won), (''wind_off'', woff), (''biomass'', bio),
            (''hydro'', hyd), (''residual_load'', 0)]"
    and "getitem (generators_t_p (network self)) ''pv'' = Inr v1"
    and "getitem (generators_t_p (network self)) ''wind_on'' = Inr v2"
    and "getitem (generators_t_p (network self)) ''wind_off'' = Inr v3"
    and "getitem (generators_t_p (network self)) ''biomass'' = Inr v4"
    and "getitem (generators_t_p (network self)) ''hydro'' = Inr v5"
    and "getitem (storage_units_t_p (network self)) ''batteries'' = Inr vb"
    and "getitem (loads_t_p (network self)) ''load'' = Inr vl"
  shows "get_results self =
     Inr (\<lparr>index = sns, index_name = ''time'',
           columns =
             [(''pv'', series_scale p1 pv), (''wind_on'', series_scale p2 won),
              (''wind_off'', series_scale p3 woff), (''biomass'', series_scale p4 bio),
              (''hydro'', series_scale p5 hyd), (''batteries'', vb), (''load'', vl),
              (''curtailed_re'',
                 series_sub
                   (series_add (series_add (series_add (series_add (series_scale p1 pv)
                      (series_scale p2 won)) (series_scale p3 woff)) (series_scale p4 bio))
                      (series_scale p5 hyd))
                   (series_add (series_add (series_add (series_add v1 v2) v3) v4) v5)),
              (''residual_load'',
                 series_sub (series_sub vl
                   (series_add (series_add (series_add (series_add (series_scale p1 pv)
                      (series_scale p2 won)) (series_scale p3 woff)) (series_scale p4 bio))
                      (series_scale p5 hyd))) vb)]\<rparr>,
          self\<lparr>network := (network self)
                 \<lparr>generators_t_p :=
                    setitem (generators_t_p (network self)) ''actual_re_generation''
                      (series_add (series_add (series_add (series_add v1 v2) v3) v4) v5)\<rparr>\<rparr>)"
proof -
  have av: "mul_columns (generators_t_p_max_pu (network self))
              (map (\<lambda>g. (name g, p_nom g)) (generators (network self))) =
            \<lparr>index = sns, index_name = ''snapshot'',
              columns = [(''pv'', series_scale p1 pv), (''wind_on'', series_scale p2 won),
                         (''wind_off'', series_scale p3 woff), (''biomass'', series_scale p4 bio),
                         (''hydro'', series_scale p5 hyd)]\<rparr>"
    unfolding assms(1,2) by (simp add: mul_columns_def)
  show ?thesis
    unfolding get_results_def av Let_def
    by (simp add: getitem_setitem assms(3-9) and_then_Inr_simp)
      (simp add: getitem_def setitem_def DataFrame_def and_then_Inr_simp)
qed

lemma has_col_getitem:
  "has_col df c T \<Longrightarrow> \<exists>v. getitem df c = Inr v \<and> length v = T \<and> col df c = v"
  by (auto simp: has_col_def getitem_def col_def split: option.splits)

lemma frame_ok_getitem:
  "frame_ok df \<Longrightarrow> getitem df c = Inr v \<Longrightarrow> length v = length (index df) \<and> col df c = v"
  by (auto simp: frame_ok_def getitem_def col_def list_all_iff split: option.splits
      dest!: map_of_SomeD)

lemma nth_series_add:
  "t < length a \<Longrightarrow> t < length b \<Longrightarrow> series_add a b ! t = a ! t + b ! t"
  by (simp add: series_add_def)

lemma nth_series_sub:
  "t < length a \<Longrightarrow> t < length b \<Longrightarrow> series_sub a b ! t = a ! t - b ! t"
  by (simp add: series_sub_def)

lemma nth_series_scale: "t < length a \<Longrightarrow> series_scale a k ! t = a ! t * k"
  by (simp add: series_scale_def)

lemma length_series_add: "length (series_add a b) = min (length a) (length b)"
  by (simp add: series_add_def)

lemma length_series_sub: "length (series_sub a b) = min (length a) (length b)"
  by (simp add: series_sub_def)

lemma length_series_scale: "length (series_scale a k) = length a"
  by (simp add: series_scale_def)


lemmas series_nth = nth_series_add nth_series_sub nth_series_scale length_series_add
  length_series_sub length_series_scale

lemma results_of_solved:
  assumes "Model_init r df load pv won woff bio hyd bp bd ce de mc cc mn = Inr m"
    and "lp_solver solve" and "optimize solve m = Inr ((''ok'', c), m')"
    and "frame_ok df"
  shows "\<exists>df_result m''.
     get_results m' = Inr (df_result, m'') \<and>
     m'' = m'\<lparr>network := (network m')
                 \<lparr>generators_t_p :=
                    setitem (generators_t_p (network m')) ''actual_re_generation''
                      (series_add (series_add (series_add (series_add
                         (col (generators_t_p (network m')) ''pv'')
                         (col (generators_t_p (network m')) ''wind_on''))
                         (col (generators_t_p (network m')) ''wind_off''))
                         (col (generators_t_p (network m')) ''biomass''))
                         (col (generators_t_p (network m')) ''hydro''))\<rparr>\<rparr> \<and>
     map fst (columns df_result) =
       [''pv'', ''wind_on'', ''wind_off'', ''biomass'', ''hydro'', ''batteries'', ''load'',
        ''curtailed_re'', ''residual_load''] \<and>
     (\<forall>t<length (index df).
        cell df_result ''pv'' t = cell df ''pv_profile'' t * pv \<and>
        cell df_result ''wind_on'' t = cell df ''wind_on_profile'' t * won \<and>
        cell df_result ''wind_off'' t = cell df ''wind_off_profile'' t * woff \<and>
        cell df_result ''biomass'' t = cell df ''biomass_profile'' t * bio \<and>
        cell df_result ''hydro'' t = cell df ''hydro_profile'' t * hyd \<and>
        cell df_result ''batteries'' t = cell (storage_units_t_p (network m')) ''batteries'' t \<and>
        cell df_result ''load'' t = cell (loads_t_p (network m')) ''load'' t \<and>
        cell df_result ''curtailed_re'' t =
          (cell df ''pv_profile'' t * pv + cell df ''wind_on_profile'' t * won
           + cell df ''wind_off_profile'' t * woff + cell df ''biomass_profile'' t * bio
           + cell df ''hydro_profile'' t * hyd)
          - (cell (generators_t_p (network m')) ''pv'' t
             + cell (generators_t_p (network m')) ''wind_on'' t
             + cell (generators_t_p (network m')) ''wind_off'' t
             + cell (generators_t_p (network m')) ''biomass'' t
             + cell (generators_t_p (network m')) ''hydro'' t) \<and>
        cell df_result ''residual_load'' t =
          cell (loads_t_p (network m')) ''load'' t
          - (cell df ''pv_profile'' t * pv + cell df ''wind_on_profile'' t * won
             + cell df ''wind_off_profile'' t * woff + cell df ''biomass_profile'' t * bio
             + cell df ''hydro_profile'' t * hyd)
          - cell (storage_units_t_p (network m')) ''batteries'' t)"
proof -
  let ?n = "network m'"
  let ?T = "length (index df)"
  from after_solve [OF assms(1,2,3)] obtain p1 p2 p3 p4 p5 pl where
    gi: "getitem df ''pv_profile'' = Inr p1" "getitem df ''wind_on_profile'' = Inr p2"
      "getitem df ''wind_off_profile'' = Inr p3" "getitem df ''biomass_profile'' = Inr p4"
      "getitem df ''hydro_profile'' = Inr p5" and
    sp: "same_problem (built_network (index df) p1 p2 p3 p4 p5 pl load pv won woff bio
                         hyd bp bd ce de mc cc mn) ?n"
    and lp: "lp_solution ?n" by auto
  note b = same_problem_built [OF sp]
  from b(1) obtain g1 g2 g3 g4 g5 g6 where g: "generators ?n = [g1, g2, g3, g4, g5, g6]"
    "gen_inputs g1 = (''pv'', ''DE'', pv, False, 0, 1, 1 / 10, 0)"
    "gen_inputs g2 = (''wind_on'', ''DE'', won, False, 0, 1, 1 / 10, 0)"
    "gen_inputs g3 = (''wind_off'', ''DE'', woff, False, 0, 1, 1 / 10, 0)"
    "gen_inputs g4 = (''biomass'', ''DE'', bio, False, 0, 1, 1 / 10, 0)"
    "gen_inputs g5 = (''hydro'', ''DE'', hyd, False, 0, 1, 1 / 10, 0)"
    "gen_inputs g6 = (''residual_load'', ''DE'', 0, True, mn, 1, mc, cc)" by blast
  have nm: "map (\<lambda>g. (name g, p_nom g)) (generators ?n) =
           [(''pv'', pv), (''wind_on'', won), (''wind_off'', woff), (''biomass'', bio),
            (''hydro'', hyd), (''residual_load'', 0)]"
    using g by (simp add: gen_inputs_def)
  from lp g have hc: "has_col (generators_t_p ?n) ''pv'' ?T"
    "has_col (generators_t_p ?n) ''wind_on'' ?T" "has_col (generators_t_p ?n) ''wind_off'' ?T"
    "has_col (generators_t_p ?n) ''biomass'' ?T" "has_col (generators_t_p ?n) ''hydro'' ?T"
    by (simp_all add: lp_solution_def generator_ok_def gen_inputs_def b(2))
  from lp b(5,7) have hs: "has_col (storage_units_t_p ?n) ''batteries'' ?T"
    "has_col (loads_t_p ?n) ''load'' ?T"
    by (simp_all add: lp_solution_def storage_unit_ok_def load_ok_def b(2))
  from has_col_getitem [OF hc(1)] has_col_getitem [OF hc(2)] has_col_getitem [OF hc(3)]
    has_col_getitem [OF hc(4)] has_col_getitem [OF hc(5)]
  obtain v1 v2 v3 v4 v5 where
    v: "getitem (generators_t_p ?n) ''pv'' = Inr v1"
       "getitem (generators_t_p ?n) ''wind_on'' = Inr v2"
       "getitem (generators_t_p ?n) ''wind_off'' = Inr v3"
       "getitem (generators_t_p ?n) ''biomass'' = Inr v4"
       "getitem (generators_t_p ?n) ''hydro'' = Inr v5" and
    vl: "length v1 = ?T" "length v2 = ?T" "length v3 = ?T" "length v4 = ?T" "length v5 = ?T" and
    vc: "col (generators_t_p ?n) ''pv'' = v1" "col (generators_t_p ?n) ''wind_on'' = v2"
       "col (generators_t_p ?n) ''wind_off'' = v3" "col (generators_t_p ?n) ''biomass'' = v4"
       "col (generators_t_p ?n) ''hydro'' = v5"
    by blast
  from has_col_getitem [OF hs(1)] has_col_getitem [OF hs(2)] obtain vb vl where
    w: "getitem (storage_units_t_p ?n) ''batteries'' = Inr vb"
       "getitem (loads_t_p ?n) ''load'' = Inr vl" and
    wl: "length vb = ?T" "length vl = ?T" and
    wc: "col (storage_units_t_p ?n) ''batteries'' = vb" "col (loads_t_p ?n) ''load'' = vl"
    by blast
  note pf = frame_ok_getitem [OF assms(4) gi(1)] frame_ok_getitem [OF assms(4) gi(2)]
    frame_ok_getitem [OF assms(4) gi(3)] frame_ok_getitem [OF assms(4) gi(4)]
    frame_ok_getitem [OF assms(4) gi(5)]
  note gr = get_results_eq [OF b(4) nm v w]
  let ?A = "series_add (series_add (series_add (series_add (series_scale p1 pv)
              (series_scale p2 won)) (series_scale p3 woff)) (series_scale p4 bio))
              (series_scale p5 hyd)"
  let ?G = "series_add (series_add (series_add (series_add v1 v2) v3) v4) v5"
  let ?tbl = "\<lparr>index = index df, index_name = ''time'',
           columns =
             [(''pv'', series_scale p1 pv), (''wind_on'', series_scale p2 won),
              (''wind_off'', series_scale p3 woff), (''biomass'', series_scale p4 bio),
              (''hydro'', series_scale p5 hyd), (''batteries'', vb), (''load'', vl),
              (''curtailed_re'', series_sub ?A ?G),
              (''residual_load'', series_sub (series_sub vl ?A) vb)]\<rparr>"
  let ?m2 = "m'\<lparr>network := ?n\<lparr>generators_t_p :=
                    setitem (generators_t_p ?n) ''actual_re_generation'' ?G\<rparr>\<rparr>"
  have 1: "get_results m' = Inr (?tbl, ?m2)" by (rule gr)
  have 2: "map fst (columns ?tbl) =
       [''pv'', ''wind_on'', ''wind_off'', ''biomass'', ''hydro'', ''batteries'', ''load'',
        ''curtailed_re'', ''residual_load'']" by simp
  have c: "col ?tbl ''pv'' = series_scale p1 pv" "col ?tbl ''wind_on'' = series_scale p2 won"
    "col ?tbl ''wind_off'' = series_scale p3 woff" "col ?tbl ''biomass'' = series_scale p4 bio"
    "col ?tbl ''hydro'' = series_scale p5 hyd" "col ?tbl ''batteries'' = vb"
    "col ?tbl ''load'' = vl" "col ?tbl ''curtailed_re'' = series_sub ?A ?G"
    "col ?tbl ''residual_load'' = series_sub (series_sub vl ?A) vb"
    by (simp_all add: col_def)
  have 3: "cell ?tbl ''pv'' t = cell df ''pv_profile'' t * pv \<and>
        cell ?tbl ''wind_on'' t = cell df ''wind_on_profile'' t * won \<and>
        cell ?tbl ''wind_off'' t = cell df ''wind_off_profile'' t * woff \<and>
        cell ?tbl ''biomass'' t = cell df ''biomass_profile'' t * bio \<and>
        cell ?tbl ''hydro'' t = cell df ''hydro_profile'' t * hyd \<and>
        cell ?tbl ''batteries'' t = cell (storage_units_t_p ?n) ''batteries'' t \<and>
        cell ?tbl ''load'' t = cell (loads_t_p ?n) ''load'' t \<and>
        cell ?tbl ''curtailed_re'' t =
          (cell df ''pv_profile'' t * pv + cell df ''wind_on_profile'' t * won
           + cell df ''wind_off_profile'' t * woff + cell df ''biomass_profile'' t * bio
           + cell df ''hydro_profile'' t * hyd)
          - (cell (generators_t_p ?n) ''pv'' t
             + cell (generators_t_p ?n) ''wind_on'' t
             + cell (generators_t_p ?n) ''wind_off'' t
             + cell (generators_t_p ?n) ''biomass'' t
             + cell (generators_t_p ?n) ''hydro'' t) \<and>
        cell ?tbl ''residual_load'' t =
          cell (loads_t_p ?n) ''load'' t
          - (cell df ''pv_profile'' t * pv + cell df ''wind_on_profile'' t * won
             + cell df ''wind_off_profile'' t * woff + cell df ''biomass_profile'' t * bio
             + cell df ''hydro_profile'' t * hyd)
          - cell (storage_units_t_p ?n) ''batteries'' t" if "t < ?T" for t
    unfolding cell_def c vc wc using that by (simp add: pf vl wl series_nth)
  have 4: "?m2 = m'\<lparr>network := ?n
                 \<lparr>generators_t_p :=
                    setitem (generators_t_p ?n) ''actual_re_generation''
                      (series_add (series_add (series_add (series_add
                         (col (generators_t_p ?n) ''pv'')
                         (col (generators_t_p ?n) ''wind_on''))
                         (col (generators_t_p ?n) ''wind_off''))
                         (col (generators_t_p ?n) ''biomass''))
                         (col (generators_t_p ?n) ''hydro''))\<rparr>\<rparr>"
    unfolding vc ..
  show ?thesis
    apply (rule exI [of _ ?tbl])
    apply (rule exI [of _ ?m2])
    using 1 2 3 4 by blast
qed


lemma getitem_col: "getitem df c = Inr v \<Longrightarrow> col df c = v"
  by (auto simp: getitem_def col_def split: option.splits)

lemma generator_facts:
  assumes "Model_init r df load pv won woff bio hyd bp bd ce de mc cc mn = Inr m"
    and "lp_solver solve" and "optimize solve m = Inr ((''ok'', c), m')"
  shows "\<exists>cap. p_nom_opt_of (network m') ''residual_load'' = [cap] \<and> mn \<le> cap \<and>
     (\<forall>t<length (index df).
        0 \<le> cell (generators_t_p (network m')) ''pv'' t \<and>
        cell (generators_t_p (network m')) ''pv'' t \<le> pv * cell df ''pv_profile'' t \<and>
        0 \<le> cell (generators_t_p (network m')) ''wind_on'' t \<and>
        cell (generators_t_p (network m')) ''wind_on'' t \<le> won * cell df ''wind_on_profile'' t \<and>
        0 \<le> cell (generators_t_p (network m')) ''wind_off'' t \<and>
        cell (generators_t_p (network m')) ''wind_off'' t
          \<le> woff * cell df ''wind_off_profile'' t \<and>
        0 \<le> cell (generators_t_p (network m')) ''biomass'' t \<and>
        cell (generators_t_p (network m')) ''biomass'' t \<le> bio * cell df ''biomass_profile'' t \<and>
        0 \<le> cell (generators_t_p (network m')) ''hydro'' t \<and>
        cell (generators_t_p (network m')) ''hydro'' t \<le> hyd * cell df ''hydro_profile'' t \<and>
        0 \<le> cell (generators_t_p (network m')) ''residual_load'' t \<and>
        cell (generators_t_p (network m')) ''residual_load'' t \<le> cap)"
proof -
  let ?n = "network m'"
  from after_solve [OF assms(1,2,3)] obtain p1 p2 p3 p4 p5 pl where
    gi: "getitem df ''pv_profile'' = Inr p1" "getitem df ''wind_on_profile'' = Inr p2"
      "getitem df ''wind_off_profile'' = Inr p3" "getitem df ''biomass_profile'' = Inr p4"
      "getitem df ''hydro_profile'' = Inr p5" and
    sp: "same_problem (built_network (index df) p1 p2 p3 p4 p5 pl load pv won woff bio
                         hyd bp bd ce de mc cc mn) ?n"
    and lp: "lp_solution ?n" by auto
  note b = same_problem_built [OF sp]
  from b(1) obtain g1 g2 g3 g4 g5 g6 where g: "generators ?n = [g1, g2, g3, g4, g5, g6]"
    "gen_inputs g1 = (''pv'', ''DE'', pv, False, 0, 1, 1 / 10, 0)"
    "gen_inputs g2 = (''wind_on'', ''DE'', won, False, 0, 1, 1 / 10, 0)"
    "gen_inputs g3 = (''wind_off'', ''DE'', woff, False, 0, 1, 1 / 10, 0)"
    "gen_inputs g4 = (''biomass'', ''DE'', bio, False, 0, 1, 1 / 10, 0)"
    "gen_inputs g5 = (''hydro'', ''DE'', hyd, False, 0, 1, 1 / 10, 0)"
    "gen_inputs g6 = (''residual_load'', ''DE'', 0, True, mn, 1, mc, cc)" by blast
  note cl = getitem_col [OF gi(1)] getitem_col [OF gi(2)] getitem_col [OF gi(3)]
    getitem_col [OF gi(4)] getitem_col [OF gi(5)]
  from lp g(1) have ok: "generator_ok ?n g1" "generator_ok ?n g2" "generator_ok ?n g3"
    "generator_ok ?n g4" "generator_ok ?n g5" "generator_ok ?n g6"
    by (simp_all add: lp_solution_def)
  have 1: "p_nom_opt_of ?n ''residual_load'' = [p_nom_opt g6]"
    using g by (simp add: p_nom_opt_of_def gen_inputs_def)
  have 2: "mn \<le> p_nom_opt g6"
    using ok(6) g(7) by (simp add: generator_ok_def gen_inputs_def)
  have 3: "0 \<le> cell (generators_t_p ?n) ''pv'' t \<and>
        cell (generators_t_p ?n) ''pv'' t \<le> pv * cell df ''pv_profile'' t"
    if "t < length (index df)" for t
    using ok(1) g(2) that
    by (simp add: generator_ok_def gen_inputs_def list_all_horizon b(2,4) gen_cap_def
        gen_p_max_pu_def cell_def cl)
  have 4: "0 \<le> cell (generators_t_p ?n) ''wind_on'' t \<and>
        cell (generators_t_p ?n) ''wind_on'' t \<le> won * cell df ''wind_on_profile'' t"
    if "t < length (index df)" for t
    using ok(2) g(3) that
    by (simp add: generator_ok_def gen_inputs_def list_all_horizon b(2,4) gen_cap_def
        gen_p_max_pu_def cell_def cl)
  have 5: "0 \<le> cell (generators_t_p ?n) ''wind_off'' t \<and>
        cell (generators_t_p ?n) ''wind_off'' t \<le> woff * cell df ''wind_off_profile'' t"
    if "t < length (index df)" for t
    using ok(3) g(4) that
    by (simp add: generator_ok_def gen_inputs_def list_all_horizon b(2,4) gen_cap_def
        gen_p_max_pu_def cell_def cl)
  have 6: "0 \<le> cell (generators_t_p ?n) ''biomass'' t \<and>
        cell (generators_t_p ?n) ''biomass'' t \<le> bio * cell df ''biomass_profile'' t"
    if "t < length (index df)" for t
    using ok(4) g(5) that
    by (simp add: generator_ok_def gen_inputs_def list_all_horizon b(2,4) gen_cap_def
        gen_p_max_pu_def cell_def cl)
  have 7: "0 \<le> cell (generators_t_p ?n) ''hydro'' t \<and>
        cell (generators_t_p ?n) ''hydro'' t \<le> hyd * cell df ''hydro_profile'' t"
    if "t < length (index df)" for t
    using ok(5) g(6) that
    by (simp add: generator_ok_def gen_inputs_def list_all_horizon b(2,4) gen_cap_def
        gen_p_max_pu_def cell_def cl)
  have 8: "0 \<le> cell (generators_t_p ?n) ''residual_load'' t \<and>
        cell (generators_t_p ?n) ''residual_load'' t \<le> p_nom_opt g6"
    if "t < length (index df)" for t
    using ok(6) g(7) that
    by (simp add: generator_ok_def gen_inputs_def list_all_horizon b(2,4) gen_cap_def
        gen_p_max_pu_def cell_def cl)
  show ?thesis
    apply (rule exI [of _ "p_nom_opt g6"])
    using 1 2 3 4 5 6 7 8 by blast
qed

lemma example_frame_ok: "frame_ok example_profiles"
  by (simp add: frame_ok_def example_profiles_def)

lemma example_get_results: "get_results example_solved = Inr (example_result, example_after)"
  by (simp add: get_results_def example_defs mul_columns_def getitem_def setitem_def
      and_then_Inr_simp series_add_def series_sub_def DataFrame_def example_result_def
      example_after_def Let_def)

lemma infeasible_lp_solver: "lp_solver infeasible_solver"
  by (auto simp: lp_solver_def infeasible_solver_def)

lemma get_results_built:
  assumes "network x = built_network sns p1 p2 p3 p4 p5 pl load pv won woff bio hyd bp bd ce de
                         mc cc mn"
  shows "get_results x = Inl (KeyError ''pv'')"
  by (simp add: get_results_def assms built_network_def mul_columns_def Generator_def
      getitem_def empty_table_def and_then_Inr_simp and_then_Inl_simp Let_def)

lemma germany_init:
  "Model_init False example_profiles 750000000 215000 115000 30000 5200 2100 25000 4 (9 / 10) 1
     100 1000 0 = Inr germany_example"
  by (simp add: Model_init_eq example_profiles_def getitem_def and_then_Inr_simp
      germany_example_def)

lemma built_generators:
  assumes "same_problem (built_network sns p1 p2 p3 p4 p5 pl load pv won woff bio hyd bp bd ce de mc cc mn) n'"
  obtains g1 g2 g3 g4 g5 g6 where "generators n' = [g1, g2, g3, g4, g5, g6]"
    "gen_inputs g1 = (''pv'', ''DE'', pv, False, 0, 1, 1 / 10, 0)"
    "gen_inputs g2 = (''wind_on'', ''DE'', won, False, 0, 1, 1 / 10, 0)"
    "gen_inputs g3 = (''wind_off'', ''DE'', woff, False, 0, 1, 1 / 10, 0)"
    "gen_inputs g4 = (''biomass'', ''DE'', bio, False, 0, 1, 1 / 10, 0)"
    "gen_inputs g5 = (''hydro'', ''DE'', hyd, False, 0, 1, 1 / 10, 0)"
    "gen_inputs g6 = (''residual_load'', ''DE'', 0, True, mn, 1, mc, cc)"
  using same_problem_built(1) [OF assms] by blast

lemma with_capacity_built:
  assumes sp: "same_problem (built_network sns p1 p2 p3 p4 p5 pl load pv won woff bio hyd bp bd ce de mc cc mn) n'"
    and lp: "lp_solution n'"
    and c: "mn \<le> c" "\<And>t. t < length sns \<Longrightarrow> cell (generators_t_p n') ''residual_load'' t \<le> c"
    and g: "generators n' = [g1, g2, g3, g4, g5, g6]"
    "gen_inputs g1 = (''pv'', ''DE'', pv, False, 0, 1, 1 / 10, 0)"
    "gen_inputs g2 = (''wind_on'', ''DE'', won, False, 0, 1, 1 / 10, 0)"
    "gen_inputs g3 = (''wind_off'', ''DE'', woff, False, 0, 1, 1 / 10, 0)"
    "gen_inputs g4 = (''biomass'', ''DE'', bio, False, 0, 1, 1 / 10, 0)"
    "gen_inputs g5 = (''hydro'', ''DE'', hyd, False, 0, 1, 1 / 10, 0)"
    "gen_inputs g6 = (''residual_load'', ''DE'', 0, True, mn, 1, mc, cc)"
  shows "same_problem n' (with_capacity c n')"
    and "lp_solution (with_capacity c n')"
    and "cost (with_capacity c n') = cost n' + cc * (c - p_nom_opt g6)"
proof -
  note b = same_problem_built [OF sp]
  have w: "generators (with_capacity c n') = [g1, g2, g3, g4, g5, g6\<lparr>p_nom_opt := c\<rparr>]"
    using g by (simp add: with_capacity_def gen_inputs_def)
  have o: "generators_t_p (with_capacity c n') = generators_t_p n'"
    "generators_t_p_max_pu (with_capacity c n') = generators_t_p_max_pu n'"
    "snapshots (with_capacity c n') = snapshots n'"
    "storage_units (with_capacity c n') = storage_units n'"
    "loads (with_capacity c n') = loads n'" "buses (with_capacity c n') = buses n'"
    "horizon (with_capacity c n') = horizon n'"
    "storage_units_t_p (with_capacity c n') = storage_units_t_p n'"
    "loads_t_p (with_capacity c n') = loads_t_p n'"
    by (simp_all add: with_capacity_def horizon_def)
  show "same_problem n' (with_capacity c n')"
    using g by (simp add: same_problem_def with_capacity_def gen_inputs_def)
  have gk: "generator_ok (with_capacity c n') g = generator_ok n' g" for g
    by (simp add: generator_ok_def o gen_p_max_pu_def)
  have sk: "storage_unit_ok (with_capacity c n') = storage_unit_ok n'"
    by (rule ext) (simp add: storage_unit_ok_def with_capacity_def horizon_def soc_before_def)
  have lk: "load_ok (with_capacity c n') = load_ok n'"
    by (rule ext) (simp add: load_ok_def with_capacity_def horizon_def)
  have bk: "bus_ok (with_capacity c n') = bus_ok n'"
    using g by (intro ext) (simp add: bus_ok_def injection_def withdrawal_def o w gen_inputs_def)
  from lp g(1) have ok6: "generator_ok n' g6" by (simp add: lp_solution_def)
  have "generator_ok n' (g6\<lparr>p_nom_opt := c\<rparr>)"
    using ok6 g(7) c
    by (simp add: generator_ok_def gen_inputs_def gen_cap_def gen_p_max_pu_def b(2,4)
        list_all_horizon)
  with lp show "lp_solution (with_capacity c n')"
    by (simp add: lp_solution_def gk sk lk bk w o g(1))
  show "cost (with_capacity c n') = cost n' + cc * (c - p_nom_opt g6)"
    using g by (simp add: cost_def w o gen_inputs_def algebra_simps)
qed


lemma residual_facts:
  assumes sp: "same_problem (built_network sns p1 p2 p3 p4 p5 pl load pv won woff bio hyd bp bd ce de mc cc mn) n'"
    and lp: "lp_solution n'"
    and g: "generators n' = [g1, g2, g3, g4, g5, g6]"
    "gen_inputs g6 = (''residual_load'', ''DE'', 0, True, mn, 1, mc, cc)"
  shows "mn \<le> p_nom_opt g6"
    and "length (col (generators_t_p n') ''residual_load'') = length sns"
    and "\<And>t. t < length sns \<Longrightarrow> cell (generators_t_p n') ''residual_load'' t \<le> p_nom_opt g6"
proof -
  note b = same_problem_built [OF sp]
  from lp g(1) have ok6: "generator_ok n' g6" by (simp add: lp_solution_def)
  then show "mn \<le> p_nom_opt g6"
    using g(2) by (simp add: generator_ok_def gen_inputs_def)
  from ok6 g(2) have "has_col (generators_t_p n') ''residual_load'' (length sns)"
    by (simp add: generator_ok_def gen_inputs_def b(2))
  from has_col_getitem [OF this]
  show "length (col (generators_t_p n') ''residual_load'') = length sns" by auto
  show "cell (generators_t_p n') ''residual_load'' t \<le> p_nom_opt g6" if "t < length sns" for t
    using ok6 g(2) that
    by (simp add: generator_ok_def gen_inputs_def gen_cap_def gen_p_max_pu_def b(2,4)
        list_all_horizon)
qed

lemma negative_capital_cost_no_optimum:
  assumes sp: "same_problem (built_network sns p1 p2 p3 p4 p5 pl load pv won woff bio hyd bp bd ce de mc cc mn) n'"
    and cc: "cc < 0"
  shows "\<not> lp_optimal n'"
proof
  assume opt: "lp_optimal n'"
  then have lp: "lp_solution n'" by (simp add: lp_optimal_def)
  from built_generators [OF sp] obtain g1 g2 g3 g4 g5 g6 where
    g: "generators n' = [g1, g2, g3, g4, g5, g6]"
    "gen_inputs g1 = (''pv'', ''DE'', pv, False, 0, 1, 1 / 10, 0)"
    "gen_inputs g2 = (''wind_on'', ''DE'', won, False, 0, 1, 1 / 10, 0)"
    "gen_inputs g3 = (''wind_off'', ''DE'', woff, False, 0, 1, 1 / 10, 0)"
    "gen_inputs g4 = (''biomass'', ''DE'', bio, False, 0, 1, 1 / 10, 0)"
    "gen_inputs g5 = (''hydro'', ''DE'', hyd, False, 0, 1, 1 / 10, 0)"
    "gen_inputs g6 = (''residual_load'', ''DE'', 0, True, mn, 1, mc, cc)" .
  note rf = residual_facts [OF sp lp g(1,7)]
  let ?c = "p_nom_opt g6 + 1"
  have c1: "mn \<le> ?c" using rf(1) by simp
  have c2: "cell (generators_t_p n') ''residual_load'' t \<le> ?c" if "t < length sns" for t
    using rf(3) [OF that] by simp
  note w = with_capacity_built [OF sp lp c1 c2 g]
  from opt w(1,2) have "cost n' \<le> cost (with_capacity ?c n')"
    unfolding lp_optimal_def by blast
  with w(3) cc show False by simp
qed

lemma same_problem_trans: "same_problem a b \<Longrightarrow> same_problem b c \<Longrightarrow> same_problem a c"
  by (simp add: same_problem_def)


lemma standby_feasible:
  assumes len: "length p1 = length sns" "length p2 = length sns" "length p3 = length sns"
      "length p4 = length sns" "length p5 = length sns" "length pl = length sns"
    and nn: "0 \<le> bp" "0 \<le> bd"
    and ld: "\<And>t. t < length sns \<Longrightarrow> 0 \<le> pl ! t * load \<and> pl ! t * load \<le> mn"
    and av: "\<And>t. t < length sns \<Longrightarrow>
               0 \<le> pv * p1 ! t \<and> 0 \<le> won * p2 ! t \<and> 0 \<le> woff * p3 ! t \<and>
               0 \<le> bio * p4 ! t \<and> 0 \<le> hyd * p5 ! t"
  shows "same_problem
           (built_network sns p1 p2 p3 p4 p5 pl load pv won woff bio hyd bp bd ce de mc cc mn)
           (standby_solution
              (built_network sns p1 p2 p3 p4 p5 pl load pv won woff bio hyd bp bd ce de mc cc mn))"
    and "lp_solution
           (standby_solution
              (built_network sns p1 p2 p3 p4 p5 pl load pv won woff bio hyd bp bd ce de mc cc mn))"
    and "p_nom_opt_of
           (standby_solution
              (built_network sns p1 p2 p3 p4 p5 pl load pv won woff bio hyd bp bd ce de mc cc mn))
           ''residual_load'' = [mn]"
proof -
  let ?N = "built_network sns p1 p2 p3 p4 p5 pl load pv won woff bio hyd bp bd ce de mc cc mn"
  show "same_problem ?N (standby_solution ?N)"
    by (simp add: same_problem_def standby_solution_def built_network_def gen_inputs_def
        Generator_def Let_def)
  show "p_nom_opt_of (standby_solution ?N) ''residual_load'' = [mn]"
    by (simp add: p_nom_opt_of_def standby_solution_def built_network_def Generator_def Let_def)
  have e: "0 \<le> bp * bd" using nn by simp
  show "lp_solution (standby_solution ?N)"
    using len e nn(1) ld av
    by (simp add: lp_solution_def standby_solution_def built_network_def Generator_def
        StorageUnit_def Let_def generator_ok_def storage_unit_ok_def load_ok_def bus_ok_def
        horizon_def list_all_iff has_col_def cell_def col_def gen_cap_def gen_p_max_pu_def
        soc_before_def injection_def withdrawal_def series_scale_def)
qed


lemma generator_okD:
  assumes "generator_ok n g" and "t < length (snapshots n)"
  shows "0 \<le> cell (generators_t_p n) (name g) t"
    and "cell (generators_t_p n) (name g) t \<le> gen_cap g * gen_p_max_pu n g t"
  using assms unfolding generator_ok_def list_all_horizon by blast+

lemma built_solution_point:
  assumes sp: "same_problem (built_network sns p1 p2 p3 p4 p5 pl load pv won woff bio hyd bp bd ce de mc cc mn) n'"
    and lp: "lp_solution n'" and t: "t < length sns"
  shows "0 \<le> cell (generators_t_p n') ''pv'' t \<and> cell (generators_t_p n') ''pv'' t \<le> pv * p1 ! t"
    and "0 \<le> cell (generators_t_p n') ''wind_on'' t \<and>
         cell (generators_t_p n') ''wind_on'' t \<le> won * p2 ! t"
    and "0 \<le> cell (generators_t_p n') ''wind_off'' t \<and>
         cell (generators_t_p n') ''wind_off'' t \<le> woff * p3 ! t"
    and "0 \<le> cell (generators_t_p n') ''biomass'' t \<and>
         cell (generators_t_p n') ''biomass'' t \<le> bio * p4 ! t"
    and "0 \<le> cell (generators_t_p n') ''hydro'' t \<and>
         cell (generators_t_p n') ''hydro'' t \<le> hyd * p5 ! t"
    and "0 \<le> cell (storage_units_t_p_dispatch n') ''batteries'' t \<and>
         cell (storage_units_t_p_dispatch n') ''batteries'' t \<le> bp \<and>
         0 \<le> cell (storage_units_t_p_store n') ''batteries'' t \<and>
         cell (storage_units_t_p_store n') ''batteries'' t \<le> bp \<and>
         cell (storage_units_t_p n') ''batteries'' t =
           cell (storage_units_t_p_dispatch n') ''batteries'' t
           - cell (storage_units_t_p_store n') ''batteries'' t"
    and "cell (generators_t_p n') ''pv'' t + cell (generators_t_p n') ''wind_on'' t
         + cell (generators_t_p n') ''wind_off'' t + cell (generators_t_p n') ''biomass'' t
         + cell (generators_t_p n') ''hydro'' t + cell (generators_t_p n') ''residual_load'' t
         + cell (storage_units_t_p n') ''batteries'' t
         = cell (loads_t_p n') ''load'' t"
    and "cell (loads_t_p n') ''load'' t = series_scale pl load ! t"
proof -
  note b = same_problem_built [OF sp]
  from built_generators [OF sp] obtain g1 g2 g3 g4 g5 g6 where
    g: "generators n' = [g1, g2, g3, g4, g5, g6]"
    "gen_inputs g1 = (''pv'', ''DE'', pv, False, 0, 1, 1 / 10, 0)"
    "gen_inputs g2 = (''wind_on'', ''DE'', won, False, 0, 1, 1 / 10, 0)"
    "gen_inputs g3 = (''wind_off'', ''DE'', woff, False, 0, 1, 1 / 10, 0)"
    "gen_inputs g4 = (''biomass'', ''DE'', bio, False, 0, 1, 1 / 10, 0)"
    "gen_inputs g5 = (''hydro'', ''DE'', hyd, False, 0, 1, 1 / 10, 0)"
    "gen_inputs g6 = (''residual_load'', ''DE'', 0, True, mn, 1, mc, cc)" .
  from t b(2) have t': "t < length (snapshots n')" by simp
  from lp g(1) have ok: "generator_ok n' g1" "generator_ok n' g2" "generator_ok n' g3"
    "generator_ok n' g4" "generator_ok n' g5"
    by (simp_all add: lp_solution_def)
  show "0 \<le> cell (generators_t_p n') ''pv'' t \<and> cell (generators_t_p n') ''pv'' t \<le> pv * p1 ! t"
    using generator_okD [OF ok(1) t'] g(2)
    by (simp add: gen_inputs_def gen_cap_def gen_p_max_pu_def b(4))
  show "0 \<le> cell (generators_t_p n') ''wind_on'' t \<and>
         cell (generators_t_p n') ''wind_on'' t \<le> won * p2 ! t"
    using generator_okD [OF ok(2) t'] g(3)
    by (simp add: gen_inputs_def gen_cap_def gen_p_max_pu_def b(4))
  show "0 \<le> cell (generators_t_p n') ''wind_off'' t \<and>
         cell (generators_t_p n') ''wind_off'' t \<le> woff * p3 ! t"
    using generator_okD [OF ok(3) t'] g(4)
    by (simp add: gen_inputs_def gen_cap_def gen_p_max_pu_def b(4))
  show "0 \<le> cell (generators_t_p n') ''biomass'' t \<and>
         cell (generators_t_p n') ''biomass'' t \<le> bio * p4 ! t"
    using generator_okD [OF ok(4) t'] g(5)
    by (simp add: gen_inputs_def gen_cap_def gen_p_max_pu_def b(4))
  show "0 \<le> cell (generators_t_p n') ''hydro'' t \<and>
         cell (generators_t_p n') ''hydro'' t \<le> hyd * p5 ! t"
    using generator_okD [OF ok(5) t'] g(6)
    by (simp add: gen_inputs_def gen_cap_def gen_p_max_pu_def b(4))
  from lp b(7) have "storage_unit_ok n'
           \<lparr>su_name = ''batteries'', su_bus = ''DE'', su_p_nom = bp, max_hours = bd,
             cyclic_state_of_charge = True, state_of_charge_initial = 0,
             efficiency_store = ce, efficiency_dispatch = de, standing_loss = 1 / 10000\<rparr>"
    by (simp add: lp_solution_def)
  from storage_unit_okD [OF this t']
  show "0 \<le> cell (storage_units_t_p_dispatch n') ''batteries'' t \<and>
         cell (storage_units_t_p_dispatch n') ''batteries'' t \<le> bp \<and>
         0 \<le> cell (storage_units_t_p_store n') ''batteries'' t \<and>
         cell (storage_units_t_p_store n') ''batteries'' t \<le> bp \<and>
         cell (storage_units_t_p n') ''batteries'' t =
           cell (storage_units_t_p_dispatch n') ''batteries'' t
           - cell (storage_units_t_p_store n') ''batteries'' t"
    by simp
  from lp b(3) have "bus_ok n' ''DE''" by (simp add: lp_solution_def)
  with t' have "injection n' ''DE'' t = withdrawal n' ''DE'' t"
    by (simp add: bus_ok_def list_all_horizon)
  then show "cell (generators_t_p n') ''pv'' t + cell (generators_t_p n') ''wind_on'' t
         + cell (generators_t_p n') ''wind_off'' t + cell (generators_t_p n') ''biomass'' t
         + cell (generators_t_p n') ''hydro'' t + cell (generators_t_p n') ''residual_load'' t
         + cell (storage_units_t_p n') ''batteries'' t
         = cell (loads_t_p n') ''load'' t"
    using g by (simp add: injection_def withdrawal_def b(5,7) gen_inputs_def)
  from lp b(5) have "load_ok n' \<lparr>load_name = ''load'', load_bus = ''DE''\<rparr>"
    by (simp add: lp_solution_def)
  with t' show "cell (loads_t_p n') ''load'' t = series_scale pl load ! t"
    by (simp add: load_ok_def list_all_horizon b(6) cell_def col_def)
qed

lemma standby_init:
  "Model_init False example_profiles 10 0 0 0 0 0 0 4 (9 / 10) 1 100 1000 10 = Inr standby_example"
  by (simp add: Model_init_eq example_profiles_def getitem_def and_then_Inr_simp
      standby_example_def)

lemma unbounded_init:
  "Model_init False example_profiles 10 0 0 0 0 0 0 4 (9 / 10) 1 100 (- 1000) 10
     = Inr unbounded_example"
  by (simp add: Model_init_eq example_profiles_def getitem_def and_then_Inr_simp
      unbounded_example_def)

lemma standby_lp_solver: "lp_solver standby_solver"
  by (auto simp: lp_solver_def standby_solver_def same_problem_def standby_solution_def
      gen_inputs_def Let_def split: if_splits)

lemma standby_network:
  "network standby_example =
     built_network [''t0'', ''t1''] [1, 0] [0, 0] [0, 0] [0, 0] [0, 0] [1 / 2, 1 / 2]
       10 0 0 0 0 0 0 4 (9 / 10) 1 100 1000 10"
  by (simp add: standby_example_def built_model_def example_profiles_def)

lemma standby_example_feasible:
  "same_problem (network standby_example) (standby_solution (network standby_example))"
  "lp_solution (standby_solution (network standby_example))"
  unfolding standby_network
  by (rule standby_feasible; auto simp: less_Suc_eq)+

lemma standby_optimize:
  "optimize standby_solver standby_example = Inr ((''ok'', ''optimal''), standby_solved)"
  by (simp add: optimize_def standby_solver_def standby_example_feasible and_then_Inr_simp
      standby_solved_def)


lemma standby_optimal: "lp_optimal (network standby_solved)"
proof -
  let ?N = "built_network [''t0'', ''t1''] [1, 0] [0, 0] [0, 0] [0, 0] [0, 0] [1 / 2, 1 / 2]
       10 0 0 0 0 0 0 4 (9 / 10) 1 100 1000 10"
  let ?S = "standby_solution ?N"
  have S: "network standby_solved = ?S"
    by (simp add: standby_solved_def standby_network)
  have f: "same_problem ?N ?S" "lp_solution ?S"
    using standby_example_feasible by (simp_all add: standby_network)
  have cS: "cost ?S = 11000"
    by (simp add: cost_def standby_solution_def built_network_def Generator_def Let_def
        horizon_def upt_2 cell_def col_def series_scale_def)
  have "cost ?S \<le> cost n'" if sp': "same_problem ?S n'" and lp: "lp_solution n'" for n'
  proof -
    from f(1) sp' have sp: "same_problem ?N n'" by (rule same_problem_trans)
    from built_generators [OF sp] obtain g1 g2 g3 g4 g5 g6 where
      g: "generators n' = [g1, g2, g3, g4, g5, g6]"
      "gen_inputs g1 = (''pv'', ''DE'', 0, False, 0, 1, 1 / 10, 0)"
      "gen_inputs g2 = (''wind_on'', ''DE'', 0, False, 0, 1, 1 / 10, 0)"
      "gen_inputs g3 = (''wind_off'', ''DE'', 0, False, 0, 1, 1 / 10, 0)"
      "gen_inputs g4 = (''biomass'', ''DE'', 0, False, 0, 1, 1 / 10, 0)"
      "gen_inputs g5 = (''hydro'', ''DE'', 0, False, 0, 1, 1 / 10, 0)"
      "gen_inputs g6 = (''residual_load'', ''DE'', 0, True, 10, 1, 100, 1000)" .
    note rf = residual_facts [OF sp lp g(1,7)]
    have t0: "0 < length [''t0'', ''t1'']" and t1: "Suc 0 < length [''t0'', ''t1'']" by simp_all
    note a = built_solution_point [OF sp lp t0]
    note b = built_solution_point [OF sp lp t1]
    have r0: "cell (generators_t_p n') ''residual_load'' 0 = 5"
      using a by (simp add: series_scale_def)
    have r1: "cell (generators_t_p n') ''residual_load'' (Suc 0) = 5"
      using b by (simp add: series_scale_def)
    have z: "cell (generators_t_p n') ''pv'' 0 = 0" "cell (generators_t_p n') ''pv'' (Suc 0) = 0"
      "cell (generators_t_p n') ''wind_on'' 0 = 0" "cell (generators_t_p n') ''wind_on'' (Suc 0) = 0"
      "cell (generators_t_p n') ''wind_off'' 0 = 0" "cell (generators_t_p n') ''wind_off'' (Suc 0) = 0"
      "cell (generators_t_p n') ''biomass'' 0 = 0" "cell (generators_t_p n') ''biomass'' (Suc 0) = 0"
      "cell (generators_t_p n') ''hydro'' 0 = 0" "cell (generators_t_p n') ''hydro'' (Suc 0) = 0"
      using a(1-5) b(1-5) by simp_all
    have h: "horizon n' = [0, Suc 0]"
      using same_problem_built(2) [OF sp] by (simp add: horizon_def upt_2)
    have "cost n' = 1000 + 1000 * p_nom_opt g6"
      using g by (simp add: cost_def h gen_inputs_def z r0 r1)
    with rf(1) cS show ?thesis by simp
  qed
  with f(2) show ?thesis unfolding S lp_optimal_def by blast
qed

lemma unbounded_no_optimum: "\<not> has_optimum (network unbounded_example)"
proof
  assume "has_optimum (network unbounded_example)"
  then obtain n' where sp: "same_problem (network unbounded_example) n'" and o: "lp_optimal n'"
    by (auto simp: has_optimum_def)
  have "network unbounded_example =
     built_network [''t0'', ''t1''] [1, 0] [0, 0] [0, 0] [0, 0] [0, 0] [1 / 2, 1 / 2]
       10 0 0 0 0 0 0 4 (9 / 10) 1 100 (- 1000) 10"
    by (simp add: unbounded_example_def built_model_def example_profiles_def)
  with sp have "same_problem (built_network [''t0'', ''t1''] [1, 0] [0, 0] [0, 0] [0, 0] [0, 0]
       [1 / 2, 1 / 2] 10 0 0 0 0 0 0 4 (9 / 10) 1 100 (- 1000) 10) n'" by simp
  from negative_capital_cost_no_optimum [OF this] o show False by simp
qed

lemma load_value:
  assumes "Model_init r df load pv won woff bio hyd bp bd ce de mc cc mn = Inr m"
    and "lp_solver solve" and "optimize solve m = Inr ((''ok'', c), m')"
    and "t < length (index df)" and "frame_ok df"
  shows "cell (loads_t_p (network m')) ''load'' t = cell df ''load_profile'' t * load"
proof -
  from after_solve [OF assms(1,2,3)] obtain p1 p2 p3 p4 p5 pl where
    gi: "getitem df ''load_profile'' = Inr pl" and
    sp: "same_problem (built_network (index df) p1 p2 p3 p4 p5 pl load pv won woff bio
                         hyd bp bd ce de mc cc mn) (network m')"
    and lp: "lp_solution (network m')" by auto
  from frame_ok_getitem [OF assms(5) gi] assms(4)
  have "series_scale pl load ! t = cell df ''load_profile'' t * load"
    by (simp add: nth_series_scale cell_def)
  with built_solution_point(8) [OF sp lp assms(4)] show ?thesis by simp
qed

section \<open>The optimum of the constructed program\<close>

text \<open>
  One snapshot of the exchange. A plan dispatches \<open>r\<close> from the residual generator while
  the battery discharges \<open>d\<close> and charges \<open>s\<close>; the charge was \<open>ep\<close> before and is \<open>e\<close> after,
  and the capped plan is \<open>Dp\<close> behind before the snapshot. Capping the residual dispatch at
  \<open>mn\<close> withholds \<open>u\<close> from the battery; what the battery then cannot deliver, \<open>k\<close>, is
  taken from the residual generator instead, and charge and discharge at the same
  snapshot are cancelled against each other (\<open>a\<close>) as far as the cap requires. The new
  dispatch stays within the cap, the battery stays within the bounds of the old plan, and
  the balance and the state-of-charge transition still hold.
\<close>

lemma exchange_step:
  fixes P r d s e ep L mn ce de Dp rho u D k w r' a s' d' :: real
  assumes nn: "0 \<le> P" "0 \<le> r" "0 \<le> d" "0 \<le> s" "0 \<le> e"
    and dyn: "e = ep * rho + s * ce - d / de"
    and bal: "P + r + (d - s) = L"
    and ld: "0 \<le> L" "L \<le> mn"
    and eff: "0 \<le> ce" "0 < de" "ce * de \<le> 1"
    and dp: "0 \<le> Dp" "Dp \<le> ep" and rho: "0 \<le> rho"
    and u: "u = max 0 (r - mn)"
    and D: "D = min e (Dp * rho + u * ce)"
    and k: "k = Dp * rho + u * ce - D"
    and w: "w = r - u + de * k"
    and r': "r' = min mn w"
    and a: "a = (w - r') / (1 - ce * de)"
    and s': "s' = s - u - a"
    and d': "d' = d - de * k - ce * de * a"
  shows "0 \<le> r'" and "r' \<le> mn" and "r' \<le> r - u + de * k"
    and "0 \<le> s'" and "s' \<le> s" and "0 \<le> d'" and "d' \<le> d"
    and "e - D = (ep - Dp) * rho + s' * ce - d' / de"
    and "P + r' + (d' - s') = L"
    and "0 \<le> D" and "D \<le> e" and "0 \<le> k" and "0 \<le> u"
proof -
  have mn0: "0 \<le> mn" using ld by simp
  have u0: "0 \<le> u" and ur: "u \<le> r" and ru: "r - u \<le> mn"
    using u nn(2) mn0 by (simp_all add: max_def)
  have su: "u \<le> s"
  proof (cases "r \<le> mn")
    case True
    then show ?thesis using u nn(4) by (simp add: max_def)
  next
    case False
    then have "u = r - mn" using u by (simp add: max_def)
    with bal nn ld show ?thesis by linarith
  qed
  have uc: "0 \<le> u * ce" using u0 eff(1) by simp
  have dr: "0 \<le> Dp * rho" using dp(1) rho by simp
  show D0: "0 \<le> D" using D nn(5) uc dr by (simp add: min_def)
  show De: "D \<le> e" using D by simp
  show k0: "0 \<le> k" using k D by (simp add: min_def)
  show "0 \<le> u" by (rule u0)
  have K0: "0 \<le> de * k" using k0 eff(2) by simp
  define m where "m = ce * de"
  define sg where "sg = s - u"
  have m0: "0 \<le> m" and m1: "m \<le> 1" using eff by (simp_all add: m_def)
  have sg0: "0 \<le> sg" using su by (simp add: sg_def)
  have w0: "0 \<le> w" using w ur K0 by linarith
  show "0 \<le> r'" using r' mn0 w0 by (simp add: min_def)
  show "r' \<le> mn" using r' by simp
  show "r' \<le> r - u + de * k" using r' w by simp
  define x where "x = w - r'"
  have x0: "0 \<le> x" using r' by (simp add: x_def)
  have xm: "x = max 0 (w - mn)" using r' by (simp add: x_def min_def max_def)
  have key: "\<exists>q. 0 \<le> q \<and> de * k = d - m * sg - q" if "0 < k"
  proof -
    from that k D have "D = e" by (simp add: min_def split: if_splits)
    with k dyn have kk: "k = d / de - ce * sg - rho * (ep - Dp)"
      by (simp add: sg_def algebra_simps)
    have "de * k = de * (d / de - ce * sg - rho * (ep - Dp))"
      by (simp only: kk)
    also have "\<dots> = d - m * sg - de * rho * (ep - Dp)"
      using eff(2) by (simp add: m_def algebra_simps)
    finally have "de * k = d - m * sg - de * rho * (ep - Dp)" .
    moreover have "0 \<le> de * rho * (ep - Dp)" using eff(2) rho dp by simp
    ultimately show ?thesis by blast
  qed
  have msg: "0 \<le> m * sg" "m * sg \<le> sg" "0 \<le> sg - m * sg"
    using m0 m1 sg0 by (simp_all add: mult_left_le_one_le mult.commute)
  have xs: "x \<le> sg - m * sg"
  proof (cases "0 < k")
    case True
    from key [OF True] obtain q where q: "0 \<le> q" "de * k = d - m * sg - q" by blast
    have "w - mn \<le> sg - m * sg" using w q bal nn(1) ld(2) sg_def by linarith
    with msg(3) show ?thesis by (simp add: xm)
  next
    case False
    with k0 have "k = 0" by simp
    then have "w - mn \<le> 0" using w ru by simp
    with msg(3) show ?thesis by (simp add: xm max_def)
  qed
  have am: "a * (1 - m) = x"
  proof (cases "m = 1")
    case True
    with xs x0 have "x = 0" by simp
    then show ?thesis using True by simp
  next
    case False
    then show ?thesis using a by (simp add: x_def m_def)
  qed
  have a0: "0 \<le> a"
    using a x0 m1 by (simp add: x_def [symmetric] m_def [symmetric])
  have asg: "a \<le> sg"
  proof (cases "m = 1")
    case True
    then have "a = 0" using a by (simp add: m_def)
    with sg0 show ?thesis by simp
  next
    case False
    with m1 have p: "0 < 1 - m" by simp
    from xs am have "a * (1 - m) \<le> sg * (1 - m)" by (simp add: algebra_simps)
    with p show ?thesis by simp
  qed
  have ma: "0 \<le> m * a" "m * a \<le> m * sg"
    using m0 a0 asg by (simp_all add: mult_left_mono)
  have d'm: "d' = d - de * k - m * a" using d' by (simp add: m_def)
  show "0 \<le> s'" using s' asg by (simp add: sg_def)
  show "s' \<le> s" using s' a0 u0 by simp
  show "d' \<le> d" using d'm K0 ma(1) by linarith
  show "0 \<le> d'"
  proof (cases "0 < k")
    case True
    from key [OF True] obtain q where q: "0 \<le> q" "de * k = d - m * sg - q" by blast
    with d'm ma(2) show ?thesis by linarith
  next
    case False
    with k0 have k00: "k = 0" by simp
    then have "w - mn \<le> 0" using w ru by simp
    then have "x = 0" by (simp add: xm max_def)
    with am have "a * (1 - m) = 0" by simp
    then have "a = 0 \<or> m = 1" by simp
    then have "m * a = 0 \<or> a = x" using \<open>x = 0\<close> a by (auto simp: m_def)
    with \<open>x = 0\<close> have "m * a = 0" by auto
    with d'm k00 nn(3) show ?thesis by simp
  qed
  have "a * (1 - m) = a - m * a" by (simp add: algebra_simps)
  with am have ax: "a - m * a = x" by simp
  show "P + r' + (d' - s') = L"
    using bal d'm s' ax w x_def by linarith
  have 1: "d' / de = d / de - k - a * ce"
    using eff(2) by (simp add: d' field_simps)
  have 2: "s' * ce = s * ce - u * ce - a * ce"
    by (simp add: s' algebra_simps)
  have 3: "(ep - Dp) * rho = ep * rho - Dp * rho"
    by (simp add: algebra_simps)
  show "e - D = (ep - Dp) * rho + s' * ce - d' / de"
    unfolding 1 2 3 using dyn k by linarith
qed

lemma prev_less: "t < T \<Longrightarrow> prev T t < T"
  by (auto simp: prev_def)

lemma sum_prev: "0 < T \<Longrightarrow> (\<Sum>t<T. f (prev T t)) = (\<Sum>t<T. (f t :: real))"
proof -
  assume "0 < T"
  then obtain n where T: "T = Suc n" by (cases T) auto
  have 0: "prev (Suc n) 0 = n" and 1: "\<And>i. prev (Suc n) (Suc i) = i"
    by (simp_all add: prev_def)
  have "(\<Sum>t<Suc n. f (prev (Suc n) t)) = f (prev (Suc n) 0) + (\<Sum>i<n. f (prev (Suc n) (Suc i)))"
    by (rule sum.lessThan_Suc_shift)
  also have "\<dots> = f n + (\<Sum>i<n. f i)" by (simp only: 0 1)
  also have "\<dots> = (\<Sum>i<Suc n. f i)" by simp
  finally show ?thesis by (simp only: T)
qed

lemma deficit_continuous: "continuous_on A (\<lambda>z. deficit e u ce rho z t)"
  by (induction t) (auto intro!: continuous_intros)

lemma deficit_bounds:
  assumes "\<forall>i\<le>t. 0 \<le> e i \<and> 0 \<le> u i" and "0 \<le> ce" and "0 \<le> rho" and "0 \<le> z"
  shows "0 \<le> deficit e u ce rho z t \<and> deficit e u ce rho z t \<le> e t"
  using assms
proof (induction t)
  case 0
  then show ?case by simp
next
  case (Suc t)
  then have "0 \<le> deficit e u ce rho z t" by simp
  with Suc.prems show ?case by simp
qed

text \<open>
  The state of charge is cyclic, so the deficit before the first snapshot has to be the
  deficit after the last one. The deficit after the last snapshot depends continuously on
  the one assumed before the first and stays below the charge of the plan, so some value
  reproduces itself.
\<close>

lemma deficit_fixed_point:
  assumes T: "0 < T" and nn: "\<forall>t<T. 0 \<le> e t \<and> 0 \<le> u t" and ce: "0 \<le> ce" and rho: "0 \<le> rho"
  shows "\<exists>z. 0 \<le> z \<and> z \<le> e (T - 1) \<and> deficit e u ce rho z (T - 1) = z"
proof -
  let ?f = "\<lambda>z. deficit e u ce rho z (T - 1) - z"
  from T nn have n: "\<forall>i\<le>T - 1. 0 \<le> e i \<and> 0 \<le> u i" by auto
  from T nn have e0: "0 \<le> e (T - 1)" by simp
  have 1: "?f (e (T - 1)) \<le> 0"
    using deficit_bounds [OF n ce rho e0] by simp
  have 2: "0 \<le> ?f 0"
    using deficit_bounds [OF n ce rho order_refl] by simp
  have 3: "continuous_on {0..e (T - 1)} ?f"
    by (intro continuous_intros deficit_continuous)
  from IVT2' [of ?f "e (T - 1)" 0 0, OF 1 2 e0 3] show ?thesis by auto
qed

lemma plan_okD:
  assumes "plan_ok T a L bp E ce de rho mn v c" and "t < T"
  shows "0 \<le> v 5 t" "v 5 t \<le> c" "0 \<le> v 6 t" "v 6 t \<le> bp" "0 \<le> v 7 t" "v 7 t \<le> bp"
    and "0 \<le> v 8 t" "v 8 t \<le> E"
    and "v 8 t = v 8 (prev T t) * rho + v 7 t * ce - v 6 t / de"
    and "v 0 t + v 1 t + v 2 t + v 3 t + v 4 t + v 5 t + (v 6 t - v 7 t) = L t"
  using assms unfolding plan_ok_def by blast+

lemma plan_ok_renewable:
  assumes "plan_ok T a L bp E ce de rho mn v c" and "t < T" and "j < 5"
  shows "0 \<le> v j t" "v j t \<le> a j t"
  using assms unfolding plan_ok_def by blast+

text \<open>
  The exchange: from any plan of the program, with any capacity, there is a plan with the
  minimum capacity, the same renewable dispatch and no more residual energy, provided
  every load lies between zero and the minimum capacity. Around the cycle the battery
  returns at most what was withheld from it, so the residual energy does not grow.
\<close>

lemma plan_exchange:
  assumes ok: "plan_ok T a L bp E ce de rho mn v c"
    and ld: "\<forall>t<T. 0 \<le> L t \<and> L t \<le> mn"
    and eff: "0 \<le> ce" "0 < de" "ce * de \<le> 1" and rho: "0 \<le> rho" "rho \<le> 1"
  shows "\<exists>v'. plan_ok T a L bp E ce de rho mn v' mn \<and> (\<forall>j<5. v' j = v j) \<and>
              (\<Sum>t<T. v' 5 t) \<le> (\<Sum>t<T. v 5 t)"
proof (cases "T = 0")
  case True
  then have "plan_ok T a L bp E ce de rho mn v mn" by (simp add: plan_ok_def)
  with True show ?thesis by auto
next
  case False
  then have T: "0 < T" by simp
  define e where "e = v 8"
  define u where "u = (\<lambda>t. max 0 (v 5 t - mn))"
  have nn: "\<forall>t<T. 0 \<le> e t \<and> 0 \<le> u t"
    using plan_okD(7) [OF ok] by (simp add: e_def u_def)
  from deficit_fixed_point [OF T nn eff(1) rho(1)] obtain z where
    z: "0 \<le> z" "z \<le> e (T - 1)" "deficit e u ce rho z (T - 1) = z" by blast
  define Dl where "Dl = deficit e u ce rho z"
  have Db: "0 \<le> Dl t \<and> Dl t \<le> e t" if "t < T" for t
  proof -
    from that nn have "\<forall>i\<le>t. 0 \<le> e i \<and> 0 \<le> u i" by auto
    from deficit_bounds [OF this eff(1) rho(1) z(1)] show ?thesis by (simp add: Dl_def)
  qed
  have Dr: "Dl t = min (e t) (Dl (prev T t) * rho + u t * ce)" if "t < T" for t
  proof (cases t)
    case 0
    then show ?thesis using z(3) by (simp add: Dl_def prev_def)
  next
    case (Suc i)
    then show ?thesis by (simp add: Dl_def prev_def)
  qed
  define k where "k = (\<lambda>t. Dl (prev T t) * rho + u t * ce - Dl t)"
  define w where "w = (\<lambda>t. v 5 t - u t + de * k t)"
  define r' where "r' = (\<lambda>t. min mn (w t))"
  define aa where "aa = (\<lambda>t. (w t - r' t) / (1 - ce * de))"
  define s' where "s' = (\<lambda>t. v 7 t - u t - aa t)"
  define d' where "d' = (\<lambda>t. v 6 t - de * k t - ce * de * aa t)"
  define v' where "v' = (\<lambda>j t. if j = 5 then r' t else if j = 6 then d' t
                           else if j = 7 then s' t else if j = 8 then e t - Dl t else v j t)"
  have st: "0 \<le> r' t \<and> r' t \<le> mn \<and> r' t \<le> v 5 t - u t + de * k t \<and>
            0 \<le> s' t \<and> s' t \<le> v 7 t \<and> 0 \<le> d' t \<and> d' t \<le> v 6 t \<and>
            e t - Dl t = (e (prev T t) - Dl (prev T t)) * rho + s' t * ce - d' t / de \<and>
            v 0 t + v 1 t + v 2 t + v 3 t + v 4 t + r' t + (d' t - s' t) = L t \<and>
            0 \<le> k t \<and> 0 \<le> u t"
    if t: "t < T" for t
  proof -
    note p = plan_okD [OF ok t]
    from prev_less [OF t] have pt: "prev T t < T" .
    have 1: "0 \<le> v 0 t + v 1 t + v 2 t + v 3 t + v 4 t"
      using plan_ok_renewable(1) [OF ok t, of 0] plan_ok_renewable(1) [OF ok t, of 1]
        plan_ok_renewable(1) [OF ok t, of 2] plan_ok_renewable(1) [OF ok t, of 3]
        plan_ok_renewable(1) [OF ok t, of 4] by simp
    have 2: "e t = e (prev T t) * rho + v 7 t * ce - v 6 t / de"
      unfolding e_def by (rule p(9))
    have 3: "v 0 t + v 1 t + v 2 t + v 3 t + v 4 t + v 5 t + (v 6 t - v 7 t) = L t"
      using p(10) .
    have 4: "0 \<le> e t" using p(7) by (simp add: e_def)
    from ld t have 5: "0 \<le> L t" "L t \<le> mn" by simp_all
    from Db [OF pt] have 6: "0 \<le> Dl (prev T t)" "Dl (prev T t) \<le> e (prev T t)" by simp_all
    note es = exchange_step [OF 1 p(1) p(3) p(5) 4 2 3 5 eff 6 rho(1),
        of "u t" "Dl t" "k t" "w t" "r' t" "aa t" "s' t" "d' t"]
    have q: "u t = max 0 (v 5 t - mn)" "Dl t = min (e t) (Dl (prev T t) * rho + u t * ce)"
      "k t = Dl (prev T t) * rho + u t * ce - Dl t" "w t = v 5 t - u t + de * k t"
      "r' t = min mn (w t)" "aa t = (w t - r' t) / (1 - ce * de)"
      "s' t = v 7 t - u t - aa t" "d' t = v 6 t - de * k t - ce * de * aa t"
      by (simp_all add: u_def Dr [OF t] k_def w_def r'_def aa_def s'_def d'_def)
    from es [OF q] show ?thesis by simp
  qed
  have pt: "(\<forall>j<5. 0 \<le> v' j t \<and> v' j t \<le> a j t) \<and>
         0 \<le> v' 5 t \<and> v' 5 t \<le> mn \<and>
         0 \<le> v' 6 t \<and> v' 6 t \<le> bp \<and>
         0 \<le> v' 7 t \<and> v' 7 t \<le> bp \<and>
         0 \<le> v' 8 t \<and> v' 8 t \<le> E \<and>
         v' 8 t = v' 8 (prev T t) * rho + v' 7 t * ce - v' 6 t / de \<and>
         v' 0 t + v' 1 t + v' 2 t + v' 3 t + v' 4 t + v' 5 t + (v' 6 t - v' 7 t) = L t"
    if t: "t < T" for t
  proof -
    note p = plan_okD [OF ok t]
    note s = st [OF t]
    from plan_ok_renewable [OF ok t] have 1: "\<forall>j<5. 0 \<le> v' j t \<and> v' j t \<le> a j t"
      by (simp add: v'_def)
    have 2: "0 \<le> v' 5 t" "v' 5 t \<le> mn" using s by (simp_all add: v'_def)
    have 3: "0 \<le> v' 6 t" "v' 6 t \<le> bp" using s p(4) by (simp_all add: v'_def)
    have 4: "0 \<le> v' 7 t" "v' 7 t \<le> bp" using s p(6) by (simp_all add: v'_def)
    from Db [OF t] p(8) have 5: "0 \<le> v' 8 t" "v' 8 t \<le> E" by (simp_all add: v'_def e_def)
    from s have 6: "v' 8 t = v' 8 (prev T t) * rho + v' 7 t * ce - v' 6 t / de"
      by (simp add: v'_def)
    from s have 7: "v' 0 t + v' 1 t + v' 2 t + v' 3 t + v' 4 t + v' 5 t + (v' 6 t - v' 7 t) = L t"
      by (simp add: v'_def)
    from 1 2 3 4 5 6 7 show ?thesis by blast
  qed
  have "plan_ok T a L bp E ce de rho mn v' mn"
    unfolding plan_ok_def
  proof (rule conjI)
    show "mn \<le> mn" by simp
    show "\<forall>t<T.
       (\<forall>j<5. 0 \<le> v' j t \<and> v' j t \<le> a j t) \<and>
       0 \<le> v' 5 t \<and> v' 5 t \<le> mn \<and>
       0 \<le> v' 6 t \<and> v' 6 t \<le> bp \<and>
       0 \<le> v' 7 t \<and> v' 7 t \<le> bp \<and>
       0 \<le> v' 8 t \<and> v' 8 t \<le> E \<and>
       v' 8 t = v' 8 (prev T t) * rho + v' 7 t * ce - v' 6 t / de \<and>
       v' 0 t + v' 1 t + v' 2 t + v' 3 t + v' 4 t + v' 5 t + (v' 6 t - v' 7 t) = L t"
      using pt by blast
  qed
  moreover have "\<forall>j<5. v' j = v j" by (auto simp: v'_def)
  moreover have "(\<Sum>t<T. v' 5 t) \<le> (\<Sum>t<T. v 5 t)"
  proof -
    have a: "(\<Sum>t<T. v' 5 t) \<le> (\<Sum>t<T. v 5 t - u t + de * k t)"
      using st by (intro sum_mono) (simp add: v'_def)
    have b: "(\<Sum>t<T. v 5 t - u t + de * k t) = (\<Sum>t<T. v 5 t) - (\<Sum>t<T. u t) + de * (\<Sum>t<T. k t)"
      by (simp add: sum.distrib sum_subtractf sum_distrib_left)
    have "(\<Sum>t<T. k t) = (\<Sum>t<T. Dl (prev T t)) * rho + (\<Sum>t<T. u t) * ce - (\<Sum>t<T. Dl t)"
      by (simp add: k_def sum.distrib sum_subtractf sum_distrib_right)
    also have "(\<Sum>t<T. Dl (prev T t)) = (\<Sum>t<T. Dl t)" by (rule sum_prev [OF T])
    finally have c: "(\<Sum>t<T. k t) = (\<Sum>t<T. u t) * ce - (\<Sum>t<T. Dl t) * (1 - rho)"
      by (simp add: algebra_simps)
    have D0: "0 \<le> (\<Sum>t<T. Dl t)" using Db by (intro sum_nonneg) simp
    have U0: "0 \<le> (\<Sum>t<T. u t)" using nn by (intro sum_nonneg) simp
    from D0 rho(2) have "0 \<le> (\<Sum>t<T. Dl t) * (1 - rho)" by simp
    with c have "(\<Sum>t<T. k t) \<le> (\<Sum>t<T. u t) * ce" by simp
    with eff(2) have "de * (\<Sum>t<T. k t) \<le> de * ((\<Sum>t<T. u t) * ce)"
      by (simp add: mult_left_mono)
    also have "\<dots> = (ce * de) * (\<Sum>t<T. u t)" by simp
    also have "\<dots> \<le> 1 * (\<Sum>t<T. u t)" using eff(3) U0 by (rule mult_right_mono)
    finally have "de * (\<Sum>t<T. k t) \<le> (\<Sum>t<T. u t)" by simp
    with a b show ?thesis by linarith
  qed
  ultimately show ?thesis by blast
qed

text \<open>
  The cheapest plan exists: finitely many bounded numbers per plan, so a sequence of plans
  whose costs approach the infimum has a subsequence that converges in every entry, and
  the constraints and the cost pass to the limit.
\<close>

lemma bounded_subsequence:
  fixes X :: "nat \<Rightarrow> real"
  assumes "\<forall>k. \<bar>X k\<bar> \<le> B"
  shows "\<exists>f l. strict_mono (f :: nat \<Rightarrow> nat) \<and> (\<lambda>k. X (f k)) \<longlonglongrightarrow> l"
proof -
  from seq_monosub [of X] obtain f :: "nat \<Rightarrow> nat" where
    f: "strict_mono f" "monoseq (\<lambda>n. X (f n))" by blast
  have "Bseq X" using assms by (intro BseqI' [of _ B]) simp
  then have "Bseq (\<lambda>n. X (f n))" by (rule Bseq_subseq)
  from Bseq_monoseq_convergent [OF this f(2)] obtain l where "(\<lambda>n. X (f n)) \<longlonglongrightarrow> l"
    by (auto dest: convergentD)
  with f(1) show ?thesis by blast
qed

lemma bounded_subsequence_finite:
  fixes X :: "nat \<Rightarrow> 'a \<Rightarrow> real"
  assumes "finite S" and "\<forall>i\<in>S. \<forall>k. \<bar>X k i\<bar> \<le> B i"
  shows "\<exists>f x. strict_mono (f :: nat \<Rightarrow> nat) \<and> (\<forall>i\<in>S. (\<lambda>k. X (f k) i) \<longlonglongrightarrow> x i)"
  using assms
proof (induction S)
  case empty
  have "strict_mono (\<lambda>n::nat. n)" by (simp add: strict_mono_def)
  then show ?case by blast
next
  case (insert a S)
  then obtain f x where f: "strict_mono (f :: nat \<Rightarrow> nat)"
    and x: "\<forall>i\<in>S. (\<lambda>k. X (f k) i) \<longlonglongrightarrow> x i" by auto
  from insert.prems have "\<forall>k. \<bar>X (f k) a\<bar> \<le> B a" by simp
  from bounded_subsequence [OF this] obtain g l where g: "strict_mono (g :: nat \<Rightarrow> nat)"
    and l: "(\<lambda>k. X (f (g k)) a) \<longlonglongrightarrow> l" by blast
  have 1: "strict_mono (\<lambda>k. f (g k))" using f g by (rule strict_mono_compose)
  have 2: "(\<lambda>k. X (f (g k)) i) \<longlonglongrightarrow> (x(a := l)) i" if "i \<in> insert a S" for i
  proof (cases "i = a")
    case True
    then show ?thesis using l by simp
  next
    case False
    with that x have "(\<lambda>k. X (f k) i) \<longlonglongrightarrow> x i" by simp
    from LIMSEQ_subseq_LIMSEQ [OF this g] False show ?thesis by (simp add: o_def)
  qed
  from 1 2 show ?case by blast
qed

lemma limit_eq:
  fixes A B :: "nat \<Rightarrow> real"
  assumes "\<And>k. A k = B k" and "A \<longlonglongrightarrow> a" and "B \<longlonglongrightarrow> b"
  shows "a = b"
proof -
  from assms(1) have "A = B" by (rule ext)
  with assms(2,3) show ?thesis by (auto intro: LIMSEQ_unique)
qed

lemma limit_ge:
  fixes A :: "nat \<Rightarrow> real"
  assumes "\<And>k. c \<le> A k" and "A \<longlonglongrightarrow> a"
  shows "c \<le> a"
  using assms by (intro LIMSEQ_le_const [OF assms(2)]) auto

lemma limit_le:
  fixes A :: "nat \<Rightarrow> real"
  assumes "\<And>k. A k \<le> c" and "A \<longlonglongrightarrow> a"
  shows "a \<le> c"
  using assms by (intro LIMSEQ_le_const2 [OF assms(2)]) auto

lemma plan_ok_limit:
  assumes ok: "\<And>k. plan_ok T a L bp E ce de rho mn (X k) c"
    and lim: "\<And>j t. j < 9 \<Longrightarrow> t < T \<Longrightarrow> (\<lambda>k. X k j t) \<longlonglongrightarrow> v j t"
  shows "plan_ok T a L bp E ce de rho mn v c"
proof -
  have c: "mn \<le> c" using ok [of 0] by (simp add: plan_ok_def)
  have pt: "(\<forall>j<5. 0 \<le> v j t \<and> v j t \<le> a j t) \<and>
         0 \<le> v 5 t \<and> v 5 t \<le> c \<and>
         0 \<le> v 6 t \<and> v 6 t \<le> bp \<and>
         0 \<le> v 7 t \<and> v 7 t \<le> bp \<and>
         0 \<le> v 8 t \<and> v 8 t \<le> E \<and>
         v 8 t = v 8 (prev T t) * rho + v 7 t * ce - v 6 t / de \<and>
         v 0 t + v 1 t + v 2 t + v 3 t + v 4 t + v 5 t + (v 6 t - v 7 t) = L t"
    if t: "t < T" for t
  proof -
    note p = plan_okD [OF ok t]
    note l = lim [OF _ t]
    have l0: "(\<lambda>k. X k 0 t) \<longlonglongrightarrow> v 0 t" and l1: "(\<lambda>k. X k 1 t) \<longlonglongrightarrow> v 1 t"
      and l2: "(\<lambda>k. X k 2 t) \<longlonglongrightarrow> v 2 t" and l3: "(\<lambda>k. X k 3 t) \<longlonglongrightarrow> v 3 t"
      and l4: "(\<lambda>k. X k 4 t) \<longlonglongrightarrow> v 4 t" and l5: "(\<lambda>k. X k 5 t) \<longlonglongrightarrow> v 5 t"
      and l6: "(\<lambda>k. X k 6 t) \<longlonglongrightarrow> v 6 t" and l7: "(\<lambda>k. X k 7 t) \<longlonglongrightarrow> v 7 t"
      and l8: "(\<lambda>k. X k 8 t) \<longlonglongrightarrow> v 8 t"
      by (rule l, simp)+
    have lp: "(\<lambda>k. X k 8 (prev T t)) \<longlonglongrightarrow> v 8 (prev T t)"
      by (rule lim [OF _ prev_less [OF t]]) simp
    have 1: "\<forall>j<5. 0 \<le> v j t \<and> v j t \<le> a j t"
    proof (intro allI impI conjI)
      fix j :: nat assume j: "j < 5"
      then have lj: "(\<lambda>k. X k j t) \<longlonglongrightarrow> v j t" by (intro l) simp
      show "0 \<le> v j t" using plan_ok_renewable(1) [OF ok t j] lj by (rule limit_ge)
      show "v j t \<le> a j t" using plan_ok_renewable(2) [OF ok t j] lj by (rule limit_le)
    qed
    have 2: "0 \<le> v 5 t" using p(1) l5 by (rule limit_ge)
    have 3: "v 5 t \<le> c" using p(2) l5 by (rule limit_le)
    have 4: "0 \<le> v 6 t" using p(3) l6 by (rule limit_ge)
    have 5: "v 6 t \<le> bp" using p(4) l6 by (rule limit_le)
    have 6: "0 \<le> v 7 t" using p(5) l7 by (rule limit_ge)
    have 7: "v 7 t \<le> bp" using p(6) l7 by (rule limit_le)
    have 8: "0 \<le> v 8 t" using p(7) l8 by (rule limit_ge)
    have 9: "v 8 t \<le> E" using p(8) l8 by (rule limit_le)
    have 10: "v 8 t = v 8 (prev T t) * rho + v 7 t * ce - v 6 t / de"
      using p(9) l8
    proof (rule limit_eq)
      show "(\<lambda>k. X k 8 (prev T t) * rho + X k 7 t * ce - X k 6 t / de)
              \<longlonglongrightarrow> v 8 (prev T t) * rho + v 7 t * ce - v 6 t / de"
        unfolding divide_inverse by (intro tendsto_intros lp l7 l6)
    qed
    have 11: "v 0 t + v 1 t + v 2 t + v 3 t + v 4 t + v 5 t + (v 6 t - v 7 t) = L t"
    proof (rule limit_eq [OF p(10)])
      show "(\<lambda>k. X k 0 t + X k 1 t + X k 2 t + X k 3 t + X k 4 t + X k 5 t
                  + (X k 6 t - X k 7 t))
              \<longlonglongrightarrow> v 0 t + v 1 t + v 2 t + v 3 t + v 4 t + v 5 t + (v 6 t - v 7 t)"
        by (intro tendsto_intros l0 l1 l2 l3 l4 l5 l6 l7)
      show "(\<lambda>k. L t) \<longlonglongrightarrow> L t" by simp
    qed
    from 1 2 3 4 5 6 7 8 9 10 11 show ?thesis by blast
  qed
  show ?thesis unfolding plan_ok_def
  proof (rule conjI)
    show "mn \<le> c" by (rule c)
    show "\<forall>t<T.
       (\<forall>j<5. 0 \<le> v j t \<and> v j t \<le> a j t) \<and>
       0 \<le> v 5 t \<and> v 5 t \<le> c \<and>
       0 \<le> v 6 t \<and> v 6 t \<le> bp \<and>
       0 \<le> v 7 t \<and> v 7 t \<le> bp \<and>
       0 \<le> v 8 t \<and> v 8 t \<le> E \<and>
       v 8 t = v 8 (prev T t) * rho + v 7 t * ce - v 6 t / de \<and>
       v 0 t + v 1 t + v 2 t + v 3 t + v 4 t + v 5 t + (v 6 t - v 7 t) = L t"
      using pt by blast
  qed
qed

lemma plan_cost_limit:
  assumes lim: "\<And>j t. j < 9 \<Longrightarrow> t < T \<Longrightarrow> (\<lambda>k. X k j t) \<longlonglongrightarrow> v j t"
  shows "(\<lambda>k. plan_cost T mc cc (X k) c) \<longlonglongrightarrow> plan_cost T mc cc v c"
  unfolding plan_cost_def
  by (intro tendsto_intros lim) simp_all

lemma plan_cost_lower:
  assumes ok: "plan_ok T a L bp E ce de rho mn v c" and mc: "0 \<le> mc"
  shows "cc * c \<le> plan_cost T mc cc v c"
proof -
  have "0 \<le> (v 0 t + v 1 t + v 2 t + v 3 t + v 4 t) / 10 + mc * v 5 t" if t: "t < T" for t
    using plan_ok_renewable(1) [OF ok t, of 0] plan_ok_renewable(1) [OF ok t, of 1]
      plan_ok_renewable(1) [OF ok t, of 2] plan_ok_renewable(1) [OF ok t, of 3]
      plan_ok_renewable(1) [OF ok t, of 4] plan_okD(1) [OF ok t] mc
    by simp
  then have "0 \<le> (\<Sum>t<T. (v 0 t + v 1 t + v 2 t + v 3 t + v 4 t) / 10 + mc * v 5 t)"
    by (intro sum_nonneg) simp
  then show ?thesis by (simp add: plan_cost_def)
qed

lemma plan_minimum:
  assumes ex: "plan_ok T a L bp E ce de rho mn v0 c" and mc: "0 \<le> mc"
  shows "\<exists>v. plan_ok T a L bp E ce de rho mn v c \<and>
             (\<forall>v'. plan_ok T a L bp E ce de rho mn v' c \<longrightarrow>
                   plan_cost T mc cc v c \<le> plan_cost T mc cc v' c)"
proof -
  let ?F = "{v. plan_ok T a L bp E ce de rho mn v c}"
  let ?C = "\<lambda>v. plan_cost T mc cc v c"
  define m0 where "m0 = Inf (?C ` ?F)"
  have ne: "?C ` ?F \<noteq> {}" using ex by auto
  have bd: "bdd_below (?C ` ?F)"
    by (rule bdd_belowI [of _ "cc * c"]) (auto intro: plan_cost_lower [OF _ mc])
  have "\<exists>v. plan_ok T a L bp E ce de rho mn v c \<and> ?C v < m0 + inverse (real (Suc k))" for k
  proof -
    have "m0 < m0 + inverse (real (Suc k))" by simp
    then have "\<exists>x\<in>?C ` ?F. x < m0 + inverse (real (Suc k))"
      unfolding m0_def cInf_less_iff [OF ne bd] .
    then show ?thesis by auto
  qed
  then have "\<exists>X. \<forall>k. plan_ok T a L bp E ce de rho mn (X k) c \<and>
                  ?C (X k) < m0 + inverse (real (Suc k))"
    by (intro choice) blast
  then obtain X where X: "\<And>k. plan_ok T a L bp E ce de rho mn (X k) c"
    and Xc: "\<And>k. ?C (X k) < m0 + inverse (real (Suc k))" by blast
  define S :: "(nat \<times> nat) set" where "S = {..<9} \<times> {..<T}"
  define Y where "Y = (\<lambda>k (i :: nat \<times> nat). X k (fst i) (snd i))"
  define B where "B = (\<lambda>i :: nat \<times> nat. \<bar>a (fst i) (snd i)\<bar> + \<bar>c\<bar> + \<bar>bp\<bar> + \<bar>E\<bar>)"
  have fin: "finite S" by (simp add: S_def)
  have bnd: "\<forall>i\<in>S. \<forall>k. \<bar>Y k i\<bar> \<le> B i"
  proof (intro ballI allI)
    fix i k assume "i \<in> S"
    then obtain j t where i: "i = (j, t)" and j: "j < 9" and t: "t < T"
      by (cases i) (auto simp: S_def)
    note p = plan_okD [OF X t, of k]
    from j have "j < 5 \<or> j = 5 \<or> j = 6 \<or> j = 7 \<or> j = 8" by arith
    then show "\<bar>Y k i\<bar> \<le> B i"
    proof (elim disjE)
      assume "j < 5"
      from plan_ok_renewable [OF X t this, of k] show ?thesis
        by (simp add: Y_def B_def i)
    next
      assume "j = 5"
      with p(1,2) show ?thesis by (simp add: Y_def B_def i)
    next
      assume "j = 6"
      with p(3,4) show ?thesis by (simp add: Y_def B_def i)
    next
      assume "j = 7"
      with p(5,6) show ?thesis by (simp add: Y_def B_def i)
    next
      assume "j = 8"
      with p(7,8) show ?thesis by (simp add: Y_def B_def i)
    qed
  qed
  from bounded_subsequence_finite [OF fin bnd] obtain f x where
    f: "strict_mono (f :: nat \<Rightarrow> nat)" and x: "\<forall>i\<in>S. (\<lambda>k. Y (f k) i) \<longlonglongrightarrow> x i" by blast
  define v where "v = (\<lambda>j t. x (j, t))"
  have lim: "(\<lambda>k. X (f k) j t) \<longlonglongrightarrow> v j t" if "j < 9" "t < T" for j t
  proof -
    from that have "(j, t) \<in> S" by (simp add: S_def)
    with x have "(\<lambda>k. Y (f k) (j, t)) \<longlonglongrightarrow> x (j, t)" by blast
    then show ?thesis by (simp add: Y_def v_def)
  qed
  have ok: "plan_ok T a L bp E ce de rho mn v c"
    by (rule plan_ok_limit [of T a L bp E ce de rho mn "\<lambda>k. X (f k)" c v]) (rule X, rule lim)
  have cl: "(\<lambda>k. ?C (X (f k))) \<longlonglongrightarrow> ?C v"
    by (rule plan_cost_limit [of T "\<lambda>k. X (f k)" v]) (rule lim)
  have "?C (X (f k)) \<le> m0 + inverse (real (Suc k))" for k
  proof -
    from seq_suble [OF f, of k] have "inverse (real (Suc (f k))) \<le> inverse (real (Suc k))"
      by (simp add: field_simps)
    with Xc [of "f k"] show ?thesis by linarith
  qed
  then have "\<exists>N. \<forall>n\<ge>N. ?C (X (f n)) \<le> m0 + inverse (real (Suc n))" by blast
  from LIMSEQ_le [OF cl LIMSEQ_inverse_real_of_nat_add this] have le: "?C v \<le> m0" .
  have "?C v \<le> ?C v'" if "plan_ok T a L bp E ce de rho mn v' c" for v'
  proof -
    from that have "?C v' \<in> ?C ` ?F" by blast
    from cInf_lower [OF this bd] le show ?thesis by (simp add: m0_def)
  qed
  with ok show ?thesis by blast
qed

text \<open>
  Plans and networks. The output tables of a solution of the constructed network hold a
  plan of the same cost, and a plan written into the tables gives a solution of the same
  cost.
\<close>

lemma sum_list_horizon: "sum_list (map f (horizon n)) = (\<Sum>t<length (snapshots n). f t)"
  by (simp add: horizon_def interv_sum_list_conv_sum_set_nat lessThan_atLeast0)

lemma solution_plan:
  assumes sp: "same_problem (built_network sns p1 p2 p3 p4 p5 pl load pv won woff bio hyd bp bd ce de mc cc mn) n'"
    and lp: "lp_solution n'"
    and g: "generators n' = [g1, g2, g3, g4, g5, g6]"
    "gen_inputs g1 = (''pv'', ''DE'', pv, False, 0, 1, 1 / 10, 0)"
    "gen_inputs g2 = (''wind_on'', ''DE'', won, False, 0, 1, 1 / 10, 0)"
    "gen_inputs g3 = (''wind_off'', ''DE'', woff, False, 0, 1, 1 / 10, 0)"
    "gen_inputs g4 = (''biomass'', ''DE'', bio, False, 0, 1, 1 / 10, 0)"
    "gen_inputs g5 = (''hydro'', ''DE'', hyd, False, 0, 1, 1 / 10, 0)"
    "gen_inputs g6 = (''residual_load'', ''DE'', 0, True, mn, 1, mc, cc)"
  shows "plan_ok (length sns) (built_availability p1 p2 p3 p4 p5 pv won woff bio hyd)
           (\<lambda>t. series_scale pl load ! t) bp (bp * bd) ce de (1 - 1 / 10000) mn
           (network_plan n') (p_nom_opt g6)"
    and "cost n' = plan_cost (length sns) mc cc (network_plan n') (p_nom_opt g6)"
proof -
  note b = same_problem_built [OF sp]
  note rf = residual_facts [OF sp lp g(1,7)]
  let ?s = "\<lparr>su_name = ''batteries'', su_bus = ''DE'', su_p_nom = bp, max_hours = bd,
             cyclic_state_of_charge = True, state_of_charge_initial = 0,
             efficiency_store = ce, efficiency_dispatch = de, standing_loss = 1 / 10000\<rparr>"
  from lp b(7) have sok: "storage_unit_ok n' ?s" by (simp add: lp_solution_def)
  from lp g(1) have ok6: "generator_ok n' g6" by (simp add: lp_solution_def)
  have nm6: "name g6 = ''residual_load''" using g(7) by (simp add: gen_inputs_def)
  let ?v = "network_plan n'"
  have pt: "(\<forall>j<5. 0 \<le> ?v j t \<and> ?v j t \<le> built_availability p1 p2 p3 p4 p5 pv won woff bio hyd j t) \<and>
         0 \<le> ?v 5 t \<and> ?v 5 t \<le> p_nom_opt g6 \<and>
         0 \<le> ?v 6 t \<and> ?v 6 t \<le> bp \<and>
         0 \<le> ?v 7 t \<and> ?v 7 t \<le> bp \<and>
         0 \<le> ?v 8 t \<and> ?v 8 t \<le> bp * bd \<and>
         ?v 8 t = ?v 8 (prev (length sns) t) * (1 - 1 / 10000) + ?v 7 t * ce - ?v 6 t / de \<and>
         ?v 0 t + ?v 1 t + ?v 2 t + ?v 3 t + ?v 4 t + ?v 5 t + (?v 6 t - ?v 7 t)
           = series_scale pl load ! t"
    if t: "t < length sns" for t
  proof -
    note p = built_solution_point [OF sp lp t]
    from t b(2) have t': "t < length (snapshots n')" by simp
    note d = storage_unit_okD [OF sok t']
    have 1: "\<forall>j<5. 0 \<le> ?v j t \<and> ?v j t \<le> built_availability p1 p2 p3 p4 p5 pv won woff bio hyd j t"
    proof (intro allI impI)
      fix j :: nat assume "j < 5"
      then have "j = 0 \<or> j = 1 \<or> j = 2 \<or> j = 3 \<or> j = 4" by arith
      then show "0 \<le> ?v j t \<and> ?v j t \<le> built_availability p1 p2 p3 p4 p5 pv won woff bio hyd j t"
        using p(1-5) by (auto simp: network_plan_def built_availability_def)
    qed
    have 2: "0 \<le> ?v 5 t" using generator_okD(1) [OF ok6 t'] by (simp add: network_plan_def nm6)
    have 3: "?v 5 t \<le> p_nom_opt g6" using rf(3) [OF t] by (simp add: network_plan_def)
    from d have 4: "0 \<le> ?v 6 t" "?v 6 t \<le> bp" "0 \<le> ?v 7 t" "?v 7 t \<le> bp"
      "0 \<le> ?v 8 t" "?v 8 t \<le> bp * bd"
      by (simp_all add: network_plan_def)
    have sb: "soc_before n' ?s t = ?v 8 (prev (length sns) t)"
      by (simp add: soc_before_def prev_def network_plan_def b(2))
    from d have "cell (storage_units_t_state_of_charge n') (su_name ?s) t =
            soc_before n' ?s t * (1 - standing_loss ?s)
              + cell (storage_units_t_p_store n') (su_name ?s) t * efficiency_store ?s
              - cell (storage_units_t_p_dispatch n') (su_name ?s) t / efficiency_dispatch ?s"
      by blast
    then have 5: "?v 8 t = ?v 8 (prev (length sns) t) * (1 - 1 / 10000) + ?v 7 t * ce - ?v 6 t / de"
      unfolding sb by (simp add: network_plan_def)
    from p(6,7,8) have 6: "?v 0 t + ?v 1 t + ?v 2 t + ?v 3 t + ?v 4 t + ?v 5 t + (?v 6 t - ?v 7 t)
           = series_scale pl load ! t"
      by (simp add: network_plan_def)
    from 1 2 3 4 5 6 show ?thesis by blast
  qed
  show "plan_ok (length sns) (built_availability p1 p2 p3 p4 p5 pv won woff bio hyd)
           (\<lambda>t. series_scale pl load ! t) bp (bp * bd) ce de (1 - 1 / 10000) mn
           (network_plan n') (p_nom_opt g6)"
    unfolding plan_ok_def
  proof (rule conjI)
    show "mn \<le> p_nom_opt g6" by (rule rf(1))
    show "\<forall>t<length sns.
       (\<forall>j<5. 0 \<le> ?v j t \<and> ?v j t \<le> built_availability p1 p2 p3 p4 p5 pv won woff bio hyd j t) \<and>
         0 \<le> ?v 5 t \<and> ?v 5 t \<le> p_nom_opt g6 \<and>
         0 \<le> ?v 6 t \<and> ?v 6 t \<le> bp \<and>
         0 \<le> ?v 7 t \<and> ?v 7 t \<le> bp \<and>
         0 \<le> ?v 8 t \<and> ?v 8 t \<le> bp * bd \<and>
         ?v 8 t = ?v 8 (prev (length sns) t) * (1 - 1 / 10000) + ?v 7 t * ce - ?v 6 t / de \<and>
         ?v 0 t + ?v 1 t + ?v 2 t + ?v 3 t + ?v 4 t + ?v 5 t + (?v 6 t - ?v 7 t)
           = series_scale pl load ! t"
      using pt by blast
  qed
  have at: "name g1 = ''pv''" "name g2 = ''wind_on''" "name g3 = ''wind_off''"
    "name g4 = ''biomass''" "name g5 = ''hydro''" "name g6 = ''residual_load''"
    "marginal_cost g1 = 1 / 10" "marginal_cost g2 = 1 / 10" "marginal_cost g3 = 1 / 10"
    "marginal_cost g4 = 1 / 10" "marginal_cost g5 = 1 / 10" "marginal_cost g6 = mc"
    "\<not> p_nom_extendable g1" "\<not> p_nom_extendable g2" "\<not> p_nom_extendable g3"
    "\<not> p_nom_extendable g4" "\<not> p_nom_extendable g5" "p_nom_extendable g6"
    "capital_cost g6 = cc"
    using g(2-7) by (simp_all add: gen_inputs_def)
  have np: "cell (generators_t_p n') ''pv'' = ?v 0" "cell (generators_t_p n') ''wind_on'' = ?v 1"
    "cell (generators_t_p n') ''wind_off'' = ?v 2" "cell (generators_t_p n') ''biomass'' = ?v 3"
    "cell (generators_t_p n') ''hydro'' = ?v 4" "cell (generators_t_p n') ''residual_load'' = ?v 5"
    by (rule ext, simp add: network_plan_def)+
  show "cost n' = plan_cost (length sns) mc cc (network_plan n') (p_nom_opt g6)"
    unfolding cost_def g(1) plan_cost_def
    by (simp add: at np sum_list_horizon b(2) sum.distrib sum_distrib_left sum_divide_distrib
        add_divide_distrib algebra_simps)
qed

lemma sum_nth_map: "(\<Sum>t<T. map f [0..<T] ! t) = (\<Sum>t<T. (f t :: real))"
  by (rule sum.cong) simp_all

lemma storage_unit_okI:
  assumes "has_col (storage_units_t_p n) (su_name s) (length (snapshots n))"
    and "has_col (storage_units_t_p_dispatch n) (su_name s) (length (snapshots n))"
    and "has_col (storage_units_t_p_store n) (su_name s) (length (snapshots n))"
    and "has_col (storage_units_t_state_of_charge n) (su_name s) (length (snapshots n))"
    and "\<And>t. t < length (snapshots n) \<Longrightarrow>
          0 \<le> cell (storage_units_t_p_dispatch n) (su_name s) t \<and>
          cell (storage_units_t_p_dispatch n) (su_name s) t \<le> su_p_nom s \<and>
          0 \<le> cell (storage_units_t_p_store n) (su_name s) t \<and>
          cell (storage_units_t_p_store n) (su_name s) t \<le> su_p_nom s \<and>
          cell (storage_units_t_p n) (su_name s) t =
            cell (storage_units_t_p_dispatch n) (su_name s) t
              - cell (storage_units_t_p_store n) (su_name s) t \<and>
          0 \<le> cell (storage_units_t_state_of_charge n) (su_name s) t \<and>
          cell (storage_units_t_state_of_charge n) (su_name s) t \<le> su_p_nom s * max_hours s \<and>
          cell (storage_units_t_state_of_charge n) (su_name s) t =
            soc_before n s t * (1 - standing_loss s)
              + cell (storage_units_t_p_store n) (su_name s) t * efficiency_store s
              - cell (storage_units_t_p_dispatch n) (su_name s) t / efficiency_dispatch s"
  shows "storage_unit_ok n s"
  using assms unfolding storage_unit_ok_def list_all_horizon by blast

lemma plan_network_solution:
  assumes ok: "plan_ok (length sns) (built_availability p1 p2 p3 p4 p5 pv won woff bio hyd)
           (\<lambda>t. series_scale pl load ! t) bp (bp * bd) ce de (1 - 1 / 10000) mn v c"
    and len: "length pl = length sns"
  shows "same_problem
           (built_network sns p1 p2 p3 p4 p5 pl load pv won woff bio hyd bp bd ce de mc cc mn)
           (plan_network
              (built_network sns p1 p2 p3 p4 p5 pl load pv won woff bio hyd bp bd ce de mc cc mn)
              v c)"
    and "lp_solution
           (plan_network
              (built_network sns p1 p2 p3 p4 p5 pl load pv won woff bio hyd bp bd ce de mc cc mn)
              v c)"
    and "cost
           (plan_network
              (built_network sns p1 p2 p3 p4 p5 pl load pv won woff bio hyd bp bd ce de mc cc mn)
              v c) = plan_cost (length sns) mc cc v c"
    and "p_nom_opt_of
           (plan_network
              (built_network sns p1 p2 p3 p4 p5 pl load pv won woff bio hyd bp bd ce de mc cc mn)
              v c) ''residual_load'' = [c]"
proof -
  let ?N = "built_network sns p1 p2 p3 p4 p5 pl load pv won woff bio hyd bp bd ce de mc cc mn"
  let ?P = "plan_network ?N v c"
  let ?s = "\<lparr>su_name = ''batteries'', su_bus = ''DE'', su_p_nom = bp, max_hours = bd,
             cyclic_state_of_charge = True, state_of_charge_initial = 0,
             efficiency_store = ce, efficiency_dispatch = de, standing_loss = 1 / 10000\<rparr>"
  show "same_problem ?N ?P"
    by (simp add: same_problem_def plan_network_def built_network_def gen_inputs_def
        Generator_def Let_def)
  show "p_nom_opt_of ?P ''residual_load'' = [c]"
    by (simp add: p_nom_opt_of_def plan_network_def built_network_def Generator_def Let_def)
  have sn: "snapshots ?P = sns" "storage_units ?P = [?s]" "buses ?P = [''DE'']"
    "loads ?P = [\<lparr>load_name = ''load'', load_bus = ''DE''\<rparr>]"
    by (simp_all add: plan_network_def built_network_def Let_def StorageUnit_def)
  have mnc: "mn \<le> c" using ok by (simp add: plan_ok_def)
  have ren: "0 \<le> v 0 t \<and> v 0 t \<le> pv * p1 ! t" "0 \<le> v 1 t \<and> v 1 t \<le> won * p2 ! t"
    "0 \<le> v 2 t \<and> v 2 t \<le> woff * p3 ! t" "0 \<le> v 3 t \<and> v 3 t \<le> bio * p4 ! t"
    "0 \<le> v 4 t \<and> v 4 t \<le> hyd * p5 ! t" "0 \<le> v 5 t \<and> v 5 t \<le> c"
    if "t < length sns" for t
    using plan_ok_renewable [OF ok that, of 0] plan_ok_renewable [OF ok that, of 1]
      plan_ok_renewable [OF ok that, of 2] plan_ok_renewable [OF ok that, of 3]
      plan_ok_renewable [OF ok that, of 4] plan_okD(1,2) [OF ok that]
    by (simp_all add: built_availability_def)
  have gens: "list_all (generator_ok ?P) (generators ?P)"
    using ren mnc
    by (simp add: plan_network_def built_network_def Generator_def Let_def generator_ok_def
        horizon_def list_all_iff has_col_def cell_def col_def gen_cap_def gen_p_max_pu_def)
  have sok: "storage_unit_ok ?P ?s"
  proof (rule storage_unit_okI)
    show "has_col (storage_units_t_p ?P) (su_name ?s) (length (snapshots ?P))"
      "has_col (storage_units_t_p_dispatch ?P) (su_name ?s) (length (snapshots ?P))"
      "has_col (storage_units_t_p_store ?P) (su_name ?s) (length (snapshots ?P))"
      "has_col (storage_units_t_state_of_charge ?P) (su_name ?s) (length (snapshots ?P))"
      by (simp_all add: plan_network_def built_network_def Let_def has_col_def)
  next
    fix t assume "t < length (snapshots ?P)"
    then have t: "t < length sns" by (simp add: sn)
    from prev_less [OF t] have pt: "prev (length sns) t < length sns" .
    have cells: "cell (storage_units_t_p_dispatch ?P) (su_name ?s) t = v 6 t"
      "cell (storage_units_t_p_store ?P) (su_name ?s) t = v 7 t"
      "cell (storage_units_t_p ?P) (su_name ?s) t = v 6 t - v 7 t"
      "cell (storage_units_t_state_of_charge ?P) (su_name ?s) t = v 8 t"
      using t by (simp_all add: plan_network_def built_network_def Let_def cell_def col_def)
    have sb: "soc_before ?P ?s t = v 8 (prev (length sns) t)"
      using t pt
      by (auto simp: soc_before_def prev_def plan_network_def built_network_def Let_def
          cell_def col_def)
    have sel: "su_p_nom ?s = bp" "max_hours ?s = bd" "standing_loss ?s = 1 / 10000"
      "efficiency_store ?s = ce" "efficiency_dispatch ?s = de"
      by simp_all
    have tgt: "0 \<le> v 6 t \<and> v 6 t \<le> bp \<and> 0 \<le> v 7 t \<and> v 7 t \<le> bp \<and>
       v 6 t - v 7 t = v 6 t - v 7 t \<and> 0 \<le> v 8 t \<and> v 8 t \<le> bp * bd \<and>
       v 8 t = v 8 (prev (length sns) t) * (1 - 1 / 10000) + v 7 t * ce - v 6 t / de"
      using plan_okD [OF ok t] by blast
    show "0 \<le> cell (storage_units_t_p_dispatch ?P) (su_name ?s) t \<and>
          cell (storage_units_t_p_dispatch ?P) (su_name ?s) t \<le> su_p_nom ?s \<and>
          0 \<le> cell (storage_units_t_p_store ?P) (su_name ?s) t \<and>
          cell (storage_units_t_p_store ?P) (su_name ?s) t \<le> su_p_nom ?s \<and>
          cell (storage_units_t_p ?P) (su_name ?s) t =
            cell (storage_units_t_p_dispatch ?P) (su_name ?s) t
              - cell (storage_units_t_p_store ?P) (su_name ?s) t \<and>
          0 \<le> cell (storage_units_t_state_of_charge ?P) (su_name ?s) t \<and>
          cell (storage_units_t_state_of_charge ?P) (su_name ?s) t \<le> su_p_nom ?s * max_hours ?s \<and>
          cell (storage_units_t_state_of_charge ?P) (su_name ?s) t =
            soc_before ?P ?s t * (1 - standing_loss ?s)
              + cell (storage_units_t_p_store ?P) (su_name ?s) t * efficiency_store ?s
              - cell (storage_units_t_p_dispatch ?P) (su_name ?s) t / efficiency_dispatch ?s"
      unfolding cells sb sel by (rule tgt)
  qed
  have lok: "load_ok ?P \<lparr>load_name = ''load'', load_bus = ''DE''\<rparr>"
    using len
    by (simp add: load_ok_def plan_network_def built_network_def Let_def has_col_def
        series_scale_def list_all_iff)
  have bok: "bus_ok ?P ''DE''"
    unfolding bus_ok_def list_all_horizon
  proof (intro allI impI)
    fix t assume "t < length (snapshots ?P)"
    then have t: "t < length sns" by (simp add: sn)
    from plan_okD(10) [OF ok t] t show "injection ?P ''DE'' t = withdrawal ?P ''DE'' t"
      by (simp add: injection_def withdrawal_def plan_network_def built_network_def Let_def
          Generator_def StorageUnit_def cell_def col_def)
  qed
  from gens sok lok bok show "lp_solution ?P"
    by (simp add: lp_solution_def sn)
  have gp: "generators ?P =
     [(Generator ''pv'')\<lparr>bus := ''DE'', p_nom := pv, marginal_cost := 1 / 10, p_nom_opt := pv\<rparr>,
      (Generator ''wind_on'')\<lparr>bus := ''DE'', p_nom := won, marginal_cost := 1 / 10, p_nom_opt := won\<rparr>,
      (Generator ''wind_off'')\<lparr>bus := ''DE'', p_nom := woff, marginal_cost := 1 / 10, p_nom_opt := woff\<rparr>,
      (Generator ''biomass'')\<lparr>bus := ''DE'', p_nom := bio, marginal_cost := 1 / 10, p_nom_opt := bio\<rparr>,
      (Generator ''hydro'')\<lparr>bus := ''DE'', p_nom := hyd, marginal_cost := 1 / 10, p_nom_opt := hyd\<rparr>,
      (Generator ''residual_load'')\<lparr>bus := ''DE'', marginal_cost := mc, capital_cost := cc,
            p_nom_min := mn, p_nom_extendable := True, p_nom_opt := c\<rparr>]"
    by (simp add: plan_network_def built_network_def Let_def Generator_def)
  have cs: "(\<Sum>t<length sns. cell (generators_t_p ?P) ''pv'' t) = (\<Sum>t<length sns. v 0 t)"
    "(\<Sum>t<length sns. cell (generators_t_p ?P) ''wind_on'' t) = (\<Sum>t<length sns. v 1 t)"
    "(\<Sum>t<length sns. cell (generators_t_p ?P) ''wind_off'' t) = (\<Sum>t<length sns. v 2 t)"
    "(\<Sum>t<length sns. cell (generators_t_p ?P) ''biomass'' t) = (\<Sum>t<length sns. v 3 t)"
    "(\<Sum>t<length sns. cell (generators_t_p ?P) ''hydro'' t) = (\<Sum>t<length sns. v 4 t)"
    "(\<Sum>t<length sns. cell (generators_t_p ?P) ''residual_load'' t) = (\<Sum>t<length sns. v 5 t)"
    by (simp_all add: plan_network_def built_network_def Let_def cell_def col_def sum_nth_map)
  have "cost ?P = (\<Sum>t<length sns. v 0 t) / 10 + (\<Sum>t<length sns. v 1 t) / 10
                  + (\<Sum>t<length sns. v 2 t) / 10 + (\<Sum>t<length sns. v 3 t) / 10
                  + (\<Sum>t<length sns. v 4 t) / 10 + mc * (\<Sum>t<length sns. v 5 t) + cc * c"
    unfolding cost_def gp by (simp add: Generator_def sum_list_horizon sn cs)
  also have "\<dots> = plan_cost (length sns) mc cc v c"
    unfolding plan_cost_def
    by (simp add: sum.distrib sum_distrib_left sum_divide_distrib add_divide_distrib
        algebra_simps)
  finally show "cost ?P = plan_cost (length sns) mc cc v c" .
qed

lemma plan_cost_split:
  "plan_cost T mc cc v c =
     (\<Sum>t<T. (v 0 t + v 1 t + v 2 t + v 3 t + v 4 t) / 10) + mc * (\<Sum>t<T. v 5 t) + cc * c"
  by (simp add: plan_cost_def sum.distrib sum_distrib_left)

lemma standby_plan:
  assumes ld: "\<forall>t<T. 0 \<le> L t \<and> L t \<le> mn"
    and av: "\<forall>t<T. \<forall>j<5. 0 \<le> a j t" and nn: "0 \<le> bp" "0 \<le> E"
  shows "plan_ok T a L bp E ce de rho mn (\<lambda>j t. if j = 5 then L t else 0) mn"
  using assms by (simp add: plan_ok_def)

text \<open>
  With a marginal cost that is not negative, the cheapest plan of minimum capacity is
  cheaper than any plan of capacity \<open>c'\<close> by at least the capital cost of the excess
  capacity.
\<close>

lemma plan_optimum:
  assumes ld: "\<forall>t<T. 0 \<le> L t \<and> L t \<le> mn"
    and av: "\<forall>t<T. \<forall>j<5. 0 \<le> a j t" and nn: "0 \<le> bp" "0 \<le> E"
    and eff: "0 \<le> ce" "0 < de" "ce * de \<le> 1" and rho: "0 \<le> rho" "rho \<le> 1"
    and mc: "0 \<le> mc"
  shows "\<exists>v. plan_ok T a L bp E ce de rho mn v mn \<and>
             (\<forall>v' c'. plan_ok T a L bp E ce de rho mn v' c' \<longrightarrow>
                plan_cost T mc cc v mn + cc * (c' - mn) \<le> plan_cost T mc cc v' c')"
proof -
  from plan_minimum [OF standby_plan [OF ld av nn] mc, of ce de rho cc] obtain v where
    v: "plan_ok T a L bp E ce de rho mn v mn"
    and m: "\<And>v'. plan_ok T a L bp E ce de rho mn v' mn \<Longrightarrow>
                 plan_cost T mc cc v mn \<le> plan_cost T mc cc v' mn" by blast
  have "plan_cost T mc cc v mn + cc * (c' - mn) \<le> plan_cost T mc cc v' c'"
    if ok: "plan_ok T a L bp E ce de rho mn v' c'" for v' c'
  proof -
    from plan_exchange [OF ok ld eff rho] obtain w where
      w: "plan_ok T a L bp E ce de rho mn w mn" "\<forall>j<5. w j = v' j"
      "(\<Sum>t<T. w 5 t) \<le> (\<Sum>t<T. v' 5 t)" by blast
    from w(2) have e: "w 0 = v' 0" "w (Suc 0) = v' (Suc 0)" "w 2 = v' 2" "w 3 = v' 3"
      "w 4 = v' 4"
      by simp_all
    from w(3) mc have "mc * (\<Sum>t<T. w 5 t) \<le> mc * (\<Sum>t<T. v' 5 t)"
      by (rule mult_left_mono)
    then have "plan_cost T mc cc w mn + cc * (c' - mn) \<le> plan_cost T mc cc v' c'"
      by (simp add: plan_cost_split e algebra_simps)
    with m [OF w(1)] show ?thesis by linarith
  qed
  with v show ?thesis by blast
qed

lemma same_problem_sym: "same_problem a b \<Longrightarrow> same_problem b a"
  by (simp add: same_problem_def)

text \<open>
  Hence the constructed program has an optimal solution with the minimum capacity when
  the capital cost is not negative, and every optimal solution has the minimum capacity
  when the capital cost is positive.
\<close>

lemma minimum_capacity_optimum:
  assumes len: "length pl = length sns"
    and ld: "\<And>t. t < length sns \<Longrightarrow> 0 \<le> pl ! t * load \<and> pl ! t * load \<le> mn"
    and av: "\<And>t. t < length sns \<Longrightarrow>
               0 \<le> pv * p1 ! t \<and> 0 \<le> won * p2 ! t \<and> 0 \<le> woff * p3 ! t \<and>
               0 \<le> bio * p4 ! t \<and> 0 \<le> hyd * p5 ! t"
    and nn: "0 \<le> bp" "0 \<le> bd"
    and eff: "0 \<le> ce" "0 < de" "ce * de \<le> 1"
    and mc: "0 \<le> mc" and cc: "0 \<le> cc"
  shows "\<exists>n'. same_problem
                (built_network sns p1 p2 p3 p4 p5 pl load pv won woff bio hyd bp bd ce de mc
                   cc mn) n' \<and>
              lp_optimal n' \<and> p_nom_opt_of n' ''residual_load'' = [mn]"
    and "\<And>n'. 0 < cc \<Longrightarrow>
               same_problem
                 (built_network sns p1 p2 p3 p4 p5 pl load pv won woff bio hyd bp bd ce de mc
                    cc mn) n' \<Longrightarrow>
               lp_optimal n' \<Longrightarrow> p_nom_opt_of n' ''residual_load'' = [mn]"
proof -
  let ?N = "built_network sns p1 p2 p3 p4 p5 pl load pv won woff bio hyd bp bd ce de mc cc mn"
  let ?a = "built_availability p1 p2 p3 p4 p5 pv won woff bio hyd"
  let ?L = "\<lambda>t. series_scale pl load ! t"
  let ?T = "length sns"
  have 1: "\<forall>t<?T. 0 \<le> ?L t \<and> ?L t \<le> mn"
    using ld len by (simp add: nth_series_scale)
  have 2: "\<forall>t<?T. \<forall>j<5. 0 \<le> ?a j t"
    using av by (simp add: built_availability_def)
  have 3: "0 \<le> bp * bd" using nn by simp
  have 4: "(0::real) \<le> 1 - 1 / 10000" "(1::real) - 1 / 10000 \<le> 1" by simp_all
  from plan_optimum [OF 1 2 nn(1) 3 eff 4 mc, of cc] obtain v where
    v: "plan_ok ?T ?a ?L bp (bp * bd) ce de (1 - 1 / 10000) mn v mn"
    and m: "\<And>v' c'. plan_ok ?T ?a ?L bp (bp * bd) ce de (1 - 1 / 10000) mn v' c' \<Longrightarrow>
              plan_cost ?T mc cc v mn + cc * (c' - mn) \<le> plan_cost ?T mc cc v' c'"
    by blast
  let ?P = "plan_network ?N v mn"
  note P = plan_network_solution [OF v len, of mc cc]
  have below: "cost ?P + cc * (p_nom_opt_of_residual - mn) \<le> cost n' \<and>
               p_nom_opt_of n' ''residual_load'' = [p_nom_opt_of_residual] \<and>
               mn \<le> p_nom_opt_of_residual"
    if sp: "same_problem ?N n'" and lp: "lp_solution n'"
      and c: "p_nom_opt_of_residual = hd (p_nom_opt_of n' ''residual_load'')"
    for n' p_nom_opt_of_residual
  proof -
    from built_generators [OF sp] obtain g1 g2 g3 g4 g5 g6 where
      g: "generators n' = [g1, g2, g3, g4, g5, g6]"
      "gen_inputs g1 = (''pv'', ''DE'', pv, False, 0, 1, 1 / 10, 0)"
      "gen_inputs g2 = (''wind_on'', ''DE'', won, False, 0, 1, 1 / 10, 0)"
      "gen_inputs g3 = (''wind_off'', ''DE'', woff, False, 0, 1, 1 / 10, 0)"
      "gen_inputs g4 = (''biomass'', ''DE'', bio, False, 0, 1, 1 / 10, 0)"
      "gen_inputs g5 = (''hydro'', ''DE'', hyd, False, 0, 1, 1 / 10, 0)"
      "gen_inputs g6 = (''residual_load'', ''DE'', 0, True, mn, 1, mc, cc)" .
    have o: "p_nom_opt_of n' ''residual_load'' = [p_nom_opt g6]"
      using g by (simp add: p_nom_opt_of_def gen_inputs_def)
    note s = solution_plan [OF sp lp g]
    note rf = residual_facts [OF sp lp g(1,7)]
    from m [OF s(1)] s(2) P(3) o c rf(1) show ?thesis by simp
  qed
  have opt: "lp_optimal ?P"
    unfolding lp_optimal_def
  proof (intro conjI allI impI)
    show "lp_solution ?P" by (rule P(2))
    fix n' assume a: "same_problem ?P n' \<and> lp_solution n'"
    with P(1) have sp: "same_problem ?N n'" by (blast intro: same_problem_trans)
    from below [OF sp _ refl] a
    have "cost ?P + cc * (hd (p_nom_opt_of n' ''residual_load'') - mn) \<le> cost n'"
      and "mn \<le> hd (p_nom_opt_of n' ''residual_load'')" by blast+
    moreover from this(2) cc have "0 \<le> cc * (hd (p_nom_opt_of n' ''residual_load'') - mn)"
      by simp
    ultimately show "cost ?P \<le> cost n'" by linarith
  qed
  with P(1,4) show "\<exists>n'. same_problem ?N n' \<and> lp_optimal n' \<and>
                        p_nom_opt_of n' ''residual_load'' = [mn]" by blast
  show "p_nom_opt_of n' ''residual_load'' = [mn]"
    if cc: "0 < cc" and sp: "same_problem ?N n'" and o: "lp_optimal n'" for n'
  proof -
    from o have lp: "lp_solution n'" by (simp add: lp_optimal_def)
    from below [OF sp lp refl]
    have b: "cost ?P + cc * (hd (p_nom_opt_of n' ''residual_load'') - mn) \<le> cost n'"
      "p_nom_opt_of n' ''residual_load'' = [hd (p_nom_opt_of n' ''residual_load'')]"
      "mn \<le> hd (p_nom_opt_of n' ''residual_load'')" by blast+
    from sp P(1) have "same_problem n' ?P"
      by (blast intro: same_problem_trans same_problem_sym)
    with o P(2) have "cost n' \<le> cost ?P" unfolding lp_optimal_def by blast
    with b(1) have "cc * (hd (p_nom_opt_of n' ''residual_load'') - mn) \<le> 0" by linarith
    with cc have "hd (p_nom_opt_of n' ''residual_load'') - mn \<le> 0"
      by (simp add: mult_le_0_iff)
    with b(3) have "hd (p_nom_opt_of n' ''residual_load'') = mn" by simp
    with b(2) show ?thesis by simp
  qed
qed

lemma reserve_init:
  "Model_init False example_profiles 10 8 0 0 0 0 2 4 (9 / 10) 1 100 1000 10 = Inr reserve_example"
  by (simp add: Model_init_eq example_profiles_def getitem_def and_then_Inr_simp
      reserve_example_def)

lemma dumping_init:
  "Model_init False example_profiles 10 0 0 0 0 0 100 4 (9 / 10) 1 (- 2000) 1000 10
     = Inr dumping_example"
  by (simp add: Model_init_eq example_profiles_def getitem_def and_then_Inr_simp
      dumping_example_def)

lemma free_capacity_init:
  "Model_init False example_profiles 10 0 0 0 0 0 0 4 (9 / 10) 1 100 0 10
     = Inr free_capacity_example"
  by (simp add: Model_init_eq example_profiles_def getitem_def and_then_Inr_simp
      free_capacity_example_def)

text \<open>
  Without capital cost every solution of the scenario costs 1000, whatever its capacity:
  the plan with capacity 11 is optimal.
\<close>

lemma free_capacity_optimum:
  "\<exists>n'. same_problem (network free_capacity_example) n' \<and> lp_optimal n' \<and>
         p_nom_opt_of n' ''residual_load'' = [11]"
proof -
  let ?N = "built_network [''t0'', ''t1''] [1, 0] [0, 0] [0, 0] [0, 0] [0, 0] [1 / 2, 1 / 2]
       10 0 0 0 0 0 0 4 (9 / 10) 1 100 0 10"
  let ?v = "\<lambda>j t. if j = 5 then (5::real) else 0"
  have N: "network free_capacity_example = ?N"
    by (simp add: free_capacity_example_def built_model_def example_profiles_def)
  have ok: "plan_ok (length [''t0'', ''t1''])
              (built_availability [1, 0] [0, 0] [0, 0] [0, 0] [0, 0] 0 0 0 0 0)
              (\<lambda>t. series_scale [1 / 2, 1 / 2] 10 ! t) 0 (0 * 4) (9 / 10) 1
              (1 - 1 / 10000) 10 ?v 11"
    by (simp add: plan_ok_def built_availability_def series_scale_def less_Suc_eq prev_def)
  have len: "length [1 / 2, 1 / 2 :: real] = length [''t0'', ''t1'']" by simp
  note P = plan_network_solution [OF ok len, of 100 0]
  have cP: "cost (plan_network ?N ?v 11) = 1000"
    unfolding P(3) by (simp add: plan_cost_def lessThan_Suc numeral_2_eq_2)
  have "cost (plan_network ?N ?v 11) \<le> cost n'"
    if sp': "same_problem (plan_network ?N ?v 11) n'" and lp: "lp_solution n'" for n'
  proof -
    from P(1) sp' have sp: "same_problem ?N n'" by (rule same_problem_trans)
    from built_generators [OF sp] obtain g1 g2 g3 g4 g5 g6 where
      g: "generators n' = [g1, g2, g3, g4, g5, g6]"
      "gen_inputs g1 = (''pv'', ''DE'', 0, False, 0, 1, 1 / 10, 0)"
      "gen_inputs g2 = (''wind_on'', ''DE'', 0, False, 0, 1, 1 / 10, 0)"
      "gen_inputs g3 = (''wind_off'', ''DE'', 0, False, 0, 1, 1 / 10, 0)"
      "gen_inputs g4 = (''biomass'', ''DE'', 0, False, 0, 1, 1 / 10, 0)"
      "gen_inputs g5 = (''hydro'', ''DE'', 0, False, 0, 1, 1 / 10, 0)"
      "gen_inputs g6 = (''residual_load'', ''DE'', 0, True, 10, 1, 100, 0)" .
    note s = solution_plan [OF sp lp g]
    let ?w = "network_plan n'"
    have t0: "(0::nat) < length [''t0'', ''t1'']" and t1: "Suc 0 < length [''t0'', ''t1'']"
      by simp_all
    have a0: "built_availability [1, 0] [0, 0] [0, 0] [0, 0] [0, 0] 0 0 0 0 0 j t = 0" for j t
      by (simp add: built_availability_def)
    have z: "?w j t = 0" if "j < 5" "t < length [''t0'', ''t1'']" for j t
      using plan_ok_renewable [OF s(1) that(2,1)] by (simp add: a0)
    have b: "?w 6 t = 0 \<and> ?w 7 t = 0" if "t < length [''t0'', ''t1'']" for t
      using plan_okD(3-6) [OF s(1) that] by simp
    have r: "?w 5 0 = 5" "?w 5 (Suc 0) = 5"
      using plan_okD(10) [OF s(1) t0] plan_okD(10) [OF s(1) t1] z [OF _ t0] z [OF _ t1]
        b [OF t0] b [OF t1]
      by (simp_all add: series_scale_def)
    have "cost n' = 1000"
      unfolding s(2) using z [OF _ t0] z [OF _ t1] r
      by (simp add: plan_cost_def lessThan_Suc numeral_2_eq_2)
    with cP show ?thesis by simp
  qed
  with P(2) have "lp_optimal (plan_network ?N ?v 11)" unfolding lp_optimal_def by blast
  with P(1,4) show ?thesis unfolding N by blast
qed

text \<open>
  With a negative marginal cost the plan \<open>dumping_plan\<close>, of capacity 15, costs - 45000,
  and every solution of capacity 10 costs at least - 30000: no solution of capacity 10 is
  optimal.
\<close>

lemma dumping_no_minimum_capacity:
  "\<not> (\<exists>n'. same_problem (network dumping_example) n' \<and> lp_optimal n' \<and>
            p_nom_opt_of n' ''residual_load'' = [10])"
proof
  let ?N = "built_network [''t0'', ''t1''] [1, 0] [0, 0] [0, 0] [0, 0] [0, 0] [1 / 2, 1 / 2]
       10 0 0 0 0 0 100 4 (9 / 10) 1 (- 2000) 1000 10"
  assume "\<exists>n'. same_problem (network dumping_example) n' \<and> lp_optimal n' \<and>
            p_nom_opt_of n' ''residual_load'' = [10]"
  then obtain n' where sp0: "same_problem (network dumping_example) n'" and o: "lp_optimal n'"
    and c: "p_nom_opt_of n' ''residual_load'' = [10]" by blast
  have N: "network dumping_example = ?N"
    by (simp add: dumping_example_def built_model_def example_profiles_def)
  from sp0 have sp: "same_problem ?N n'" by (simp add: N)
  from o have lp: "lp_solution n'" by (simp add: lp_optimal_def)
  have ok: "plan_ok (length [''t0'', ''t1''])
              (built_availability [1, 0] [0, 0] [0, 0] [0, 0] [0, 0] 0 0 0 0 0)
              (\<lambda>t. series_scale [1 / 2, 1 / 2] 10 ! t) 100 (100 * 4) (9 / 10) 1
              (1 - 1 / 10000) 10 dumping_plan 15"
    by (simp add: plan_ok_def dumping_plan_def built_availability_def series_scale_def
        less_Suc_eq prev_def)
  have len: "length [1 / 2, 1 / 2 :: real] = length [''t0'', ''t1'']" by simp
  note P = plan_network_solution [OF ok len, of "- 2000" 1000]
  have cP: "cost (plan_network ?N dumping_plan 15) = - 45000"
    unfolding P(3) by (simp add: plan_cost_def dumping_plan_def lessThan_Suc numeral_2_eq_2)
  from sp P(1) have "same_problem n' (plan_network ?N dumping_plan 15)"
    by (blast intro: same_problem_trans same_problem_sym)
  with o P(2) have le: "cost n' \<le> - 45000" unfolding lp_optimal_def cP [symmetric] by blast
  from built_generators [OF sp] obtain g1 g2 g3 g4 g5 g6 where
    g: "generators n' = [g1, g2, g3, g4, g5, g6]"
    "gen_inputs g1 = (''pv'', ''DE'', 0, False, 0, 1, 1 / 10, 0)"
    "gen_inputs g2 = (''wind_on'', ''DE'', 0, False, 0, 1, 1 / 10, 0)"
    "gen_inputs g3 = (''wind_off'', ''DE'', 0, False, 0, 1, 1 / 10, 0)"
    "gen_inputs g4 = (''biomass'', ''DE'', 0, False, 0, 1, 1 / 10, 0)"
    "gen_inputs g5 = (''hydro'', ''DE'', 0, False, 0, 1, 1 / 10, 0)"
    "gen_inputs g6 = (''residual_load'', ''DE'', 0, True, 10, 1, - 2000, 1000)" .
  have c6: "p_nom_opt g6 = 10"
    using g c by (simp add: p_nom_opt_of_def gen_inputs_def)
  note s = solution_plan [OF sp lp g]
  let ?v = "network_plan n'"
  have t0: "(0::nat) < length [''t0'', ''t1'']" and t1: "Suc 0 < length [''t0'', ''t1'']"
    by simp_all
  have r: "?v 5 0 \<le> 10" "?v 5 (Suc 0) \<le> 10"
    using plan_okD(2) [OF s(1) t0] plan_okD(2) [OF s(1) t1] by (simp_all add: c6)
  have p: "0 \<le> ?v 0 0 + ?v 1 0 + ?v 2 0 + ?v 3 0 + ?v 4 0"
    "0 \<le> ?v 0 (Suc 0) + ?v 1 (Suc 0) + ?v 2 (Suc 0) + ?v 3 (Suc 0) + ?v 4 (Suc 0)"
    using plan_ok_renewable(1) [OF s(1) t0, of 0] plan_ok_renewable(1) [OF s(1) t0, of 1]
      plan_ok_renewable(1) [OF s(1) t0, of 2] plan_ok_renewable(1) [OF s(1) t0, of 3]
      plan_ok_renewable(1) [OF s(1) t0, of 4]
      plan_ok_renewable(1) [OF s(1) t1, of 0] plan_ok_renewable(1) [OF s(1) t1, of 1]
      plan_ok_renewable(1) [OF s(1) t1, of 2] plan_ok_renewable(1) [OF s(1) t1, of 3]
      plan_ok_renewable(1) [OF s(1) t1, of 4]
    by simp_all
  define A where "A = (?v 0 0 + ?v 1 0 + ?v 2 0 + ?v 3 0 + ?v 4 0) / 10"
  define B where "B = (?v 0 (Suc 0) + ?v 1 (Suc 0) + ?v 2 (Suc 0) + ?v 3 (Suc 0)
                        + ?v 4 (Suc 0)) / 10"
  have AB: "0 \<le> A" "0 \<le> B" using p by (simp_all add: A_def B_def)
  have "cost n' = A + - 2000 * ?v 5 0 + (B + - 2000 * ?v 5 (Suc 0)) + 1000 * 10"
    unfolding s(2) c6 A_def B_def by (simp add: plan_cost_def lessThan_Suc numeral_2_eq_2)
  with r AB have "- 30000 \<le> cost n'" by linarith
  with le show False by simp
qed

section \<open>The claims\<close>

text \<open>
  C6. In every solution returned by the optimizer, at every timestep the dispatch of the
  five fixed-capacity generators plus the dispatch of the residual generator plus the net
  power of the battery equals the load. The constructor puts all eight components on the
  one bus \<open>DE\<close>, so the balance of that bus is this equation; the load is the load
  profile times the annual load, as the constructor sets it.
\<close>

theorem energy_balance:
  assumes "Model_init r df load pv won woff bio hyd bp bd ce de mc cc mn = Inr m"
    and "lp_solver solve" and "optimize solve m = Inr ((''ok'', c), m')"
    and "t < length (index df)"
  shows "cell (generators_t_p (network m')) ''pv'' t
         + cell (generators_t_p (network m')) ''wind_on'' t
         + cell (generators_t_p (network m')) ''wind_off'' t
         + cell (generators_t_p (network m')) ''biomass'' t
         + cell (generators_t_p (network m')) ''hydro'' t
         + cell (generators_t_p (network m')) ''residual_load'' t
         + cell (storage_units_t_p (network m')) ''batteries'' t
         = cell (loads_t_p (network m')) ''load'' t
       \<and> (frame_ok df \<longrightarrow>
            cell (loads_t_p (network m')) ''load'' t = cell df ''load_profile'' t * load)"
  using bus_balance [OF assms] load_value [OF assms] by blast

theorem energy_balance_witness:
  "cell (generators_t_p (network example_solved)) ''pv'' 1
     + cell (generators_t_p (network example_solved)) ''wind_on'' 1
     + cell (generators_t_p (network example_solved)) ''wind_off'' 1
     + cell (generators_t_p (network example_solved)) ''biomass'' 1
     + cell (generators_t_p (network example_solved)) ''hydro'' 1
     + cell (generators_t_p (network example_solved)) ''residual_load'' 1
     + cell (storage_units_t_p (network example_solved)) ''batteries'' 1
     = cell (loads_t_p (network example_solved)) ''load'' 1
   \<and> cell (loads_t_p (network example_solved)) ''load'' 1
       = cell example_profiles ''load_profile'' 1 * 10
   \<and> cell (loads_t_p (network example_solved)) ''load'' 1 = 5
   \<and> cell (generators_t_p (network example_solved)) ''residual_load'' 1 = 160009 / 50000"
proof -
  have t: "1 < length (index example_profiles)" by (simp add: example_profiles_def)
  have v: "cell (loads_t_p (network example_solved)) ''load'' 1 = 5"
    "cell (generators_t_p (network example_solved)) ''residual_load'' 1 = 160009 / 50000"
    by (simp_all add: example_defs)
  from energy_balance [OF example_init example_lp_solver example_optimize t] example_frame_ok v
  show ?thesis by simp
qed

text \<open>
  C7. In every solution returned by the optimizer the state of charge of the battery is
  cyclic: its value at the first snapshot follows from its value at the last snapshot by
  one transition, standing loss included. At every snapshot it lies between 0 and
  \<open>batteries_p_inst * batteries_duration\<close>.
\<close>

theorem soc_cyclic_bounded:
  assumes "Model_init r df load pv won woff bio hyd bp bd ce de mc cc mn = Inr m"
    and "lp_solver solve" and "optimize solve m = Inr ((''ok'', c), m')"
    and "t < length (index df)" and "de \<noteq> 0"
  shows "cell (storage_units_t_state_of_charge (network m')) ''batteries'' 0 =
           cell (storage_units_t_state_of_charge (network m')) ''batteries''
             (length (index df) - 1) * (1 - 1 / 10000)
           + cell (storage_units_t_p_store (network m')) ''batteries'' 0 * ce
           - cell (storage_units_t_p_dispatch (network m')) ''batteries'' 0 / de
         \<and> 0 \<le> cell (storage_units_t_state_of_charge (network m')) ''batteries'' t
         \<and> cell (storage_units_t_state_of_charge (network m')) ''batteries'' t \<le> bp * bd"
proof -
  from assms(4) have z: "0 < length (index df)" by (cases "index df") auto
  show ?thesis
    using battery_facts(8) [OF assms(1,2,3) z] battery_facts(6,7) [OF assms(1,2,3,4)]
    by simp
qed

theorem soc_cyclic_bounded_witness:
  "cell (storage_units_t_state_of_charge (network example_solved)) ''batteries'' 0 =
     cell (storage_units_t_state_of_charge (network example_solved)) ''batteries'' 1 * (1 - 1 / 10000)
     + cell (storage_units_t_p_store (network example_solved)) ''batteries'' 0 * (9 / 10)
     - cell (storage_units_t_p_dispatch (network example_solved)) ''batteries'' 0 / 1
   \<and> 0 \<le> cell (storage_units_t_state_of_charge (network example_solved)) ''batteries'' 0
   \<and> cell (storage_units_t_state_of_charge (network example_solved)) ''batteries'' 0 \<le> 2 * 4
   \<and> cell (storage_units_t_state_of_charge (network example_solved)) ''batteries'' 0 = 9 / 5"
proof -
  have t: "0 < length (index example_profiles)" by (simp add: example_profiles_def)
  have d: "(1::real) \<noteq> 0" by simp
  have v: "cell (storage_units_t_state_of_charge (network example_solved)) ''batteries'' 0 = 9 / 5"
    by (simp add: example_defs)
  have l: "length (index example_profiles) - 1 = 1" by (simp add: example_profiles_def)
  from soc_cyclic_bounded [OF example_init example_lp_solver example_optimize t d] v l
  show ?thesis by simp
qed

text \<open>
  C10. Whatever the arguments of the constructor, the battery is built with a standing loss
  of 0.0001 per snapshot; the constructor has no parameter for it. In a solution, every
  transition of the state of charge, the one that wraps around included, keeps the
  fraction \<open>1 - 0.0001\<close> of the previous state of charge.
\<close>

theorem standing_loss_fixed:
  assumes "Model_init r df load pv won woff bio hyd bp bd ce de mc cc mn = Inr m"
  shows "map (\<lambda>s. (su_name s, standing_loss s)) (storage_units (network m))
           = [(''batteries'', 1 / 10000)]
         \<and> (\<forall>solve c m' t.
              lp_solver solve \<and> optimize solve m = Inr ((''ok'', c), m') \<and>
              t < length (index df) \<and> de \<noteq> 0 \<longrightarrow>
              cell (storage_units_t_state_of_charge (network m')) ''batteries'' t =
                cell (storage_units_t_state_of_charge (network m')) ''batteries''
                  (if t = 0 then length (index df) - 1 else t - 1) * (1 - 1 / 10000)
                + cell (storage_units_t_p_store (network m')) ''batteries'' t * ce
                - cell (storage_units_t_p_dispatch (network m')) ''batteries'' t / de)"
proof -
  from Model_init_Inr [OF assms] have
    "map (\<lambda>s. (su_name s, standing_loss s)) (storage_units (network m))
       = [(''batteries'', 1 / 10000)]"
    by (auto simp: built_model_def built_network_def StorageUnit_def)
  moreover have "cell (storage_units_t_state_of_charge (network m')) ''batteries'' t =
                cell (storage_units_t_state_of_charge (network m')) ''batteries''
                  (if t = 0 then length (index df) - 1 else t - 1) * (1 - 1 / 10000)
                + cell (storage_units_t_p_store (network m')) ''batteries'' t * ce
                - cell (storage_units_t_p_dispatch (network m')) ''batteries'' t / de"
    if "lp_solver solve" "optimize solve m = Inr ((''ok'', c), m')" "t < length (index df)"
    for solve c m' t
    using battery_facts(8) [OF assms that] .
  ultimately show ?thesis by blast
qed

theorem standing_loss_fixed_witness:
  "map (\<lambda>s. (su_name s, standing_loss s)) (storage_units (network example_model))
     = [(''batteries'', 1 / 10000)]
   \<and> cell (storage_units_t_state_of_charge (network example_solved)) ''batteries'' 1 =
       cell (storage_units_t_state_of_charge (network example_solved)) ''batteries'' 0
         * (1 - 1 / 10000)
       + cell (storage_units_t_p_store (network example_solved)) ''batteries'' 1 * (9 / 10)
       - cell (storage_units_t_p_dispatch (network example_solved)) ''batteries'' 1 / 1
   \<and> cell (storage_units_t_p_dispatch (network example_solved)) ''batteries'' 1 = 89991 / 50000"
proof -
  have t: "1 < length (index example_profiles)" by (simp add: example_profiles_def)
  have d: "(1::real) \<noteq> 0" by simp
  have v: "cell (storage_units_t_p_dispatch (network example_solved)) ''batteries'' 1
             = 89991 / 50000"
    by (simp add: example_defs)
  from standing_loss_fixed [OF example_init] example_lp_solver example_optimize t d
  have "map (\<lambda>s. (su_name s, standing_loss s)) (storage_units (network example_model))
          = [(''batteries'', 1 / 10000)]"
    and "cell (storage_units_t_state_of_charge (network example_solved)) ''batteries'' 1 =
       cell (storage_units_t_state_of_charge (network example_solved)) ''batteries''
         (if (1::nat) = 0 then length (index example_profiles) - 1 else 1 - 1) * (1 - 1 / 10000)
       + cell (storage_units_t_p_store (network example_solved)) ''batteries'' 1 * (9 / 10)
       - cell (storage_units_t_p_dispatch (network example_solved)) ''batteries'' 1 / 1"
    by blast+
  with v show ?thesis by simp
qed

text \<open>
  C4. For every solved model and every timestep, the \<open>curtailed_re\<close> column is the sum over
  the five renewable technologies of installed capacity times availability, minus the sum
  of their dispatched power, and it is not negative. The extraction returns a table; the
  sign follows from the availability ceilings of the solution.
\<close>

theorem curtailed_re_formula:
  assumes "Model_init r df load pv won woff bio hyd bp bd ce de mc cc mn = Inr m"
    and "lp_solver solve" and "optimize solve m = Inr ((''ok'', c), m')"
    and "frame_ok df"
  shows "\<exists>df_result m''.
     get_results m' = Inr (df_result, m'') \<and>
     (\<forall>t<length (index df).
        cell df_result ''curtailed_re'' t =
          (pv * cell df ''pv_profile'' t + won * cell df ''wind_on_profile'' t
           + woff * cell df ''wind_off_profile'' t + bio * cell df ''biomass_profile'' t
           + hyd * cell df ''hydro_profile'' t)
          - (cell (generators_t_p (network m')) ''pv'' t
             + cell (generators_t_p (network m')) ''wind_on'' t
             + cell (generators_t_p (network m')) ''wind_off'' t
             + cell (generators_t_p (network m')) ''biomass'' t
             + cell (generators_t_p (network m')) ''hydro'' t) \<and>
        0 \<le> cell df_result ''curtailed_re'' t)"
proof -
  from results_of_solved [OF assms] obtain df_result m'' where
    g: "get_results m' = Inr (df_result, m'')" and
    f: "\<And>t. t < length (index df) \<Longrightarrow>
          cell df_result ''curtailed_re'' t =
          (cell df ''pv_profile'' t * pv + cell df ''wind_on_profile'' t * won
           + cell df ''wind_off_profile'' t * woff + cell df ''biomass_profile'' t * bio
           + cell df ''hydro_profile'' t * hyd)
          - (cell (generators_t_p (network m')) ''pv'' t
             + cell (generators_t_p (network m')) ''wind_on'' t
             + cell (generators_t_p (network m')) ''wind_off'' t
             + cell (generators_t_p (network m')) ''biomass'' t
             + cell (generators_t_p (network m')) ''hydro'' t)"
    by blast
  from generator_facts [OF assms(1,2,3)] have
    b: "\<And>t. t < length (index df) \<Longrightarrow>
        cell (generators_t_p (network m')) ''pv'' t \<le> pv * cell df ''pv_profile'' t \<and>
        cell (generators_t_p (network m')) ''wind_on'' t \<le> won * cell df ''wind_on_profile'' t \<and>
        cell (generators_t_p (network m')) ''wind_off'' t
          \<le> woff * cell df ''wind_off_profile'' t \<and>
        cell (generators_t_p (network m')) ''biomass'' t \<le> bio * cell df ''biomass_profile'' t \<and>
        cell (generators_t_p (network m')) ''hydro'' t \<le> hyd * cell df ''hydro_profile'' t"
    by blast
  have "cell df_result ''curtailed_re'' t =
          (pv * cell df ''pv_profile'' t + won * cell df ''wind_on_profile'' t
           + woff * cell df ''wind_off_profile'' t + bio * cell df ''biomass_profile'' t
           + hyd * cell df ''hydro_profile'' t)
          - (cell (generators_t_p (network m')) ''pv'' t
             + cell (generators_t_p (network m')) ''wind_on'' t
             + cell (generators_t_p (network m')) ''wind_off'' t
             + cell (generators_t_p (network m')) ''biomass'' t
             + cell (generators_t_p (network m')) ''hydro'' t) \<and>
        0 \<le> cell df_result ''curtailed_re'' t" if "t < length (index df)" for t
    using f [OF that] b [OF that] by (simp add: mult.commute)
  with g show ?thesis by blast
qed

theorem curtailed_re_formula_witness:
  "cell example_result ''curtailed_re'' 0 =
     (8 * cell example_profiles ''pv_profile'' 0 + 0 * cell example_profiles ''wind_on_profile'' 0
      + 0 * cell example_profiles ''wind_off_profile'' 0
      + 0 * cell example_profiles ''biomass_profile'' 0
      + 0 * cell example_profiles ''hydro_profile'' 0)
     - (cell (generators_t_p (network example_solved)) ''pv'' 0
        + cell (generators_t_p (network example_solved)) ''wind_on'' 0
        + cell (generators_t_p (network example_solved)) ''wind_off'' 0
        + cell (generators_t_p (network example_solved)) ''biomass'' 0
        + cell (generators_t_p (network example_solved)) ''hydro'' 0)
   \<and> 0 \<le> cell example_result ''curtailed_re'' 0
   \<and> cell example_result ''curtailed_re'' 0 = 1"
proof -
  have t: "0 < length (index example_profiles)" by (simp add: example_profiles_def)
  have v: "cell example_result ''curtailed_re'' 0 = 1"
    by (simp add: example_result_def cell_def col_def)
  from curtailed_re_formula [OF example_init example_lp_solver example_optimize example_frame_ok]
    t v
  show ?thesis unfolding example_get_results by blast
qed

text \<open>
  C1, as the code has it. For every solved model and every timestep, the \<open>residual_load\<close>
  column is the load minus the sum of the \<^emph>\<open>available\<close> renewable power (installed
  capacity times availability, the five technology columns of the table) minus the net
  power of the battery. By the energy balance this is the dispatch of the residual
  generator minus the curtailed power, so it equals that dispatch exactly where nothing
  is curtailed, and is negative where the surplus is curtailed.

  In the small scenario the first snapshot has 8 available, 7 dispatched, the battery
  charging with 2 and a load of 5: the column holds \<open>-1\<close>, while load minus dispatched
  renewables minus battery power, and the residual dispatch, are both 0.
\<close>

theorem residual_load_formula:
  assumes "Model_init r df load pv won woff bio hyd bp bd ce de mc cc mn = Inr m"
    and "lp_solver solve" and "optimize solve m = Inr ((''ok'', c), m')"
    and "frame_ok df"
  shows "\<exists>df_result m''.
     get_results m' = Inr (df_result, m'') \<and>
     (\<forall>t<length (index df).
        cell df_result ''residual_load'' t =
          cell df_result ''load'' t
          - (cell df_result ''pv'' t + cell df_result ''wind_on'' t
             + cell df_result ''wind_off'' t + cell df_result ''biomass'' t
             + cell df_result ''hydro'' t)
          - cell df_result ''batteries'' t \<and>
        cell df_result ''pv'' t = pv * cell df ''pv_profile'' t \<and>
        cell df_result ''wind_on'' t = won * cell df ''wind_on_profile'' t \<and>
        cell df_result ''wind_off'' t = woff * cell df ''wind_off_profile'' t \<and>
        cell df_result ''biomass'' t = bio * cell df ''biomass_profile'' t \<and>
        cell df_result ''hydro'' t = hyd * cell df ''hydro_profile'' t \<and>
        cell df_result ''load'' t = cell (loads_t_p (network m')) ''load'' t \<and>
        cell df_result ''batteries'' t = cell (storage_units_t_p (network m')) ''batteries'' t \<and>
        cell df_result ''residual_load'' t =
          cell (generators_t_p (network m')) ''residual_load'' t
          - cell df_result ''curtailed_re'' t)"
proof -
  from results_of_solved [OF assms] obtain df_result m'' where
    g: "get_results m' = Inr (df_result, m'')" and
    f: "\<And>t. t < length (index df) \<Longrightarrow>
        cell df_result ''pv'' t = cell df ''pv_profile'' t * pv \<and>
        cell df_result ''wind_on'' t = cell df ''wind_on_profile'' t * won \<and>
        cell df_result ''wind_off'' t = cell df ''wind_off_profile'' t * woff \<and>
        cell df_result ''biomass'' t = cell df ''biomass_profile'' t * bio \<and>
        cell df_result ''hydro'' t = cell df ''hydro_profile'' t * hyd \<and>
        cell df_result ''batteries'' t = cell (storage_units_t_p (network m')) ''batteries'' t \<and>
        cell df_result ''load'' t = cell (loads_t_p (network m')) ''load'' t \<and>
        cell df_result ''curtailed_re'' t =
          (cell df ''pv_profile'' t * pv + cell df ''wind_on_profile'' t * won
           + cell df ''wind_off_profile'' t * woff + cell df ''biomass_profile'' t * bio
           + cell df ''hydro_profile'' t * hyd)
          - (cell (generators_t_p (network m')) ''pv'' t
             + cell (generators_t_p (network m')) ''wind_on'' t
             + cell (generators_t_p (network m')) ''wind_off'' t
             + cell (generators_t_p (network m')) ''biomass'' t
             + cell (generators_t_p (network m')) ''hydro'' t) \<and>
        cell df_result ''residual_load'' t =
          cell (loads_t_p (network m')) ''load'' t
          - (cell df ''pv_profile'' t * pv + cell df ''wind_on_profile'' t * won
             + cell df ''wind_off_profile'' t * woff + cell df ''biomass_profile'' t * bio
             + cell df ''hydro_profile'' t * hyd)
          - cell (storage_units_t_p (network m')) ''batteries'' t"
    by blast
  have "cell df_result ''residual_load'' t =
          cell df_result ''load'' t
          - (cell df_result ''pv'' t + cell df_result ''wind_on'' t
             + cell df_result ''wind_off'' t + cell df_result ''biomass'' t
             + cell df_result ''hydro'' t)
          - cell df_result ''batteries'' t \<and>
        cell df_result ''pv'' t = pv * cell df ''pv_profile'' t \<and>
        cell df_result ''wind_on'' t = won * cell df ''wind_on_profile'' t \<and>
        cell df_result ''wind_off'' t = woff * cell df ''wind_off_profile'' t \<and>
        cell df_result ''biomass'' t = bio * cell df ''biomass_profile'' t \<and>
        cell df_result ''hydro'' t = hyd * cell df ''hydro_profile'' t \<and>
        cell df_result ''load'' t = cell (loads_t_p (network m')) ''load'' t \<and>
        cell df_result ''batteries'' t = cell (storage_units_t_p (network m')) ''batteries'' t \<and>
        cell df_result ''residual_load'' t =
          cell (generators_t_p (network m')) ''residual_load'' t
          - cell df_result ''curtailed_re'' t" if "t < length (index df)" for t
    using f [OF that] bus_balance [OF assms(1,2,3) that] by (simp add: mult.commute)
  with g show ?thesis by blast
qed


theorem residual_load_formula_witness:
  "cell example_result ''residual_load'' 0 =
     cell example_result ''load'' 0
     - (cell example_result ''pv'' 0 + cell example_result ''wind_on'' 0
        + cell example_result ''wind_off'' 0 + cell example_result ''biomass'' 0
        + cell example_result ''hydro'' 0)
     - cell example_result ''batteries'' 0
   \<and> cell example_result ''pv'' 0 = 8 * cell example_profiles ''pv_profile'' 0
   \<and> cell example_result ''residual_load'' 0 =
       cell (generators_t_p (network example_solved)) ''residual_load'' 0
       - cell example_result ''curtailed_re'' 0
   \<and> cell example_result ''residual_load'' 0 = - 1"
proof -
  have t: "0 < length (index example_profiles)" by (simp add: example_profiles_def)
  have v: "cell example_result ''residual_load'' 0 = - 1"
    by (simp add: example_result_def cell_def col_def)
  from residual_load_formula [OF example_init example_lp_solver example_optimize example_frame_ok]
    t v
  show ?thesis unfolding example_get_results by blast
qed

theorem residual_load_counterexample:
  "Model_init False example_profiles 10 8 0 0 0 0 2 4 (9 / 10) 1 100 1000 0 = Inr example_model
   \<and> optimize example_solver example_model = Inr ((''ok'', ''optimal''), example_solved)
   \<and> lp_solution (network example_solved)
   \<and> get_results example_solved = Inr (example_result, example_after)
   \<and> cell example_result ''residual_load'' 0 = - 1
   \<and> cell (loads_t_p (network example_solved)) ''load'' 0
       - (cell (generators_t_p (network example_solved)) ''pv'' 0
          + cell (generators_t_p (network example_solved)) ''wind_on'' 0
          + cell (generators_t_p (network example_solved)) ''wind_off'' 0
          + cell (generators_t_p (network example_solved)) ''biomass'' 0
          + cell (generators_t_p (network example_solved)) ''hydro'' 0)
       - cell (storage_units_t_p (network example_solved)) ''batteries'' 0 = 0
   \<and> cell (generators_t_p (network example_solved)) ''residual_load'' 0 = 0"
proof -
  have "lp_solution (network example_solved)"
    using example_lp_solution by (simp add: example_solved_def)
  moreover have "cell example_result ''residual_load'' 0 = - 1"
    by (simp add: example_result_def cell_def col_def)
  moreover have "cell (loads_t_p (network example_solved)) ''load'' 0
       - (cell (generators_t_p (network example_solved)) ''pv'' 0
          + cell (generators_t_p (network example_solved)) ''wind_on'' 0
          + cell (generators_t_p (network example_solved)) ''wind_off'' 0
          + cell (generators_t_p (network example_solved)) ''biomass'' 0
          + cell (generators_t_p (network example_solved)) ''hydro'' 0)
       - cell (storage_units_t_p (network example_solved)) ''batteries'' 0 = 0"
    by (simp add: example_defs)
  moreover have "cell (generators_t_p (network example_solved)) ''residual_load'' 0 = 0"
    by (simp add: example_defs)
  ultimately show ?thesis
    using example_init example_optimize example_get_results by simp
qed

text \<open>
  C3. \<open>get_results\<close> is not free of side effects: the column \<open>actual_re_generation\<close> is
  assigned to the network's own dispatch table. In the small scenario the table
  \<open>network.generators_t.p\<close> has six columns before the call and seven after it.
\<close>

theorem get_results_adds_column:
  "get_results example_solved = Inr (example_result, example_after)
   \<and> map fst (columns (generators_t_p (network example_solved))) =
       [''pv'', ''wind_on'', ''wind_off'', ''biomass'', ''hydro'', ''residual_load'']
   \<and> map fst (columns (generators_t_p (network example_after))) =
       [''pv'', ''wind_on'', ''wind_off'', ''biomass'', ''hydro'', ''residual_load'',
        ''actual_re_generation'']
   \<and> network example_after \<noteq> network example_solved"
proof -
  have 1: "map fst (columns (generators_t_p (network example_solved))) =
       [''pv'', ''wind_on'', ''wind_off'', ''biomass'', ''hydro'', ''residual_load'']"
    by (simp add: example_defs)
  have 2: "map fst (columns (generators_t_p (network example_after))) =
       [''pv'', ''wind_on'', ''wind_off'', ''biomass'', ''hydro'', ''residual_load'',
        ''actual_re_generation'']"
    by (simp add: example_after_def example_defs setitem_def)
  from 1 2 have "network example_after \<noteq> network example_solved" by auto
  with 1 2 example_get_results show ?thesis by simp
qed

text \<open>
  C9. On a model that has not been optimized successfully, \<open>get_results\<close> returns no table:
  the dispatch table of the network has no columns, and the first read of it, for \<open>pv\<close>,
  raises \<open>KeyError\<close>. This holds right after construction and after a solve that reported
  a status other than \<open>ok\<close>.
\<close>

theorem get_results_before_solve:
  assumes "Model_init r df load pv won woff bio hyd bp bd ce de mc cc mn = Inr m"
  shows "get_results m = Inl (KeyError ''pv'')
         \<and> (\<forall>solve st m'.
              lp_solver solve \<and> optimize solve m = Inr (st, m') \<and> fst st \<noteq> ''ok'' \<longrightarrow>
              get_results m' = Inl (KeyError ''pv''))"
proof -
  from Model_init_Inr [OF assms] obtain p1 p2 p3 p4 p5 pl where
    n: "network m = built_network (index df) p1 p2 p3 p4 p5 pl load pv won woff bio hyd bp bd
                      ce de mc cc mn"
    by (auto simp: built_model_def)
  have "get_results m' = Inl (KeyError ''pv'')"
    if "lp_solver solve" "optimize solve m = Inr (st, m')" "fst st \<noteq> ''ok''"
    for solve st m'
  proof -
    from that(2) obtain n' where s: "solve (network m) = Inr (st, n')" and "network m' = n'"
      by (auto simp: optimize_Inr)
    moreover from that(1,3) s have "n' = network m" unfolding lp_solver_def by metis
    ultimately have "network m' = built_network (index df) p1 p2 p3 p4 p5 pl load pv won woff
                       bio hyd bp bd ce de mc cc mn" using n by simp
    then show ?thesis by (rule get_results_built)
  qed
  with get_results_built [OF n] show ?thesis by blast
qed

theorem get_results_before_solve_witness:
  "get_results example_model = Inl (KeyError ''pv'')
   \<and> optimize infeasible_solver example_model =
       Inr ((''warning'', ''infeasible''),
            example_model\<lparr>opt_state := Some (''warning'', ''infeasible'')\<rparr>)
   \<and> get_results (example_model\<lparr>opt_state := Some (''warning'', ''infeasible'')\<rparr>)
       = Inl (KeyError ''pv'')"
proof -
  have o: "optimize infeasible_solver example_model =
       Inr ((''warning'', ''infeasible''),
            example_model\<lparr>opt_state := Some (''warning'', ''infeasible'')\<rparr>)"
    by (simp add: optimize_def infeasible_solver_def and_then_Inr_simp)
  have f: "fst (''warning'', ''infeasible'') \<noteq> ''ok''" by simp
  from get_results_before_solve [OF example_init] infeasible_lp_solver o f
  show ?thesis by blast
qed

text \<open>
  C2, as the code has it. The constructor has no check for an empty profile table and
  raises no \<open>ConfigurationError\<close>; it never calls the solver. For a table without rows:
  if the network library refuses an empty snapshot index, construction fails with that
  library's \<open>ValueError\<close>; otherwise it fails with \<open>KeyError\<close> for the first required
  profile column that is missing, and succeeds, with a network of no snapshots, when all
  six columns are there.

  The table with six empty columns is accepted when the library accepts the empty index;
  the column-less placeholder of \<open>main.py\<close> fails with \<open>KeyError\<close> for \<open>pv_profile\<close>.
\<close>

theorem empty_profiles_construction:
  assumes "index df = []"
  shows "Model_init r df load pv won woff bio hyd bp bd ce de mc cc mn \<noteq> Inl ConfigurationError
       \<and> (r \<longrightarrow> Model_init r df load pv won woff bio hyd bp bd ce de mc cc mn
                  = Inl (ValueError ''Snapshots must not be empty.''))
       \<and> (\<not> r \<longrightarrow>
            (case find (\<lambda>c. map_of (columns df) c = None) required_columns of
               Some c \<Rightarrow> Model_init r df load pv won woff bio hyd bp bd ce de mc cc mn
                          = Inl (KeyError c)
             | None \<Rightarrow> (\<exists>m. Model_init r df load pv won woff bio hyd bp bd ce de mc cc mn = Inr m
                          \<and> snapshots (network m) = [] \<and> opt_state m = None)))"
proof (cases r)
  case True
  with assms show ?thesis by (simp add: Model_init_eq)
next
  case False
  have e: "Model_init r df load pv won woff bio hyd bp bd ce de mc cc mn =
      and_then (getitem df ''pv_profile'') (\<lambda>p1.
           and_then (getitem df ''wind_on_profile'') (\<lambda>p2.
           and_then (getitem df ''wind_off_profile'') (\<lambda>p3.
           and_then (getitem df ''biomass_profile'') (\<lambda>p4.
           and_then (getitem df ''hydro_profile'') (\<lambda>p5.
           and_then (getitem df ''load_profile'') (\<lambda>pl.
             Inr (built_model df p1 p2 p3 p4 p5 pl load pv won woff bio hyd bp bd ce de
                    mc cc mn)))))))"
    using False by (simp add: Model_init_eq)
  show ?thesis
    unfolding e using False assms
    by (simp add: required_columns_def getitem_def and_then_def built_model_def
        built_network_def split: option.splits)
qed

theorem empty_profiles_construction_witness:
  "index empty_profiles = []
   \<and> Model_init False empty_profiles 10 8 0 0 0 0 2 4 (9 / 10) 1 100 1000 0
       \<noteq> Inl ConfigurationError
   \<and> find (\<lambda>c. map_of (columns empty_profiles) c = None) required_columns = None
   \<and> (\<exists>m. Model_init False empty_profiles 10 8 0 0 0 0 2 4 (9 / 10) 1 100 1000 0 = Inr m
          \<and> snapshots (network m) = [] \<and> opt_state m = None)"
proof -
  have i: "index empty_profiles = []" by (simp add: empty_profiles_def)
  have f: "find (\<lambda>c. map_of (columns empty_profiles) c = None) required_columns = None"
    by (simp add: empty_profiles_def required_columns_def)
  from empty_profiles_construction [OF i, of False 10 8 0 0 0 0 2 4 "9 / 10" 1 100 1000 0] i f
  show ?thesis by simp
qed

theorem empty_profiles_counterexample:
  "index empty_profiles = []
   \<and> Model_init False empty_profiles 10 8 0 0 0 0 2 4 (9 / 10) 1 100 1000 0
       = Inr (built_model empty_profiles [] [] [] [] [] [] 10 8 0 0 0 0 2 4 (9 / 10) 1 100 1000 0)
   \<and> Model_init True empty_profiles 10 8 0 0 0 0 2 4 (9 / 10) 1 100 1000 0
       = Inl (ValueError ''Snapshots must not be empty.'')
   \<and> index DataFrame = []
   \<and> Model_init False DataFrame 750000000 215000 115000 30000 5200 2100 25000 4 (9 / 10) 1
        100 1000 0 = Inl (KeyError ''pv_profile'')
   \<and> Model_init True DataFrame 750000000 215000 115000 30000 5200 2100 25000 4 (9 / 10) 1
        100 1000 0 = Inl (ValueError ''Snapshots must not be empty.'')"
  by (simp add: Model_init_eq empty_profiles_def DataFrame_def getitem_def and_then_Inr_simp
      and_then_Inl_simp)

text \<open>
  C5. \<open>optimize\<close> hands back what the solve reports and adds nothing of its own. When the
  library call returns a pair (status, termination condition), \<open>optimize\<close> returns that
  pair unchanged and records it as \<open>opt_state\<close>, whatever the status is. When the library
  call raises, the exception leaves \<open>optimize\<close>, and \<open>main\<close>, unhandled: there is no
  handler around the solve. \<open>main\<close> extracts results exactly when the first component of
  the returned pair is \<open>ok\<close>, and extracts nothing for any other returned status.
\<close>

theorem optimize_returns_status:
  "optimize solve_model m =
     (case solve_model (network m) of
        Inl e \<Rightarrow> Inl e
      | Inr (st, n') \<Rightarrow> Inr (st, m\<lparr>network := n', opt_state := Some st\<rparr>))
   \<and> (\<forall>r df. Model_init r df 750000000 215000 115000 30000 5200 2100 25000 4 (9 / 10) 1
                100 1000 0 = Inr m \<longrightarrow>
         main r solve_model df =
           (case solve_model (network m) of
              Inl e \<Rightarrow> Inl e
            | Inr (st, n') \<Rightarrow>
                if fst st = ''ok''
                then and_then (get_results (m\<lparr>network := n', opt_state := Some st\<rparr>))
                       (\<lambda>(df_result, germany_model). Inr (Successful df_result))
                else Inr Not_successful))"
proof -
  have o: "optimize solve_model m =
     (case solve_model (network m) of
        Inl e \<Rightarrow> Inl e
      | Inr (st, n') \<Rightarrow> Inr (st, m\<lparr>network := n', opt_state := Some st\<rparr>))"
    by (simp add: optimize_def and_then_def split: sum.splits prod.splits)
  have "main r solve_model df =
           (case solve_model (network m) of
              Inl e \<Rightarrow> Inl e
            | Inr (st, n') \<Rightarrow>
                if fst st = ''ok''
                then and_then (get_results (m\<lparr>network := n', opt_state := Some st\<rparr>))
                       (\<lambda>(df_result, germany_model). Inr (Successful df_result))
                else Inr Not_successful)"
    if "Model_init r df 750000000 215000 115000 30000 5200 2100 25000 4 (9 / 10) 1
                    100 1000 0 = Inr m" for r df
    by (simp add: main_def that o and_then_Inr_simp and_then_Inl_simp
        split: sum.splits prod.splits)
  with o show ?thesis by blast
qed

theorem optimize_returns_status_witness:
  "optimize infeasible_solver germany_example =
     Inr ((''warning'', ''infeasible''),
          germany_example\<lparr>opt_state := Some (''warning'', ''infeasible'')\<rparr>)
   \<and> main False infeasible_solver example_profiles = Inr Not_successful"
proof -
  have s: "infeasible_solver (network germany_example) =
             Inr ((''warning'', ''infeasible''), network germany_example)"
    by (simp add: infeasible_solver_def)
  from optimize_returns_status [of infeasible_solver germany_example] germany_init s
  show ?thesis by simp
qed

theorem optimize_raises_counterexample:
  "lp_solver raising_solver
   \<and> optimize raising_solver germany_example = Inl (LibraryError ''solver failed'')
   \<and> main False raising_solver example_profiles = Inl (LibraryError ''solver failed'')"
proof -
  have 1: "lp_solver raising_solver"
    by (simp add: lp_solver_def raising_solver_def)
  have 2: "optimize raising_solver germany_example = Inl (LibraryError ''solver failed'')"
    by (simp add: optimize_def raising_solver_def and_then_Inl_simp)
  have 3: "main False raising_solver example_profiles = Inl (LibraryError ''solver failed'')"
    using germany_init by (simp add: main_def 2 and_then_Inr_simp and_then_Inl_simp)
  from 1 2 3 show ?thesis by blast
qed

text \<open>
  C8. In every solution returned by the optimizer the optimized capacity of the residual
  generator is at least \<open>min_installed_cap_residual\<close>: the constructor passes that value as
  \<open>p_nom_min\<close> of an extendable generator.

  Take a scenario whose loads all lie between zero and \<open>min_installed_cap_residual\<close>, with
  a well-formed profile table, availabilities and battery ratings that are not negative, a
  positive discharge efficiency, a round trip that does not create energy, and a marginal
  and a capital cost of the residual generator that are not negative. Its linear program
  has an optimal solution whose residual capacity is exactly \<open>min_installed_cap_residual\<close>,
  so the solve can succeed with that capacity, with or without a battery. When the capital
  cost is positive, every optimal solution has that capacity; so has every optimum that a
  solve returns.

  The conditions on the costs are needed. With a negative capital cost and no upper bound
  on the capacity there is no optimum at all. With no capital cost capacity is free, and
  a solution with a larger capacity is optimal as well. With a negative marginal cost a
  battery that loses energy lets the residual generator earn more than the extra capacity
  costs, and no optimum keeps the minimum capacity.
\<close>

theorem residual_capacity:
  assumes "Model_init r df load pv won woff bio hyd bp bd ce de mc cc mn = Inr m"
  shows "(\<forall>solve c m'.
            lp_solver solve \<and> optimize solve m = Inr ((''ok'', c), m') \<longrightarrow>
            (\<exists>cap. p_nom_opt_of (network m') ''residual_load'' = [cap] \<and> mn \<le> cap))
       \<and> (frame_ok df \<and> 0 \<le> cc \<and> 0 \<le> mc \<and> 0 \<le> bp \<and> 0 \<le> bd \<and>
          0 \<le> ce \<and> 0 < de \<and> ce * de \<le> 1 \<and>
          (\<forall>t<length (index df).
             0 \<le> cell df ''load_profile'' t * load \<and> cell df ''load_profile'' t * load \<le> mn \<and>
             0 \<le> pv * cell df ''pv_profile'' t \<and> 0 \<le> won * cell df ''wind_on_profile'' t \<and>
             0 \<le> woff * cell df ''wind_off_profile'' t \<and>
             0 \<le> bio * cell df ''biomass_profile'' t \<and>
             0 \<le> hyd * cell df ''hydro_profile'' t)
          \<longrightarrow> has_optimum (network m) \<and>
              (\<exists>n'. same_problem (network m) n' \<and> lp_optimal n' \<and>
                    p_nom_opt_of n' ''residual_load'' = [mn]) \<and>
              (0 < cc \<longrightarrow>
                 (\<forall>n'. same_problem (network m) n' \<and> lp_optimal n' \<longrightarrow>
                       p_nom_opt_of n' ''residual_load'' = [mn]) \<and>
                 (\<forall>solve c m'.
                    lp_solver solve \<and> optimize solve m = Inr ((''ok'', c), m') \<and>
                    lp_optimal (network m') \<longrightarrow>
                    p_nom_opt_of (network m') ''residual_load'' = [mn])))"
proof -
  from Model_init_Inr [OF assms] obtain p1 p2 p3 p4 p5 pl where
    gi: "getitem df ''pv_profile'' = Inr p1" "getitem df ''wind_on_profile'' = Inr p2"
      "getitem df ''wind_off_profile'' = Inr p3" "getitem df ''biomass_profile'' = Inr p4"
      "getitem df ''hydro_profile'' = Inr p5" "getitem df ''load_profile'' = Inr pl" and
    n: "network m = built_network (index df) p1 p2 p3 p4 p5 pl load pv won woff bio hyd bp bd
                      ce de mc cc mn"
    by (auto simp: built_model_def)
  note cl = getitem_col [OF gi(1)] getitem_col [OF gi(2)] getitem_col [OF gi(3)]
    getitem_col [OF gi(4)] getitem_col [OF gi(5)] getitem_col [OF gi(6)]
  have sol: "same_problem (network m) (network m') \<and> lp_solution (network m')"
    if "lp_solver solve" "optimize solve m = Inr ((''ok'', c), m')" for solve c m'
    using that unfolding lp_solver_def optimize_Inr by force
  have A: "\<exists>cap. p_nom_opt_of (network m') ''residual_load'' = [cap] \<and> mn \<le> cap"
    if s: "lp_solver solve" "optimize solve m = Inr ((''ok'', c), m')" for solve c m'
  proof -
    let ?n = "network m'"
    from sol [OF s] have sp: "same_problem (built_network (index df) p1 p2 p3 p4 p5 pl load pv
                      won woff bio hyd bp bd ce de mc cc mn) ?n" and lp: "lp_solution ?n"
      by (simp_all add: n)
    from built_generators [OF sp] obtain g1 g2 g3 g4 g5 g6 where
      g: "generators ?n = [g1, g2, g3, g4, g5, g6]"
      "gen_inputs g1 = (''pv'', ''DE'', pv, False, 0, 1, 1 / 10, 0)"
      "gen_inputs g2 = (''wind_on'', ''DE'', won, False, 0, 1, 1 / 10, 0)"
      "gen_inputs g3 = (''wind_off'', ''DE'', woff, False, 0, 1, 1 / 10, 0)"
      "gen_inputs g4 = (''biomass'', ''DE'', bio, False, 0, 1, 1 / 10, 0)"
      "gen_inputs g5 = (''hydro'', ''DE'', hyd, False, 0, 1, 1 / 10, 0)"
      "gen_inputs g6 = (''residual_load'', ''DE'', 0, True, mn, 1, mc, cc)" .
    note rf = residual_facts [OF sp lp g(1,7)]
    have "p_nom_opt_of ?n ''residual_load'' = [p_nom_opt g6]"
      using g by (simp add: p_nom_opt_of_def gen_inputs_def)
    with rf(1) show ?thesis by simp
  qed
  have B: "has_optimum (network m) \<and>
              (\<exists>n'. same_problem (network m) n' \<and> lp_optimal n' \<and>
                    p_nom_opt_of n' ''residual_load'' = [mn]) \<and>
              (0 < cc \<longrightarrow>
                 (\<forall>n'. same_problem (network m) n' \<and> lp_optimal n' \<longrightarrow>
                       p_nom_opt_of n' ''residual_load'' = [mn]) \<and>
                 (\<forall>solve c m'.
                    lp_solver solve \<and> optimize solve m = Inr ((''ok'', c), m') \<and>
                    lp_optimal (network m') \<longrightarrow>
                    p_nom_opt_of (network m') ''residual_load'' = [mn]))"
    if fo: "frame_ok df" and cs: "0 \<le> cc" "0 \<le> mc" and nn: "0 \<le> bp" "0 \<le> bd"
      and eff: "0 \<le> ce" "0 < de" "ce * de \<le> 1"
      and h: "\<forall>t<length (index df).
             0 \<le> cell df ''load_profile'' t * load \<and> cell df ''load_profile'' t * load \<le> mn \<and>
             0 \<le> pv * cell df ''pv_profile'' t \<and> 0 \<le> won * cell df ''wind_on_profile'' t \<and>
             0 \<le> woff * cell df ''wind_off_profile'' t \<and>
             0 \<le> bio * cell df ''biomass_profile'' t \<and>
             0 \<le> hyd * cell df ''hydro_profile'' t"
  proof -
    from frame_ok_getitem [OF fo gi(6)] have len: "length pl = length (index df)" by simp
    have ld: "0 \<le> pl ! t * load \<and> pl ! t * load \<le> mn" if "t < length (index df)" for t
      using h that by (simp add: cell_def cl)
    have av: "0 \<le> pv * p1 ! t \<and> 0 \<le> won * p2 ! t \<and> 0 \<le> woff * p3 ! t \<and>
               0 \<le> bio * p4 ! t \<and> 0 \<le> hyd * p5 ! t" if "t < length (index df)" for t
      using h that by (simp add: cell_def cl)
    note mo = minimum_capacity_optimum [OF len ld av nn eff cs(2,1)]
    have 1: "\<exists>n'. same_problem (network m) n' \<and> lp_optimal n' \<and>
                   p_nom_opt_of n' ''residual_load'' = [mn]"
      unfolding n by (rule mo(1))
    then have 0: "has_optimum (network m)" unfolding has_optimum_def by blast
    have 2: "p_nom_opt_of n' ''residual_load'' = [mn]"
      if "0 < cc" "same_problem (network m) n'" "lp_optimal n'" for n'
      using that mo(2) unfolding n by blast
    have 3: "p_nom_opt_of (network m') ''residual_load'' = [mn]"
      if "0 < cc" "lp_solver solve" "optimize solve m = Inr ((''ok'', c), m')"
        "lp_optimal (network m')"
      for solve c m'
      using sol [OF that(2,3)] that(1,4) 2 by blast
    from 0 1 2 3 show ?thesis by blast
  qed
  from A B show ?thesis by blast
qed

theorem residual_capacity_witness:
  "(\<exists>n'. same_problem (network reserve_example) n' \<and> lp_optimal n' \<and>
          p_nom_opt_of n' ''residual_load'' = [10])
   \<and> optimize standby_solver standby_example = Inr ((''ok'', ''optimal''), standby_solved)
   \<and> lp_optimal (network standby_solved)
   \<and> p_nom_opt_of (network standby_solved) ''residual_load'' = [10]"
proof -
  have h: "\<forall>t<length (index example_profiles).
             0 \<le> cell example_profiles ''load_profile'' t * 10 \<and>
             cell example_profiles ''load_profile'' t * 10 \<le> (10::real) \<and>
             0 \<le> 8 * cell example_profiles ''pv_profile'' t \<and>
             0 \<le> 0 * cell example_profiles ''wind_on_profile'' t \<and>
             0 \<le> 0 * cell example_profiles ''wind_off_profile'' t \<and>
             0 \<le> 0 * cell example_profiles ''biomass_profile'' t \<and>
             0 \<le> 0 * cell example_profiles ''hydro_profile'' t"
    by (auto simp: example_profiles_def cell_def col_def less_Suc_eq)
  have h': "\<forall>t<length (index example_profiles).
             0 \<le> cell example_profiles ''load_profile'' t * 10 \<and>
             cell example_profiles ''load_profile'' t * 10 \<le> (10::real) \<and>
             0 \<le> 0 * cell example_profiles ''pv_profile'' t \<and>
             0 \<le> 0 * cell example_profiles ''wind_on_profile'' t \<and>
             0 \<le> 0 * cell example_profiles ''wind_off_profile'' t \<and>
             0 \<le> 0 * cell example_profiles ''biomass_profile'' t \<and>
             0 \<le> 0 * cell example_profiles ''hydro_profile'' t"
    by (auto simp: example_profiles_def cell_def col_def less_Suc_eq)
  from residual_capacity [OF reserve_init] example_frame_ok h
  have 1: "\<exists>n'. same_problem (network reserve_example) n' \<and> lp_optimal n' \<and>
          p_nom_opt_of n' ''residual_load'' = [10]"
    by (simp; blast)
  from residual_capacity [OF standby_init] example_frame_ok h'
  have "\<forall>solve c m'.
          lp_solver solve \<and> optimize solve standby_example = Inr ((''ok'', c), m') \<and>
          lp_optimal (network m') \<longrightarrow>
          p_nom_opt_of (network m') ''residual_load'' = [10]"
    by (simp; blast)
  with standby_lp_solver standby_optimize standby_optimal
  have 2: "p_nom_opt_of (network standby_solved) ''residual_load'' = [10]" by blast
  from 1 2 standby_optimize standby_optimal show ?thesis by blast
qed

theorem residual_capacity_counterexample:
  "Model_init False example_profiles 10 0 0 0 0 0 0 4 (9 / 10) 1 100 (- 1000) 10
     = Inr unbounded_example
   \<and> cell example_profiles ''load_profile'' 0 * 10 < 10
   \<and> cell example_profiles ''load_profile'' 1 * 10 < 10
   \<and> length (index example_profiles) = 2
   \<and> \<not> has_optimum (network unbounded_example)
   \<and> Model_init False example_profiles 10 0 0 0 0 0 0 4 (9 / 10) 1 100 0 10
       = Inr free_capacity_example
   \<and> (\<exists>n'. same_problem (network free_capacity_example) n' \<and> lp_optimal n' \<and>
           p_nom_opt_of n' ''residual_load'' = [11])
   \<and> Model_init False example_profiles 10 0 0 0 0 0 100 4 (9 / 10) 1 (- 2000) 1000 10
       = Inr dumping_example
   \<and> \<not> (\<exists>n'. same_problem (network dumping_example) n' \<and> lp_optimal n' \<and>
             p_nom_opt_of n' ''residual_load'' = [10])"
  using unbounded_init unbounded_no_optimum free_capacity_init free_capacity_optimum
    dumping_init dumping_no_minimum_capacity
  by (simp add: example_profiles_def cell_def col_def)

end
